theory Spec2Isabelle
  imports Complex_Main "HOL-Library.Finite_Map"
begin

section \<open>Chunked upload handler (api/upload-chunked.js)\<close>

text \<open>
  The handler of \<^verbatim>\<open>api/upload-chunked.js\<close> keeps all its state in files of one
  directory. The embedding follows the source function by function: the file system is an
  explicit store that every function takes and returns, a thrown exception is the left
  summand of a sum type, and the values the handler draws from its environment (the clock
  and the random number generator) are fields of the request.
\<close>

subsection \<open>JavaScript numbers\<close>

text \<open>
  A JavaScript number is an IEEE 754 double: a finite value, which is a rational number, an
  infinity, or NaN. An arithmetic operation returns the double nearest to the exact result,
  a tie going to the double whose significand is even, and an infinity when the rounded
  magnitude reaches \<open>2\<^sup>1\<^sup>0\<^sup>2\<^sup>4\<close>. \<open>dbl\<close> is this rounding: the significand has 53 bits, and
  below \<open>2\<^sup>-\<^sup>1\<^sup>0\<^sup>2\<^sup>2\<close> the doubles are the multiples of \<open>2\<^sup>-\<^sup>1\<^sup>0\<^sup>7\<^sup>4\<close>. \<open>Num x\<close> is used with a
  representable \<open>x\<close> only, and a literal such as \<^verbatim>\<open>0.1\<close> is \<open>dbl (1 / 10)\<close>. Zero has no sign
  in the model: a divisor zero is \<open>+0\<close>.
\<close>

datatype jsnum = Num rat | PInf | NInf | NaN

text \<open>The number of binary digits of a natural number.\<close>

fun bit_length :: "nat \<Rightarrow> nat" where
  "bit_length n = (if n = 0 then 0 else Suc (bit_length (n div 2)))"

declare bit_length.simps [simp del]

text \<open>
  For a positive \<open>x\<close>, the exponent \<open>e\<close> with \<open>2\<^sup>e \<le> x < 2\<^sup>e\<^sup>+\<^sup>1\<close>; \<open>pow2\<close> is the power of two
  with an integer exponent, and \<open>round_even\<close> the nearest integer, a tie going to the even
  one.
\<close>

definition exponent :: "rat \<Rightarrow> int" where
  "exponent x =
     (if 1 \<le> x then int (bit_length (nat \<lfloor>x\<rfloor>)) - 1
      else (let k = \<lfloor>1 / x\<rfloor>
            in - int (bit_length (nat (if of_int k = 1 / x then k - 1 else k)))))"

definition pow2 :: "int \<Rightarrow> rat" where
  "pow2 k = (if 0 \<le> k then 2 ^ nat k else 1 / 2 ^ nat (- k))"

definition round_even :: "rat \<Rightarrow> int" where
  "round_even x =
     (let n = \<lfloor>x\<rfloor>; r = x - of_int n
      in if r < 1 / 2 then n else if 1 / 2 < r then n + 1 else if even n then n else n + 1)"

definition dbl :: "rat \<Rightarrow> jsnum" where
  "dbl x =
     (if x = 0 then Num 0
      else (let u = pow2 (max (exponent \<bar>x\<bar>) (- 1022) - 52);
                y = of_int (round_even (\<bar>x\<bar> / u)) * u
            in if 2 ^ 1024 \<le> y then (if 0 < x then PInf else NInf)
               else Num (if 0 < x then y else - y)))"

fun js_add :: "jsnum \<Rightarrow> jsnum \<Rightarrow> jsnum" where
  "js_add NaN _ = NaN"
| "js_add _ NaN = NaN"
| "js_add PInf NInf = NaN"
| "js_add NInf PInf = NaN"
| "js_add PInf _ = PInf"
| "js_add _ PInf = PInf"
| "js_add NInf _ = NInf"
| "js_add _ NInf = NInf"
| "js_add (Num a) (Num b) = dbl (a + b)"

definition inf_of_sign :: "rat \<Rightarrow> jsnum" where
  "inf_of_sign a = (if a = 0 then NaN else if 0 < a then PInf else NInf)"

fun js_mul :: "jsnum \<Rightarrow> jsnum \<Rightarrow> jsnum" where
  "js_mul NaN _ = NaN"
| "js_mul _ NaN = NaN"
| "js_mul (Num a) (Num b) = dbl (a * b)"
| "js_mul (Num a) PInf = inf_of_sign a"
| "js_mul (Num a) NInf = inf_of_sign (- a)"
| "js_mul PInf (Num b) = inf_of_sign b"
| "js_mul NInf (Num b) = inf_of_sign (- b)"
| "js_mul PInf PInf = PInf"
| "js_mul NInf NInf = PInf"
| "js_mul PInf NInf = NInf"
| "js_mul NInf PInf = NInf"

fun js_div :: "jsnum \<Rightarrow> jsnum \<Rightarrow> jsnum" where
  "js_div NaN _ = NaN"
| "js_div _ NaN = NaN"
| "js_div (Num a) (Num b) = (if b = 0 then inf_of_sign a else dbl (a / b))"
| "js_div (Num a) PInf = Num 0"
| "js_div (Num a) NInf = Num 0"
| "js_div PInf (Num b) = (if 0 \<le> b then PInf else NInf)"
| "js_div NInf (Num b) = (if 0 \<le> b then NInf else PInf)"
| "js_div _ _ = NaN"

fun js_gt :: "jsnum \<Rightarrow> jsnum \<Rightarrow> bool" where
  "js_gt NaN _ = False"
| "js_gt _ NaN = False"
| "js_gt (Num a) (Num b) = (b < a)"
| "js_gt PInf PInf = False"
| "js_gt PInf _ = True"
| "js_gt NInf _ = False"
| "js_gt (Num a) NInf = True"
| "js_gt (Num a) PInf = False"

text \<open>\<^verbatim>\<open>Math.min\<close> and \<^verbatim>\<open>Math.max\<close> of two numbers.\<close>

definition js_min :: "jsnum \<Rightarrow> jsnum \<Rightarrow> jsnum" where
  "js_min a b = (if a = NaN \<or> b = NaN then NaN else if js_gt a b then b else a)"

definition js_max :: "jsnum \<Rightarrow> jsnum \<Rightarrow> jsnum" where
  "js_max a b = (if a = NaN \<or> b = NaN then NaN else if js_gt b a then b else a)"

text \<open>
  \<^verbatim>\<open>Math.round\<close>: the nearest integer, a tie going up. The result is exact: a double with a
  fractional part is less than \<open>2\<^sup>5\<^sup>2\<close> in magnitude.
\<close>

definition round_rat :: "rat \<Rightarrow> rat" where
  "round_rat x = of_int \<lfloor>x + 1 / 2\<rfloor>"

fun js_round :: "jsnum \<Rightarrow> jsnum" where
  "js_round (Num a) = Num (round_rat a)"
| "js_round x = x"

text \<open>
  The integers of the handler (chunk index, chunk count, file size, clock readings) are
  doubles as well. The model holds them as integers, which is exact for a
  \<open>safe_integer\<close>, and computes \<^verbatim>\<open>chunkIndex + 1\<close> and \<^verbatim>\<open>totalChunks - 1\<close> with
  \<open>js_int_add\<close>: the sum of two doubles that hold integers, rounded to 53 significant bits
  (no infinity arises when one of them is \<open>1\<close> or \<open>-1\<close>).
\<close>

definition safe_integer :: "int \<Rightarrow> bool" where
  "safe_integer i = (\<bar>i\<bar> < 2 ^ 53)"

definition js_int_add :: "int \<Rightarrow> int \<Rightarrow> int" where
  "js_int_add a b =
     (let i = a + b
      in if \<bar>i\<bar> \<le> 2 ^ 53 then i
         else (let u = 2 ^ (bit_length (nat \<bar>i\<bar>) - 53)
               in sgn i * (round_even (of_int \<bar>i\<bar> / of_int u) * u)))"

subsection \<open>Strings and paths\<close>

text \<open>
  A buffer is a list of bytes. Template literals render an integer in decimal; the model
  renders every integer so, which is what JavaScript does below \<open>10\<^sup>2\<^sup>1\<close>.
\<close>

type_synonym bytes = string

definition digit_char :: "nat \<Rightarrow> char" where
  "digit_char d = ''0123456789'' ! d"

fun show_nat :: "nat \<Rightarrow> string" where
  "show_nat n = (if n < 10 then [digit_char n] else show_nat (n div 10) @ [digit_char (n mod 10)])"

declare show_nat.simps [simp del]

definition show_int :: "int \<Rightarrow> string" where
  "show_int i = (if i < 0 then CHR ''-'' # show_nat (nat (- i)) else show_nat (nat i))"

text \<open>
  \<^verbatim>\<open>str.padStart(n, '0')\<close>, and \<^verbatim>\<open>x.toFixed(2)\<close>: the integer nearest to a hundred times
  the magnitude of \<open>x\<close> (a tie going up), printed with a point before its last two digits and
  with the sign of \<open>x\<close> (the magnitude is below \<open>10\<^sup>2\<^sup>1\<close> wherever this file calls it).
\<close>

definition pad_start :: "nat \<Rightarrow> string \<Rightarrow> string" where
  "pad_start n str = replicate (n - length str) CHR ''0'' @ str"

definition to_fixed2 :: "jsnum \<Rightarrow> string" where
  "to_fixed2 x =
     (case x of
        NaN \<Rightarrow> ''NaN''
      | PInf \<Rightarrow> ''Infinity''
      | NInf \<Rightarrow> ''-Infinity''
      | Num a \<Rightarrow>
          (let n = nat \<lfloor>\<bar>a\<bar> * 100 + 1 / 2\<rfloor>
           in (if a < 0 then ''-'' else [])
              @ show_nat (n div 100) @ ''.'' @ pad_start 2 (show_nat (n mod 100))))"

text \<open>
  An absolute, normalised path is the list of its segments. \<^verbatim>\<open>path.join(dir, name)\<close>
  joins its arguments with a slash and normalises the result: empty and \<^verbatim>\<open>.\<close> segments
  are dropped, and a \<^verbatim>\<open>..\<close> segment removes the segment before it (at the root it is
  dropped). \<open>dir\<close> is normalised already; \<open>name\<close> is not empty and does not end with a
  slash in any call of this file.
\<close>

type_synonym path = "string list"

fun split_slash :: "string \<Rightarrow> string list" where
  "split_slash [] = [[]]"
| "split_slash (c # cs) =
     (if c = CHR ''/'' then [] # split_slash cs
      else (case split_slash cs of [] \<Rightarrow> [[c]] | s # ss \<Rightarrow> (c # s) # ss))"

fun resolve :: "path \<Rightarrow> string list \<Rightarrow> path" where
  "resolve dir [] = dir"
| "resolve dir (s # ss) =
     (if s = [] \<or> s = ''.'' then resolve dir ss
      else if s = ''..'' then resolve (butlast dir) ss
      else resolve (dir @ [s]) ss)"

definition path_join :: "path \<Rightarrow> string \<Rightarrow> path" where
  "path_join dir name = resolve dir (split_slash name)"

subsection \<open>The md5 digest\<close>

text \<open>
  \<^verbatim>\<open>createHash('md5')\<close> is Node's; every function that hashes takes the digest function
  \<open>md5\<close> as its first argument; the 128 bits of a digest are the number \<open>md5 data mod 2\<^sup>1\<^sup>2\<^sup>8\<close>.
  \<^verbatim>\<open>digest('hex')\<close> renders them as 32 hexadecimal digits, and \<^verbatim>\<open>parseInt(s, 16)\<close>
  reads such digits back (eight of them, in this file: a number below \<open>2\<^sup>3\<^sup>2\<close>).
\<close>

type_synonym digest = "string \<Rightarrow> nat"

definition hex_char :: "nat \<Rightarrow> char" where
  "hex_char d = ''0123456789abcdef'' ! d"

primrec hex_digits :: "nat \<Rightarrow> nat \<Rightarrow> string" where
  "hex_digits 0 n = []"
| "hex_digits (Suc k) n = hex_digits k (n div 16) @ [hex_char (n mod 16)]"

definition md5_hex :: "digest \<Rightarrow> string \<Rightarrow> string" where
  "md5_hex md5 data = hex_digits 32 (md5 data mod 2 ^ 128)"

definition hex_val :: "char \<Rightarrow> nat" where
  "hex_val c =
     (let n = of_char c in
      if 48 \<le> n \<and> n \<le> 57 then n - 48
      else if 97 \<le> n \<and> n \<le> 102 then n - 87
      else if 65 \<le> n \<and> n \<le> 70 then n - 55
      else 0)"

definition parseInt16 :: "string \<Rightarrow> nat" where
  "parseInt16 s = foldl (\<lambda>a c. 16 * a + hex_val c) 0 s"

subsection \<open>Configuration\<close>

definition CHUNK_SIZE :: nat where
  "CHUNK_SIZE = 5 * 1024 * 1024"

definition MAX_FILE_SIZE :: nat where
  "MAX_FILE_SIZE = 100 * 1024 * 1024"

definition UPLOAD_DIR :: path where
  "UPLOAD_DIR = [''tmp'', ''chunked-uploads'']"

subsection \<open>Stored values\<close>

text \<open>
  The numbers of a chunk result that need not be integers (\<open>confidence\<close>,
  \<open>processingTime\<close>) are JavaScript numbers; sizes and counts are integers below \<open>2\<^sup>5\<^sup>3\<close>
  and are held exactly.
\<close>

record chunk_meta =
  meta_size :: nat
  meta_hash :: string
  meta_timestamp :: int

record chunk_result =
  chunkIndex :: int
  sessionId :: string
  prediction :: string
  confidence :: jsnum
  modelsUsed :: "string list"
  chunkSize :: nat
  estimatedFrames :: nat
  processingTime :: jsnum
  hash :: string
  timestamp :: int

text \<open>
  A file holds the bytes of a chunk or a JSON text. \<^verbatim>\<open>JSON.parse\<close> of what
  \<^verbatim>\<open>JSON.stringify\<close> wrote gives the value back (the numbers the handler writes are finite
  doubles, which are printed so that they are read back exactly), so a JSON file is modelled
  by its value: the metadata object (its keys are the chunk indices), one chunk result, or
  the metadata record that \<^verbatim>\<open>api/upload-chunk.js\<close> writes (\<open>upload_info\<close>, the fields named
  as in the source with the prefix \<open>info_\<close>).
\<close>

record upload_info =
  info_fileName :: "string option"
  info_fileSize :: int
  info_totalChunks :: int
  info_uploadedChunks :: int
  info_lastChunkTime :: int

datatype stored =
  ChunkFile bytes
| MetadataFile "(int, chunk_meta) fmap"
| ResultFile chunk_result
| InfoFile upload_info

text \<open>
  The exceptions: those of the file system, of \<^verbatim>\<open>JSON.parse\<close>, and of the form parser
  (an empty file, a file and field data above the limits).
\<close>

datatype error =
  ENOENT | EISDIR | ENOTDIR | EEXIST | ENAMETOOLONG | ERR_INVALID_ARG_VALUE | SyntaxError
| FileEmpty | FileTooLarge | FieldsTooLarge

text \<open>
  The store: the directories and the files. A path that the file system cannot hold is
  refused by every call that creates a file or a directory: Node throws for a path with a
  null byte, and the system for a segment of more than 255 bytes or a path of 4096 bytes or
  more. The store holds no file under such a path.
\<close>

record fs =
  dirs :: "path set"
  files :: "path \<rightharpoonup> stored"

definition NAME_MAX :: nat where
  "NAME_MAX = 255"

definition PATH_MAX :: nat where
  "PATH_MAX = 4096"

definition path_length :: "path \<Rightarrow> nat" where
  "path_length p = (if p = [] then 1 else sum_list (map (\<lambda>seg. Suc (length seg)) p))"

definition path_error :: "path \<Rightarrow> error option" where
  "path_error p =
     (if list_ex (\<lambda>seg. CHR 0x00 \<in> set seg) p then Some ERR_INVALID_ARG_VALUE
      else if list_ex (\<lambda>seg. NAME_MAX < length seg) p \<or> PATH_MAX \<le> path_length p
      then Some ENAMETOOLONG
      else None)"

definition existsSync :: "fs \<Rightarrow> path \<Rightarrow> bool" where
  "existsSync s p = (p \<in> dirs s \<or> files s p \<noteq> None)"

definition readFileSync :: "fs \<Rightarrow> path \<Rightarrow> error + stored" where
  "readFileSync s p =
     (if p \<in> dirs s then Inl EISDIR
      else case files s p of None \<Rightarrow> Inl ENOENT | Some f \<Rightarrow> Inr f)"

text \<open>The paths above \<open>p\<close>, from the root down, and \<open>p\<close> itself.\<close>

definition ancestors :: "path \<Rightarrow> path list" where
  "ancestors p = map (\<lambda>k. take k p) [0..<Suc (length p)]"

definition writeFileSync :: "fs \<Rightarrow> path \<Rightarrow> stored \<Rightarrow> error + fs" where
  "writeFileSync s p f =
     (case path_error p of
        Some e \<Rightarrow> Inl e
      | None \<Rightarrow>
          if butlast p \<notin> dirs s then
            (if list_ex (\<lambda>q. files s q \<noteq> None) (butlast (ancestors p)) then Inl ENOTDIR
             else Inl ENOENT)
          else if p \<in> dirs s then Inl EISDIR
          else Inr (s\<lparr>files := (files s)(p \<mapsto> f)\<rparr>))"

definition unlinkSync :: "fs \<Rightarrow> path \<Rightarrow> error + fs" where
  "unlinkSync s p =
     (if p \<in> dirs s then Inl EISDIR
      else case files s p of None \<Rightarrow> Inl ENOENT
           | Some f \<Rightarrow> Inr (s\<lparr>files := (files s)(p := None)\<rparr>))"

text \<open>
  \<^verbatim>\<open>mkdirSync(p, {recursive: true})\<close> makes the directory and those above it that are
  missing; it throws when \<open>p\<close> or a path above it is a file.
\<close>

definition mkdirSync :: "fs \<Rightarrow> path \<Rightarrow> error + fs" where
  "mkdirSync s p =
     (case path_error p of
        Some e \<Rightarrow> Inl e
      | None \<Rightarrow>
          if list_ex (\<lambda>q. files s q \<noteq> None) (butlast (ancestors p)) then Inl ENOTDIR
          else if files s p \<noteq> None then Inl EEXIST
          else Inr (s\<lparr>dirs := dirs s \<union> set (ancestors p)\<rparr>))"

subsection \<open>generateSessionId, storeChunkMetadata, processChunk\<close>

text \<open>\<open>now\<close> is the value \<^verbatim>\<open>Date.now()\<close> returns inside the function.\<close>

definition generateSessionId :: "digest \<Rightarrow> int \<Rightarrow> string \<Rightarrow> int \<Rightarrow> int \<Rightarrow> string" where
  "generateSessionId md5 now filename fileSize totalChunks =
     md5_hex md5
       (filename @ ''-'' @ show_int fileSize @ ''-'' @ show_int totalChunks @ ''-'' @ show_int now)"

definition metadataPath :: "string \<Rightarrow> path" where
  "metadataPath sid = path_join UPLOAD_DIR (sid @ ''-metadata.json'')"

definition chunkPath :: "string \<Rightarrow> int \<Rightarrow> path" where
  "chunkPath sid i = path_join UPLOAD_DIR (sid @ ''-chunk-'' @ show_int i)"

definition resultPath :: "string \<Rightarrow> int \<Rightarrow> path" where
  "resultPath sid i = path_join UPLOAD_DIR (sid @ ''-result-'' @ show_int i @ ''.json'')"

text \<open>
  Reading the metadata file throws when the path is a directory or when the file does not
  hold a metadata object (JSON.parse fails on it).
\<close>

definition readMetadata :: "fs \<Rightarrow> path \<Rightarrow> error + (int, chunk_meta) fmap" where
  "readMetadata s p =
     (if existsSync s p then
        (case readFileSync s p of
           Inl e \<Rightarrow> Inl e
         | Inr (MetadataFile m) \<Rightarrow> Inr m
         | Inr _ \<Rightarrow> Inl SyntaxError)
      else Inr fmempty)"

definition storeChunkMetadata ::
  "digest \<Rightarrow> int \<Rightarrow> fs \<Rightarrow> string \<Rightarrow> int \<Rightarrow> bytes \<Rightarrow> error + fs \<times> (int, chunk_meta) fmap" where
  "storeChunkMetadata md5 now s sid idx chunkData =
     (case readMetadata s (metadataPath sid) of
        Inl e \<Rightarrow> Inl e
      | Inr metadata \<Rightarrow>
          (let metadata' =
                 fmupd idx
                   \<lparr>meta_size = length chunkData,
                    meta_hash = md5_hex md5 chunkData,
                    meta_timestamp = now\<rparr> metadata
           in case writeFileSync s (metadataPath sid) (MetadataFile metadata') of
                Inl e \<Rightarrow> Inl e
              | Inr s' \<Rightarrow> Inr (s', metadata')))"

text \<open>
  \<open>rnd\<close> is the value of \<^verbatim>\<open>Math.random()\<close>, a double in \<open>[0, 1)\<close>, and \<open>now\<close> the value
  of \<^verbatim>\<open>Date.now()\<close>. \<open>ratio\<close> is the first value of the variable \<^verbatim>\<open>confidence\<close> and
  \<open>clamped\<close> its second. \<^verbatim>\<open>Math.floor(chunkSize / (1024 * 50))\<close> is the integer quotient:
  the length of a buffer is below \<open>2\<^sup>5\<^sup>3\<close>, where the rounded quotient has the same integer
  part as the exact one.
\<close>

definition processChunk :: "digest \<Rightarrow> rat \<Rightarrow> int \<Rightarrow> bytes \<Rightarrow> int \<Rightarrow> string \<Rightarrow> chunk_result" where
  "processChunk md5 rnd now chunkBuffer idx sid =
     (let hash = md5_hex md5 chunkBuffer;
          hashInt = parseInt16 (take 8 hash);
          chunkSize = length chunkBuffer;
          estimatedFrames = chunkSize div (1024 * 50);
          ratio = js_div (Num (of_nat (hashInt mod 1000))) (Num 1000);
          clamped = js_max (dbl (1 / 10)) (js_min (dbl (9 / 10)) ratio);
          prediction = (if js_gt clamped (Num (1 / 2)) then ''fake'' else ''real'');
          modelsUsed =
            [''BG-Model-N'']
            @ (if chunkSize < 2 * 1024 * 1024 then [''CM-Model-N''] else [])
            @ (if hashInt mod 3 = 0 then [''TM-Model-N''] else [])
      in \<lparr>chunkIndex = idx,
          sessionId = sid,
          prediction = prediction,
          confidence = js_div (js_round (js_mul clamped (Num 10000))) (Num 10000),
          modelsUsed = modelsUsed,
          chunkSize = chunkSize,
          estimatedFrames = estimatedFrames,
          processingTime = js_add (Num (1 / 2)) (js_mul (Num rnd) (Num 1)),
          hash = take 8 hash,
          timestamp = now\<rparr>)"

subsection \<open>aggregateChunkResults\<close>

record breakdown_entry =
  entry_chunkIndex :: int
  entry_prediction :: string
  entry_confidence :: jsnum
  entry_size :: string
  entry_models :: "string list"
  entry_frames :: nat

record chunked_analysis =
  total_chunks :: nat
  chunks_fake :: nat
  chunks_real :: nat
  chunk_breakdown :: "breakdown_entry list"
  aggregation_method :: string
  file_size_mb :: string

record confidence_breakdown =
  raw_confidence :: jsnum
  chunk_consensus :: string
  consistency_score :: jsnum

record analysis =
  confidence_breakdown :: confidence_breakdown
  frames_analyzed :: nat
  chunks_processed :: nat

text \<open>
  The fields \<open>prediction\<close>, \<open>confidence\<close> and \<open>timestamp\<close> of the aggregate carry the
  prefix \<open>final_\<close> here, the chunk result having fields of the same names.
\<close>

record aggregate_result =
  final_prediction :: string
  final_confidence :: jsnum
  models_used :: "string list"
  processing_time :: jsnum
  chunked_analysis :: chunked_analysis
  analysis :: analysis
  filename :: string
  file_size :: int
  final_timestamp :: int

text \<open>The body of the \<^verbatim>\<open>forEach\<close> loop, on the pair (weightedConfidence, totalWeight).\<close>

definition add_weight :: "int \<Rightarrow> jsnum \<times> jsnum \<Rightarrow> chunk_result \<Rightarrow> jsnum \<times> jsnum" where
  "add_weight totalFileSize acc chunk =
     (let weight = js_div (Num (of_nat (chunkSize chunk))) (Num (of_int totalFileSize))
      in (js_add (fst acc) (js_mul (confidence chunk) weight),
          js_add (snd acc) weight))"

text \<open>The elements of a JavaScript \<^verbatim>\<open>Set\<close>, in the order of their first insertion.\<close>

definition uniq :: "'a list \<Rightarrow> 'a list" where
  "uniq xs = rev (remdups (rev xs))"

definition breakdown :: "chunk_result \<Rightarrow> breakdown_entry" where
  "breakdown chunk =
     \<lparr>entry_chunkIndex = chunkIndex chunk,
      entry_prediction = prediction chunk,
      entry_confidence = confidence chunk,
      entry_size = to_fixed2 (js_div (Num (of_nat (chunkSize chunk))) (Num (1024 * 1024))) @ ''MB'',
      entry_models = modelsUsed chunk,
      entry_frames = estimatedFrames chunk\<rparr>"

definition aggregateChunkResults :: "int \<Rightarrow> chunk_result list \<Rightarrow> int \<Rightarrow> string \<Rightarrow> aggregate_result" where
  "aggregateChunkResults now chunkResults totalFileSize fname =
     (let totalChunks = length chunkResults;
          fakeChunks = length (filter (\<lambda>r. prediction r = ''fake'') chunkResults);
          realChunks = totalChunks - fakeChunks;
          totals = foldl (add_weight totalFileSize) (Num 0, Num 0) chunkResults;
          finalConfidence = js_div (fst totals) (snd totals);
          finalPrediction = (if js_gt finalConfidence (Num (1 / 2)) then ''fake'' else ''real'');
          allModelsUsed = uniq (concat (map modelsUsed chunkResults));
          totalProcessingTime = foldl (\<lambda>acc r. js_add acc (processingTime r)) (Num 0) chunkResults
      in \<lparr>final_prediction = finalPrediction,
          final_confidence = js_div (js_round (js_mul finalConfidence (Num 10000))) (Num 10000),
          models_used = allModelsUsed,
          processing_time = js_div (js_round (js_mul totalProcessingTime (Num 100))) (Num 100),
          chunked_analysis =
            \<lparr>total_chunks = totalChunks,
             chunks_fake = fakeChunks,
             chunks_real = realChunks,
             chunk_breakdown = map breakdown chunkResults,
             aggregation_method = ''weighted_by_size'',
             file_size_mb = to_fixed2 (js_div (Num (of_int totalFileSize)) (Num (1024 * 1024)))\<rparr>,
          analysis =
            \<lparr>confidence_breakdown =
               \<lparr>raw_confidence = finalConfidence,
                chunk_consensus =
                  (if realChunks < fakeChunks then ''fake_majority'' else ''real_majority''),
                consistency_score =
                  js_div (Num (of_nat (max fakeChunks realChunks))) (Num (of_nat totalChunks))\<rparr>,
             frames_analyzed = foldl (\<lambda>acc r. acc + estimatedFrames r) 0 chunkResults,
             chunks_processed = totalChunks\<rparr>,
          filename = fname,
          file_size = totalFileSize,
          final_timestamp = now\<rparr>)"

text \<open>
  The aggregate confidence in the words of the specification: the weight of a chunk is its
  size divided by the total file size, and the confidence is the sum over the chunks of
  confidence times weight, divided by the sum of the weights. The sums run over the chunks
  in their order, in the arithmetic of JavaScript.
\<close>

definition weight :: "int \<Rightarrow> chunk_result \<Rightarrow> jsnum" where
  "weight totalFileSize chunk = js_div (Num (of_nat (chunkSize chunk))) (Num (of_int totalFileSize))"

definition js_sum :: "jsnum list \<Rightarrow> jsnum" where
  "js_sum xs = foldl js_add (Num 0) xs"

definition weighted_confidence :: "int \<Rightarrow> chunk_result list \<Rightarrow> jsnum" where
  "weighted_confidence totalFileSize chunks =
     js_div (js_sum (map (\<lambda>c. js_mul (confidence c) (weight totalFileSize c)) chunks))
            (js_sum (map (weight totalFileSize) chunks))"

subsection \<open>The handler\<close>

text \<open>
  A request carries its method, the form fields (\<open>None\<close> for a field that is absent or
  empty; an integer field holds the value \<^verbatim>\<open>parseInt\<close> reads and is sent as the decimal
  numeral of that value, and a field in which \<^verbatim>\<open>parseInt\<close> finds no number is outside the
  model), the bytes of the uploaded chunk, and what the handler reads from its environment
  while it serves the request: the clock, once in each of \<^verbatim>\<open>generateSessionId\<close>,
  \<^verbatim>\<open>storeChunkMetadata\<close>, \<^verbatim>\<open>processChunk\<close> and \<^verbatim>\<open>aggregateChunkResults\<close>, and
  \<^verbatim>\<open>Math.random()\<close>.
\<close>

record request =
  http_method :: string
  field_chunkIndex :: "int option"
  field_totalChunks :: "int option"
  field_filename :: "string option"
  field_fileSize :: "int option"
  field_sessionId :: "string option"
  file_chunk :: "bytes option"
  now_session :: int
  now_metadata :: int
  now_result :: int
  now_aggregate :: int
  math_random :: rat

text \<open>
  The responses: \<open>Empty\<close> and \<open>ErrorJson\<close> with their status, \<open>Failure\<close> for the
  status 500 of the \<^verbatim>\<open>catch\<close> block, and the two bodies of status 200,
  \<open>Completed sessionId chunkIndex totalChunks result\<close> and
  \<open>Progress sessionId chunkIndex totalChunks receivedChunks prediction confidence
  processingTime\<close>. \<open>Uploaded chunkIndex uploadId message\<close> is the body of status 200 of
  \<^verbatim>\<open>api/upload-chunk.js\<close>.
\<close>

datatype response =
  Empty nat
| ErrorJson nat string
| Failure error
| Completed string int int aggregate_result
| Progress string int int nat string jsnum jsnum
| Uploaded int string string

text \<open>
  What a request leaves: the store, the response, and the clean-up timer it has set
  (the session and chunk count the timer will run with, five minutes later).
\<close>

record outcome =
  store :: fs
  reply :: response
  timer :: "(string \<times> int) option"

text \<open>
  The form parser (formidable, with the options of the handler and its defaults otherwise)
  rejects a form whose field values take more than 20 MiB in all, an empty file
  (\<^verbatim>\<open>allowEmptyFiles\<close> is false), and a file larger than \<^verbatim>\<open>maxFileSize\<close>. The rejection is
  an exception, caught by the handler's \<^verbatim>\<open>catch\<close>. When both the fields and the file are
  over their limits, the parser reports the one that comes first in the body; the model
  reports the fields.
\<close>

definition MAX_FIELDS_SIZE :: nat where
  "MAX_FIELDS_SIZE = 20 * 1024 * 1024"

definition text_bytes :: "string option \<Rightarrow> nat" where
  "text_bytes field = (case field of None \<Rightarrow> 0 | Some v \<Rightarrow> length v)"

definition number_bytes :: "int option \<Rightarrow> nat" where
  "number_bytes field = (case field of None \<Rightarrow> 0 | Some i \<Rightarrow> length (show_int i))"

definition fields_size :: "request \<Rightarrow> nat" where
  "fields_size req =
     number_bytes (field_chunkIndex req) + number_bytes (field_totalChunks req)
     + text_bytes (field_filename req) + number_bytes (field_fileSize req)
     + text_bytes (field_sessionId req)"

definition parse_file :: "nat \<Rightarrow> bytes option \<Rightarrow> error + unit" where
  "parse_file maxFileSize upload =
     (case upload of
        None \<Rightarrow> Inr ()
      | Some b \<Rightarrow>
          if b = [] then Inl FileEmpty
          else if maxFileSize < length b then Inl FileTooLarge
          else Inr ())"

definition form_parse :: "request \<Rightarrow> error + unit" where
  "form_parse req =
     (if MAX_FIELDS_SIZE < fields_size req then Inl FieldsTooLarge
      else parse_file MAX_FILE_SIZE (file_chunk req))"

definition or_default :: "'a option \<Rightarrow> 'a \<Rightarrow> 'a" where
  "or_default field d = (case field of None \<Rightarrow> d | Some v \<Rightarrow> v)"

definition request_sessionId :: "digest \<Rightarrow> request \<Rightarrow> string" where
  "request_sessionId md5 req =
     (case field_sessionId req of
        Some sid \<Rightarrow>
          if sid \<noteq> [] then sid
          else generateSessionId md5 (now_session req)
                 (or_default (field_filename req) ''video.mp4'')
                 (or_default (field_fileSize req) 0) (or_default (field_totalChunks req) 1)
      | None \<Rightarrow>
          generateSessionId md5 (now_session req)
            (or_default (field_filename req) ''video.mp4'')
            (or_default (field_fileSize req) 0) (or_default (field_totalChunks req) 1))"

text \<open>
  The handler runs without interruption up to \<^verbatim>\<open>await processChunk(...)\<close>, whose call
  computes the chunk result, and again from there to its response. \<open>pending\<close> holds the
  local variables that are live across the \<^verbatim>\<open>await\<close>.
\<close>

record pending =
  pending_sessionId :: string
  pending_chunkIndex :: int
  pending_totalChunks :: int
  pending_filename :: string
  pending_fileSize :: int
  pending_metadata :: "(int, chunk_meta) fmap"
  pending_chunkResult :: chunk_result
  pending_now :: int

definition respond :: "fs \<Rightarrow> response \<Rightarrow> outcome" where
  "respond s r = \<lparr>store = s, reply = r, timer = None\<rparr>"

definition receiveChunk :: "digest \<Rightarrow> request \<Rightarrow> fs \<Rightarrow> outcome + fs \<times> pending" where
  "receiveChunk md5 req s =
     (if http_method req = ''OPTIONS'' then Inl (respond s (Empty 200))
      else if http_method req \<noteq> ''POST'' then Inl (respond s (ErrorJson 405 ''Method not allowed''))
      else case form_parse req of
        Inl e \<Rightarrow> Inl (respond s (Failure e))
      | Inr _ \<Rightarrow>
         (let idx = or_default (field_chunkIndex req) 0;
              totalChunks = or_default (field_totalChunks req) 1;
              fname = or_default (field_filename req) ''video.mp4'';
              fileSize = or_default (field_fileSize req) 0;
              sid = request_sessionId md5 req
          in case file_chunk req of
               None \<Rightarrow> Inl (respond s (ErrorJson 400 ''No chunk uploaded''))
             | Some chunkBuffer \<Rightarrow>
                (case writeFileSync s (chunkPath sid idx) (ChunkFile chunkBuffer) of
                   Inl e \<Rightarrow> Inl (respond s (Failure e))
                 | Inr s1 \<Rightarrow>
                    (case storeChunkMetadata md5 (now_metadata req) s1 sid idx chunkBuffer of
                       Inl e \<Rightarrow> Inl (respond s1 (Failure e))
                     | Inr (s2, metadata) \<Rightarrow>
                         Inr (s2,
                           \<lparr>pending_sessionId = sid,
                            pending_chunkIndex = idx,
                            pending_totalChunks = totalChunks,
                            pending_filename = fname,
                            pending_fileSize = fileSize,
                            pending_metadata = metadata,
                            pending_chunkResult =
                              processChunk md5 (math_random req) (now_result req)
                                chunkBuffer idx sid,
                            pending_now = now_aggregate req\<rparr>)))))"

text \<open>The loop that loads the stored chunk results of the indices \<open>is\<close>.\<close>

fun loadResults :: "fs \<Rightarrow> string \<Rightarrow> int list \<Rightarrow> error + chunk_result list" where
  "loadResults s sid [] = Inr []"
| "loadResults s sid (i # is) =
     (if existsSync s (resultPath sid i) then
        (case readFileSync s (resultPath sid i) of
           Inl e \<Rightarrow> Inl e
         | Inr (ResultFile r) \<Rightarrow>
             (case loadResults s sid is of Inl e \<Rightarrow> Inl e | Inr rs \<Rightarrow> Inr (r # rs))
         | Inr _ \<Rightarrow> Inl SyntaxError)
      else loadResults s sid is)"

text \<open>
  The temporary file of the upload, which the handler unlinks, lies outside the upload
  directory and is not part of the store.
\<close>

definition finishChunk :: "pending \<Rightarrow> fs \<Rightarrow> outcome" where
  "finishChunk p s =
     (let sid = pending_sessionId p;
          idx = pending_chunkIndex p;
          totalChunks = pending_totalChunks p;
          chunkResult = pending_chunkResult p
      in case writeFileSync s (resultPath sid idx) (ResultFile chunkResult) of
           Inl e \<Rightarrow> respond s (Failure e)
         | Inr s1 \<Rightarrow>
            (let isLastChunk = (idx = js_int_add totalChunks (- 1));
                 receivedChunks = fcard (fmdom (pending_metadata p));
                 allChunksReceived = (int receivedChunks = totalChunks)
             in if isLastChunk \<and> allChunksReceived then
                  (case loadResults s1 sid (map int [0..<nat totalChunks]) of
                     Inl e \<Rightarrow> respond s1 (Failure e)
                   | Inr chunkResults \<Rightarrow>
                       \<lparr>store = s1,
                        reply =
                          Completed sid idx totalChunks
                            (aggregateChunkResults (pending_now p)
                               (sort_key chunkIndex chunkResults)
                               (pending_fileSize p) (pending_filename p)),
                        timer = Some (sid, totalChunks)\<rparr>)
                else
                  respond s1
                    (Progress sid idx totalChunks receivedChunks
                       (prediction chunkResult) (confidence chunkResult)
                       (processingTime chunkResult))))"

definition handler :: "digest \<Rightarrow> request \<Rightarrow> fs \<Rightarrow> outcome" where
  "handler md5 req s =
     (case receiveChunk md5 req s of
        Inl out \<Rightarrow> out
      | Inr (s', p) \<Rightarrow> finishChunk p s')"

text \<open>
  The body of the clean-up timer: each file of the session that exists is unlinked; an
  exception ends the loop (it is caught and logged).
\<close>

fun unlink_existing :: "path list \<Rightarrow> fs \<Rightarrow> fs" where
  "unlink_existing [] s = s"
| "unlink_existing (p # ps) s =
     (if existsSync s p then
        (case unlinkSync s p of Inl e \<Rightarrow> s | Inr s' \<Rightarrow> unlink_existing ps s')
      else unlink_existing ps s)"

definition cleanup :: "string \<Rightarrow> int \<Rightarrow> fs \<Rightarrow> fs" where
  "cleanup sid totalChunks s =
     unlink_existing
       (concat (map (\<lambda>i. [chunkPath sid i, resultPath sid i]) (map int [0..<nat totalChunks]))
        @ [metadataPath sid]) s"

text \<open>
  The server between two requests: the store, and the clean-up timers that are pending, the
  oldest first. All timers run after the same delay, so they fire in the order in which they
  were set. An event is a request, served from its arrival to its response with nothing in
  between, or the moment at which the oldest pending timer fires. \<open>run\<close> takes the server
  through a list of events and returns the responses.
\<close>

datatype event = Post request | Expire

type_synonym server = "fs \<times> (string \<times> int) list"

fun run :: "digest \<Rightarrow> event list \<Rightarrow> server \<Rightarrow> server \<times> response list" where
  "run md5 [] sv = (sv, [])"
| "run md5 (Post req # es) sv =
     (let out = handler md5 req (fst sv);
          rest = run md5 es (store out, snd sv @ (case timer out of None \<Rightarrow> [] | Some t \<Rightarrow> [t]))
      in (fst rest, reply out # snd rest))"
| "run md5 (Expire # es) sv =
     (case snd sv of
        [] \<Rightarrow> run md5 es sv
      | t # ts \<Rightarrow> run md5 es (cleanup (fst t) (snd t) (fst sv), ts))"

section \<open>Chunk receiver (api/upload-chunk.js)\<close>

text \<open>
  The second handler stores a chunk in a directory of its upload and overwrites the
  metadata file of the upload. Its form parser accepts a file of 5 MiB at most.
\<close>

definition TEMP_DIR :: path where
  "TEMP_DIR = [''tmp'', ''uploads'']"

record part_request =
  part_method :: string
  part_chunkIndex :: "int option"
  part_totalChunks :: "int option"
  part_uploadId :: "string option"
  part_fileName :: "string option"
  part_fileSize :: "int option"
  part_chunk :: "bytes option"
  part_now :: int

text \<open>
  The parser with its limits, and the handler in two parts: \<open>store_part\<close> is what the
  handler does once it has found the chunk and the upload id.
\<close>

definition part_fields_size :: "part_request \<Rightarrow> nat" where
  "part_fields_size req =
     number_bytes (part_chunkIndex req) + number_bytes (part_totalChunks req)
     + text_bytes (part_uploadId req) + text_bytes (part_fileName req)
     + number_bytes (part_fileSize req)"

definition part_parse :: "part_request \<Rightarrow> error + unit" where
  "part_parse req =
     (if MAX_FIELDS_SIZE < part_fields_size req then Inl FieldsTooLarge
      else parse_file (5 * 1024 * 1024) (part_chunk req))"

definition chunk_name :: "int \<Rightarrow> string" where
  "chunk_name idx = ''chunk_'' @ pad_start 4 (show_int idx)"

definition store_part :: "fs \<Rightarrow> int \<Rightarrow> int \<Rightarrow> string \<Rightarrow> string option \<Rightarrow> int \<Rightarrow> int \<Rightarrow> bytes \<Rightarrow> fs \<times> response" where
  "store_part s idx totalChunks uploadId fileName fileSize now chunkBuffer =
     (let uploadDir = path_join TEMP_DIR uploadId
      in case (if existsSync s uploadDir then Inr s else mkdirSync s uploadDir) of
           Inl e \<Rightarrow> (s, Failure e)
         | Inr s1 \<Rightarrow>
            (case writeFileSync s1 (path_join uploadDir (chunk_name idx)) (ChunkFile chunkBuffer) of
               Inl e \<Rightarrow> (s1, Failure e)
             | Inr s2 \<Rightarrow>
                (case writeFileSync s2 (path_join uploadDir ''metadata.json'')
                        (InfoFile
                           \<lparr>info_fileName = fileName,
                            info_fileSize = fileSize,
                            info_totalChunks = totalChunks,
                            info_uploadedChunks = js_int_add idx 1,
                            info_lastChunkTime = now\<rparr>) of
                   Inl e \<Rightarrow> (s2, Failure e)
                 | Inr s3 \<Rightarrow>
                     (s3, Uploaded idx uploadId
                            (''Chunk '' @ show_int (js_int_add idx 1) @ ''/'' @ show_int totalChunks
                             @ '' uploaded successfully'')))))"

definition handler_upload_chunk :: "part_request \<Rightarrow> fs \<Rightarrow> fs \<times> response" where
  "handler_upload_chunk req s =
     (if part_method req = ''OPTIONS'' then (s, Empty 200)
      else if part_method req \<noteq> ''POST'' then (s, ErrorJson 405 ''Method not allowed'')
      else case part_parse req of
        Inl e \<Rightarrow> (s, Failure e)
      | Inr _ \<Rightarrow>
         (let idx = or_default (part_chunkIndex req) 0;
              totalChunks = or_default (part_totalChunks req) 0;
              fileSize = or_default (part_fileSize req) 0
          in case part_chunk req of
               None \<Rightarrow> (s, ErrorJson 400 ''Missing required fields'')
             | Some chunkBuffer \<Rightarrow>
                (case part_uploadId req of
                   None \<Rightarrow> (s, ErrorJson 400 ''Missing required fields'')
                 | Some uploadId \<Rightarrow>
                     if uploadId = [] then (s, ErrorJson 400 ''Missing required fields'')
                     else store_part s idx totalChunks uploadId (part_fileName req) fileSize
                            (part_now req) chunkBuffer)))"

text \<open>
  \<open>part_accepted\<close>: a POST request that the parser accepts, with a chunk, an upload id and
  safe integers in its numeric fields. \<open>upload_area_ready\<close>: the upload directory of
  \<open>uploadId\<close> can be made, or is there, it holds no directory, and the file system can
  hold the two files of the request.
\<close>

definition part_accepted :: "part_request \<Rightarrow> string \<Rightarrow> bytes \<Rightarrow> bool" where
  "part_accepted req uploadId b =
     (part_method req = ''POST'' \<and> part_parse req = Inr () \<and> part_chunk req = Some b
      \<and> part_uploadId req = Some uploadId \<and> uploadId \<noteq> []
      \<and> safe_integer (or_default (part_chunkIndex req) 0)
      \<and> safe_integer (or_default (part_totalChunks req) 0)
      \<and> safe_integer (or_default (part_fileSize req) 0))"

definition upload_area_ready :: "fs \<Rightarrow> string \<Rightarrow> int \<Rightarrow> bool" where
  "upload_area_ready s uploadId idx =
     (list_all (\<lambda>q. files s q = None) (ancestors (path_join TEMP_DIR uploadId))
      \<and> (\<forall>name. path_join TEMP_DIR uploadId @ [name] \<notin> dirs s)
      \<and> path_error (path_join TEMP_DIR uploadId) = None
      \<and> path_error (path_join TEMP_DIR uploadId @ [chunk_name idx]) = None
      \<and> path_error (path_join TEMP_DIR uploadId @ [''metadata.json'']) = None)"

subsection \<open>Sample data\<close>

definition MiB :: nat where
  "MiB = 1024 * 1024"

definition sample_result :: "int \<Rightarrow> nat \<Rightarrow> jsnum \<Rightarrow> chunk_result" where
  "sample_result i sz c =
     \<lparr>chunkIndex = i, sessionId = ''s'', prediction = (if js_gt c (Num (1 / 2)) then ''fake'' else ''real''),
      confidence = c, modelsUsed = [''BG-Model-N''], chunkSize = sz,
      estimatedFrames = sz div (1024 * 50), processingTime = Num (1 / 2), hash = ''00000000'',
      timestamp = 0\<rparr>"

subsection \<open>Sessions in the store\<close>

text \<open>
  The upload directory is created when the module is loaded, and the handler makes no
  directory: \<open>upload_dir_ready\<close> says that the directory is there and has no
  subdirectory. The files of a session are named by its id followed by a suffix. The
  \<open>session_stem\<close> of an id is what follows its last slash. A \<open>local_id\<close> is an id, not
  empty, whose files lie in the upload directory itself and can be held by the file system
  whatever safe integer the chunk index is: what precedes the last slash of the id, if
  anything, leads back to the upload directory, and the stem has no null byte and at most
  225 bytes (the longest suffix, \<^verbatim>\<open>-result-\<close>, a chunk index and \<^verbatim>\<open>.json\<close>, has 30 bytes
  at most).
\<close>

definition upload_dir_ready :: "fs \<Rightarrow> bool" where
  "upload_dir_ready s = (UPLOAD_DIR \<in> dirs s \<and> (\<forall>name. UPLOAD_DIR @ [name] \<notin> dirs s))"

definition session_stem :: "string \<Rightarrow> string" where
  "session_stem sid = last (split_slash sid)"

definition local_id :: "string \<Rightarrow> bool" where
  "local_id sid =
     (sid \<noteq> [] \<and> resolve UPLOAD_DIR (butlast (split_slash sid)) = UPLOAD_DIR
      \<and> CHR 0x00 \<notin> set (session_stem sid) \<and> length (session_stem sid) \<le> 225)"

text \<open>
  The files of a session hold what the handler writes to them: the metadata file a metadata
  object and a result file a chunk result (or the file is not there).
\<close>

definition metadata_ok :: "fs \<Rightarrow> string \<Rightarrow> bool" where
  "metadata_ok s sid =
     (case files s (metadataPath sid) of
        None \<Rightarrow> True | Some (MetadataFile _) \<Rightarrow> True | Some _ \<Rightarrow> False)"

definition results_ok :: "fs \<Rightarrow> string \<Rightarrow> bool" where
  "results_ok s sid =
     (\<forall>i. case files s (resultPath sid i) of
            None \<Rightarrow> True | Some (ResultFile _) \<Rightarrow> True | Some _ \<Rightarrow> False)"

text \<open>The metadata object of a session, and the number of its keys (receivedChunks).\<close>

definition session_metadata :: "fs \<Rightarrow> string \<Rightarrow> (int, chunk_meta) fmap" where
  "session_metadata s sid =
     (case files s (metadataPath sid) of Some (MetadataFile m) \<Rightarrow> m | _ \<Rightarrow> fmempty)"

definition receivedCount :: "fs \<Rightarrow> string \<Rightarrow> nat" where
  "receivedCount s sid = fcard (fmdom (session_metadata s sid))"

definition the_chunk :: "request \<Rightarrow> bytes" where
  "the_chunk req = or_default (file_chunk req) []"

definition the_index :: "request \<Rightarrow> int" where
  "the_index req = or_default (field_chunkIndex req) 0"

definition the_total :: "request \<Rightarrow> int" where
  "the_total req = or_default (field_totalChunks req) 1"

text \<open>
  An upload for the session \<open>sid\<close>: a POST request with a chunk that the form parser
  accepts (a chunk of 1 byte to 100 MiB, and field values of 20 MiB at most in all), whose
  chunk index, chunk count and file size are safe integers. The id is the one in the request
  or, when the request has none, the one the handler generates.
\<close>

definition is_upload :: "digest \<Rightarrow> string \<Rightarrow> request \<Rightarrow> bool" where
  "is_upload md5 sid req =
     (http_method req = ''POST'' \<and> request_sessionId md5 req = sid
      \<and> file_chunk req \<noteq> None \<and> form_parse req = Inr ()
      \<and> safe_integer (the_index req) \<and> safe_integer (the_total req)
      \<and> safe_integer (or_default (field_fileSize req) 0))"

text \<open>The text that \<^verbatim>\<open>generateSessionId\<close> hashes for a request without session id.\<close>

definition hashed_text :: "request \<Rightarrow> string" where
  "hashed_text req =
     or_default (field_filename req) ''video.mp4'' @ ''-''
     @ show_int (or_default (field_fileSize req) 0) @ ''-''
     @ show_int (or_default (field_totalChunks req) 1) @ ''-'' @ show_int (now_session req)"

text \<open>The store after the first part of the handler, and the values it holds on to.\<close>

definition new_meta :: "digest \<Rightarrow> request \<Rightarrow> chunk_meta" where
  "new_meta md5 req =
     \<lparr>meta_size = length (the_chunk req), meta_hash = md5_hex md5 (the_chunk req),
      meta_timestamp = now_metadata req\<rparr>"

definition received_store :: "digest \<Rightarrow> string \<Rightarrow> request \<Rightarrow> fs \<Rightarrow> fs" where
  "received_store md5 sid req s =
     s\<lparr>files := (files s)
          (chunkPath sid (the_index req) \<mapsto> ChunkFile (the_chunk req),
           metadataPath sid \<mapsto>
             MetadataFile (fmupd (the_index req) (new_meta md5 req) (session_metadata s sid)))\<rparr>"

definition received_pending :: "digest \<Rightarrow> string \<Rightarrow> request \<Rightarrow> fs \<Rightarrow> pending" where
  "received_pending md5 sid req s =
     \<lparr>pending_sessionId = sid,
      pending_chunkIndex = the_index req,
      pending_totalChunks = the_total req,
      pending_filename = or_default (field_filename req) ''video.mp4'',
      pending_fileSize = or_default (field_fileSize req) 0,
      pending_metadata = fmupd (the_index req) (new_meta md5 req) (session_metadata s sid),
      pending_chunkResult =
        processChunk md5 (math_random req) (now_result req) (the_chunk req) (the_index req) sid,
      pending_now = now_aggregate req\<rparr>"

text \<open>The store a served upload leaves, and the results the aggregation loop finds.\<close>

definition new_result :: "digest \<Rightarrow> string \<Rightarrow> request \<Rightarrow> chunk_result" where
  "new_result md5 sid req =
     processChunk md5 (math_random req) (now_result req) (the_chunk req) (the_index req) sid"

definition finished_store :: "digest \<Rightarrow> string \<Rightarrow> request \<Rightarrow> fs \<Rightarrow> fs" where
  "finished_store md5 sid req s =
     s\<lparr>files := (files s)
          (chunkPath sid (the_index req) \<mapsto> ChunkFile (the_chunk req),
           metadataPath sid \<mapsto>
             MetadataFile (fmupd (the_index req) (new_meta md5 req) (session_metadata s sid)),
           resultPath sid (the_index req) \<mapsto> ResultFile (new_result md5 sid req))\<rparr>"

definition stored_results :: "fs \<Rightarrow> string \<Rightarrow> int list \<Rightarrow> chunk_result list" where
  "stored_results s sid is =
     concat (map (\<lambda>i. case files s (resultPath sid i) of Some (ResultFile r) \<Rightarrow> [r] | _ \<Rightarrow> []) is)"

text \<open>
  The test the handler makes before it aggregates, on the metadata it has just written:
  \<^verbatim>\<open>isLastChunk && allChunksReceived\<close>.
\<close>

definition received_after :: "string \<Rightarrow> request \<Rightarrow> fs \<Rightarrow> nat" where
  "received_after sid req s = fcard (finsert (the_index req) (fmdom (session_metadata s sid)))"

definition completes :: "string \<Rightarrow> request \<Rightarrow> fs \<Rightarrow> bool" where
  "completes sid req s =
     (the_index req = the_total req - 1 \<and> int (received_after sid req s) = the_total req)"

definition completed_reply :: "digest \<Rightarrow> string \<Rightarrow> request \<Rightarrow> fs \<Rightarrow> response" where
  "completed_reply md5 sid req s =
     Completed sid (the_index req) (the_total req)
       (aggregateChunkResults (now_aggregate req)
          (sort_key chunkIndex
             (stored_results (finished_store md5 sid req s) sid (map int [0..<nat (the_total req)])))
          (or_default (field_fileSize req) 0) (or_default (field_filename req) ''video.mp4''))"

definition progress_reply :: "digest \<Rightarrow> string \<Rightarrow> request \<Rightarrow> fs \<Rightarrow> response" where
  "progress_reply md5 sid req s =
     Progress sid (the_index req) (the_total req) (received_after sid req s)
       (prediction (new_result md5 sid req)) (confidence (new_result md5 sid req))
       (processingTime (new_result md5 sid req))"

text \<open>
  A store with the upload directory and no file, a stand-in for the digest (the sum of the
  bytes, in the leading 32 bits), and a POST request with all its fields.
\<close>

definition empty_store :: fs where
  "empty_store = \<lparr>dirs = {[], [''tmp''], UPLOAD_DIR}, files = Map.empty\<rparr>"

definition sample_md5 :: digest where
  "sample_md5 data = 2 ^ 96 * sum_list (map of_char data)"

definition upload :: "string \<Rightarrow> int \<Rightarrow> int \<Rightarrow> bytes \<Rightarrow> request" where
  "upload sid idx n b =
     \<lparr>http_method = ''POST'', field_chunkIndex = Some idx, field_totalChunks = Some n,
      field_filename = Some ''clip.mp4'', field_fileSize = Some 6, field_sessionId = Some sid,
      file_chunk = Some b, now_session = 1000, now_metadata = 1001, now_result = 1002,
      now_aggregate = 1003, math_random = 1 / 4\<rparr>"

text \<open>Reading a response: the field \<^verbatim>\<open>completed\<close>, and the aggregate of a completed one.\<close>

fun completed :: "response \<Rightarrow> bool" where
  "completed (Completed _ _ _ _) = True"
| "completed _ = False"

fun reply_result :: "response \<Rightarrow> aggregate_result option" where
  "reply_result (Completed _ _ _ a) = Some a"
| "reply_result _ = None"

definition breakdown_indices :: "aggregate_result \<Rightarrow> int list" where
  "breakdown_indices a = map entry_chunkIndex (chunk_breakdown (chunked_analysis a))"

text \<open>The chunk result stored for index \<open>i\<close> of a session, if there is one.\<close>

definition session_result :: "fs \<Rightarrow> string \<Rightarrow> int \<Rightarrow> chunk_result option" where
  "session_result s sid i =
     (case files s (resultPath sid i) of Some (ResultFile r) \<Rightarrow> Some r | _ \<Rightarrow> None)"

fun reply_sessionId :: "response \<Rightarrow> string option" where
  "reply_sessionId (Completed sid _ _ _) = Some sid"
| "reply_sessionId (Progress sid _ _ _ _ _ _) = Some sid"
| "reply_sessionId _ = None"

fun reply_received :: "response \<Rightarrow> nat option" where
  "reply_received (Progress _ _ _ k _ _ _) = Some k"
| "reply_received _ = None"

text \<open>
  \<open>session_state s sid K\<close>: the store is in order for session \<open>sid\<close>, the session has
  recorded exactly the indices \<open>K\<close>, and each of them has its result stored.
\<close>

definition session_state :: "fs \<Rightarrow> string \<Rightarrow> int fset \<Rightarrow> bool" where
  "session_state s sid K =
     (upload_dir_ready s \<and> metadata_ok s sid \<and> results_ok s sid
      \<and> fmdom (session_metadata s sid) = K
      \<and> (\<forall>i. case session_result s sid i of
                None \<Rightarrow> i |\<notin>| K
              | Some r \<Rightarrow> i |\<in>| K \<and> chunkIndex r = i))"

subsection \<open>Two requests in flight\<close>

text \<open>
  The handler is an \<^verbatim>\<open>async\<close> function. In one Node process two invocations interleave
  at their \<^verbatim>\<open>await\<close>s and nowhere else: the first \<^verbatim>\<open>await\<close> (the form parser) comes before
  any access to the store, and the second is \<^verbatim>\<open>await processChunk(...)\<close>. A request in
  flight has arrived, or is suspended at the second \<^verbatim>\<open>await\<close> with its local variables, or
  has been answered. \<open>step\<close> runs it to its next stop; \<open>interleave\<close> runs two requests by
  a list of turns. No clean-up timer fires during the turns.
\<close>

datatype flight = Arrived request | Awaiting pending | Answered outcome

fun step :: "digest \<Rightarrow> flight \<Rightarrow> fs \<Rightarrow> flight \<times> fs" where
  "step md5 (Arrived req) s =
     (case receiveChunk md5 req s of
        Inl out \<Rightarrow> (Answered out, store out)
      | Inr (s', p) \<Rightarrow> (Awaiting p, s'))"
| "step md5 (Awaiting p) s = (Answered (finishChunk p s), store (finishChunk p s))"
| "step md5 (Answered out) s = (Answered out, s)"

datatype turn = First | Second

fun interleave :: "digest \<Rightarrow> turn list \<Rightarrow> flight \<times> flight \<Rightarrow> fs \<Rightarrow> (flight \<times> flight) \<times> fs" where
  "interleave md5 [] fl s = (fl, s)"
| "interleave md5 (First # ts) fl s =
     interleave md5 ts (fst (step md5 (fst fl) s), snd fl) (snd (step md5 (fst fl) s))"
| "interleave md5 (Second # ts) fl s =
     interleave md5 ts (fst fl, fst (step md5 (snd fl) s)) (snd (step md5 (snd fl) s))"

fun flight_reply :: "flight \<Rightarrow> response option" where
  "flight_reply (Answered out) = Some (reply out)"
| "flight_reply _ = None"

fun stops_left :: "flight \<Rightarrow> nat" where
  "stops_left (Arrived _) = 2"
| "stops_left (Awaiting _) = 1"
| "stops_left (Answered _) = 0"

text \<open>
  \<open>last_missing s sid n\<close>: the store is in order for the session, every chunk below
  \<open>n - 1\<close> is recorded and has its result, and nothing outside \<open>0, \<dots>, n - 1\<close> is.
  \<open>final_upload\<close>: an upload of the chunk \<open>n - 1\<close> that declares \<open>n\<close> chunks.
\<close>

definition last_missing :: "fs \<Rightarrow> string \<Rightarrow> nat \<Rightarrow> bool" where
  "last_missing s sid n =
     (upload_dir_ready s \<and> metadata_ok s sid \<and> results_ok s sid
      \<and> (\<forall>i. i |\<in>| fmdom (session_metadata s sid) \<longrightarrow> 0 \<le> i \<and> i < int n)
      \<and> (\<forall>i. 0 \<le> i \<and> i < int n - 1 \<longrightarrow> i |\<in>| fmdom (session_metadata s sid))
      \<and> (\<forall>i. case session_result s sid i of
                None \<Rightarrow> \<not> (0 \<le> i \<and> i < int n - 1)
              | Some r \<Rightarrow> chunkIndex r = i \<and> 0 \<le> i \<and> i < int n))"

definition final_upload :: "digest \<Rightarrow> string \<Rightarrow> nat \<Rightarrow> request \<Rightarrow> bool" where
  "final_upload md5 sid n r =
     (is_upload md5 sid r \<and> the_index r = int n - 1 \<and> the_total r = int n)"

text \<open>Where a final upload stands at each of its stops.\<close>

fun on_track :: "digest \<Rightarrow> string \<Rightarrow> nat \<Rightarrow> flight \<Rightarrow> bool" where
  "on_track md5 sid n (Arrived r) = final_upload md5 sid n r"
| "on_track md5 sid n (Awaiting p) =
     (pending_sessionId p = sid \<and> pending_chunkIndex p = int n - 1
      \<and> pending_totalChunks p = int n \<and> fcard (fmdom (pending_metadata p)) = n
      \<and> chunkIndex (pending_chunkResult p) = int n - 1)"
| "on_track md5 sid n (Answered out) =
     (completed (reply out)
      \<and> map_option breakdown_indices (reply_result (reply out)) = Some (map int [0..<n]))"

definition part_upload :: "string \<Rightarrow> int \<Rightarrow> int \<Rightarrow> bytes \<Rightarrow> part_request" where
  "part_upload uid idx n b =
     \<lparr>part_method = ''POST'', part_chunkIndex = Some idx, part_totalChunks = Some n,
      part_uploadId = Some uid, part_fileName = Some ''clip.mp4'', part_fileSize = Some 6,
      part_chunk = Some b, part_now = 1000\<rparr>"

section \<open>Properties\<close>

subsection \<open>Rendered integers and joined paths\<close>

lemma digit_char_cases:
  assumes "d < 10"
  shows "digit_char d \<in> set ''0123456789''"
  unfolding digit_char_def using assms by (intro nth_mem) simp

lemma digit_char_inj:
  assumes "a < 10" "b < 10" "digit_char a = digit_char b"
  shows "a = b"
proof -
  have "distinct ''0123456789''" by simp
  from nth_eq_iff_index_eq [OF this, of a b] assms show ?thesis
    by (simp add: digit_char_def)
qed

lemma show_nat_digits: "set (show_nat n) \<subseteq> set ''0123456789''"
proof (induction n rule: show_nat.induct)
  case (1 n)
  show ?case
  proof (cases "n < 10")
    case True
    then show ?thesis using digit_char_cases [of n] by (subst show_nat.simps) simp
  next
    case False
    have "n mod 10 < 10" by simp
    from digit_char_cases [OF this] 1 [OF False] False show ?thesis
      by (subst show_nat.simps) simp
  qed
qed

lemma show_nat_no: "c \<notin> set ''0123456789'' \<Longrightarrow> c \<notin> set (show_nat n)"
  using show_nat_digits [of n] by blast

lemma show_nat_nonempty: "show_nat n \<noteq> []"
  by (subst show_nat.simps) simp

lemma show_nat_inj: "show_nat n = show_nat m \<Longrightarrow> n = m"
proof (induction n arbitrary: m rule: show_nat.induct)
  case (1 n)
  show ?case
  proof (cases "n < 10")
    case n: True
    show ?thesis
    proof (cases "m < 10")
      case True
      with n 1(2) show ?thesis
        by (simp add: show_nat.simps [of n] show_nat.simps [of m] digit_char_inj)
    next
      case False
      with n 1(2) show_nat_nonempty [of "m div 10"] show ?thesis
        by (simp add: show_nat.simps [of n] show_nat.simps [of m])
    qed
  next
    case n: False
    show ?thesis
    proof (cases "m < 10")
      case True
      with n 1(2) show_nat_nonempty [of "n div 10"] show ?thesis
        by (simp add: show_nat.simps [of n] show_nat.simps [of m])
    next
      case False
      with n 1(2) have eq: "show_nat (n div 10) = show_nat (m div 10)"
        and d: "digit_char (n mod 10) = digit_char (m mod 10)"
        by (simp_all add: show_nat.simps [of n] show_nat.simps [of m])
      from 1(1) [OF n eq] have "n div 10 = m div 10" .
      moreover from d have "n mod 10 = m mod 10"
        by (intro digit_char_inj) simp_all
      ultimately show ?thesis
        by (metis div_mult_mod_eq)
    qed
  qed
qed

lemma show_int_inj: "show_int i = show_int j \<Longrightarrow> i = j"
proof -
  assume eq: "show_int i = show_int j"
  have nodash: "\<And>n. hd (show_nat n) \<noteq> CHR ''-''"
  proof -
    fix n
    have "hd (show_nat n) \<in> set (show_nat n)" using show_nat_nonempty by simp
    with show_nat_no [of "CHR ''-''" n] show "hd (show_nat n) \<noteq> CHR ''-''" by auto
  qed
  show ?thesis
  proof (cases "i < 0")
    case i: True
    show ?thesis
    proof (cases "j < 0")
      case True
      with i eq have "nat (- i) = nat (- j)" by (simp add: show_int_def show_nat_inj)
      with i True show ?thesis by simp
    next
      case False
      with i eq have "CHR ''-'' # show_nat (nat (- i)) = show_nat (nat j)" by (simp add: show_int_def)
      then have "hd (show_nat (nat j)) = CHR ''-''" by (metis list.sel(1))
      with nodash show ?thesis by blast
    qed
  next
    case i: False
    show ?thesis
    proof (cases "j < 0")
      case True
      with i eq have "show_nat (nat i) = CHR ''-'' # show_nat (nat (- j))" by (simp add: show_int_def)
      then have "hd (show_nat (nat i)) = CHR ''-''" by (metis list.sel(1))
      with nodash show ?thesis by blast
    next
      case False
      with i eq have "nat i = nat j" by (simp add: show_int_def show_nat_inj)
      with i False show ?thesis by simp
    qed
  qed
qed

lemma show_int_no_slash: "CHR ''/'' \<notin> set (show_int i)"
  by (simp add: show_int_def show_nat_no)

lemma split_slash_no_slash: "CHR ''/'' \<notin> set s \<Longrightarrow> split_slash s = [s]"
  by (induction s) auto

lemma path_join_plain:
  assumes "CHR ''/'' \<notin> set name" "CHR ''-'' \<in> set name"
  shows "path_join dir name = dir @ [name]"
proof -
  from assms(2) have "name \<noteq> []" "name \<noteq> ''.''" "name \<noteq> ''..''" by auto
  with assms(1) show ?thesis by (simp add: path_join_def split_slash_no_slash)
qed

lemma show_nat_length:
  assumes "n < 10 ^ k" "0 < k"
  shows "length (show_nat n) \<le> k"
  using assms
proof (induction n arbitrary: k rule: show_nat.induct)
  case (1 n)
  show ?case
  proof (cases "n < 10")
    case True
    with 1(3) show ?thesis by (subst show_nat.simps) simp
  next
    case False
    from 1(3) obtain j where k: "k = Suc j" by (cases k) auto
    from False 1(2) k have "0 < j" by (cases j) auto
    moreover from 1(2) k have "n div 10 < 10 ^ j" by (simp add: less_mult_imp_div_less mult.commute)
    ultimately have "length (show_nat (n div 10)) \<le> j" using 1(1) [OF False] by blast
    with False k show ?thesis by (subst show_nat.simps) simp
  qed
qed

lemma show_int_length:
  assumes "safe_integer i"
  shows "length (show_int i) \<le> 17"
proof -
  from assms have "nat \<bar>i\<bar> < 10 ^ 16" by (simp add: safe_integer_def)
  from show_nat_length [OF this] have "length (show_nat (nat \<bar>i\<bar>)) \<le> 16" by simp
  then show ?thesis by (auto simp: show_int_def abs_if split: if_splits)
qed

lemma show_int_no_nul: "CHR 0x00 \<notin> set (show_int i)"
  by (simp add: show_int_def show_nat_no)

subsection \<open>Rounding to a double\<close>

lemma bit_length_0: "bit_length 0 = 0"
  by (simp add: bit_length.simps)

lemma bit_length_1: "bit_length 1 = 1" "bit_length (Suc 0) = 1"
  by (simp_all add: bit_length.simps [of 1] bit_length.simps [of "Suc 0"] bit_length_0)

lemma bit_length_numeral: "bit_length (numeral k) = Suc (bit_length (numeral k div 2))"
  by (subst bit_length.simps) simp

lemma floor_numeral_div: "\<lfloor>(numeral a :: rat) / numeral b\<rfloor> = numeral a div numeral b"
  using floor_divide_of_int_eq [of "numeral a" "numeral b", where ?'a = rat] by simp

lemma floor_one_div: "\<lfloor>(1 :: rat) / numeral b\<rfloor> = 1 div numeral b"
  using floor_divide_of_int_eq [of 1 "numeral b", where ?'a = rat] by simp

lemmas dbl_eval = dbl_def Let_def exponent_def pow2_def round_even_def bit_length_0 bit_length_1
  bit_length_numeral floor_numeral_div floor_one_div

text \<open>The doubles of some decimal fractions, and those that are exact.\<close>

lemma dbl_tenths:
  "dbl (1 / 10) = Num (3602879701896397 / 36028797018963968)"
  "dbl (9 / 10) = Num (8106479329266893 / 9007199254740992)"
  "dbl (1 / 5) = Num (3602879701896397 / 18014398509481984)"
  "dbl (4 / 5) = Num (3602879701896397 / 4503599627370496)"
  "dbl (13 / 20) = Num (5854679515581645 / 9007199254740992)"
  by (simp_all add: dbl_eval)

lemma dbl_exact:
  "dbl 0 = Num 0" "dbl 1 = Num 1" "dbl (1 / 4) = Num (1 / 4)" "dbl (1 / 2) = Num (1 / 2)"
  "dbl (3 / 4) = Num (3 / 4)" "dbl (5 / 4) = Num (5 / 4)"
  by (simp_all add: dbl_eval)

lemma js_int_add_safe:
  assumes "safe_integer a"
  shows "js_int_add a 1 = a + 1" "js_int_add a (- 1) = a - 1"
proof -
  from assms have p: "\<bar>a + 1\<bar> \<le> 2 ^ 53" and m: "\<bar>a + - 1\<bar> \<le> 2 ^ 53"
    by (simp_all add: safe_integer_def)
  show "js_int_add a 1 = a + 1"
    unfolding js_int_add_def Let_def by (simp only: p if_True)
  have "js_int_add a (- 1) = a + - 1"
    unfolding js_int_add_def Let_def by (simp only: m if_True)
  then show "js_int_add a (- 1) = a - 1" by simp
qed

subsection \<open>The weighted confidence\<close>

lemma foldl_add_weight:
  "foldl (add_weight T) (a, b) rs =
     (foldl js_add a (map (\<lambda>c. js_mul (confidence c) (weight T c)) rs),
      foldl js_add b (map (weight T) rs))"
  by (induction rs arbitrary: a b) (simp_all add: add_weight_def weight_def Let_def)

lemma totals_weighted:
  "js_div (fst (foldl (add_weight T) (Num 0, Num 0) rs)) (snd (foldl (add_weight T) (Num 0, Num 0) rs)) =
     weighted_confidence T rs"
  by (simp add: foldl_add_weight weighted_confidence_def js_sum_def)

lemma aggregate_confidence:
  "raw_confidence (confidence_breakdown (analysis (aggregateChunkResults now rs T f))) =
     weighted_confidence T rs"
  "final_confidence (aggregateChunkResults now rs T f) =
     js_div (js_round (js_mul (weighted_confidence T rs) (Num 10000))) (Num 10000)"
  "final_prediction (aggregateChunkResults now rs T f) =
     (if js_gt (weighted_confidence T rs) (Num (1 / 2)) then ''fake'' else ''real'')"
  unfolding aggregateChunkResults_def Let_def totals_weighted by simp_all

text \<open>
  With a total file size of zero every weight is an infinity or NaN, and so are the two
  sums: the quotient is NaN.
\<close>

lemma js_add_not_finite:
  assumes "\<forall>a. x \<noteq> Num a"
  shows "\<forall>a. js_add y x \<noteq> Num a"
  using assms by (cases y; cases x) auto

lemma js_add_keeps_not_finite:
  assumes "\<forall>a. y \<noteq> Num a"
  shows "\<forall>a. js_add y x \<noteq> Num a"
  using assms by (cases y; cases x) auto

lemma sum_not_finite:
  assumes "\<forall>x\<in>set xs. \<forall>a. x \<noteq> Num a" "(\<forall>a. y \<noteq> Num a) \<or> xs \<noteq> []"
  shows "\<forall>a. foldl js_add y xs \<noteq> Num a"
  using assms
proof (induction xs arbitrary: y)
  case Nil
  then show ?case by simp
next
  case (Cons x xs)
  from Cons.prems(1) have "\<forall>a. x \<noteq> Num a" by simp
  then have "\<forall>a. js_add y x \<noteq> Num a" by (rule js_add_not_finite)
  with Cons.IH [of "js_add y x"] Cons.prems(1) show ?case by simp
qed

lemma js_add_not_negative:
  assumes "x = PInf \<or> x = NaN" "y = PInf \<or> y = NaN \<or> (\<exists>a. y = Num a)"
  shows "js_add y x = PInf \<or> js_add y x = NaN"
  using assms by (cases y; cases x) auto

lemma sum_not_negative:
  assumes "\<forall>x\<in>set xs. x = PInf \<or> x = NaN" "y = PInf \<or> y = NaN \<or> (\<exists>a. y = Num a)"
  shows "foldl js_add y xs = PInf \<or> foldl js_add y xs = NaN \<or> (xs = [] \<and> (\<exists>a. y = Num a))"
  using assms
proof (induction xs arbitrary: y)
  case Nil
  then show ?case by auto
next
  case (Cons x xs)
  from Cons.prems have "js_add y x = PInf \<or> js_add y x = NaN"
    by (intro js_add_not_negative) simp_all
  with Cons.IH [of "js_add y x"] Cons.prems(1) show ?case by auto
qed

lemma weight_zero: "weight 0 c = PInf \<or> weight 0 c = NaN"
  by (simp add: weight_def inf_of_sign_def)

lemma weighted_term_zero: "\<forall>a. js_mul x (weight 0 c) \<noteq> Num a"
  using weight_zero [of c] by (cases x) (auto simp: inf_of_sign_def split: if_splits)

lemma weighted_confidence_zero: "weighted_confidence 0 rs = NaN"
proof (cases "rs = []")
  case True
  then show ?thesis by (simp add: weighted_confidence_def js_sum_def inf_of_sign_def)
next
  case False
  let ?n = "js_sum (map (\<lambda>c. js_mul (confidence c) (weight 0 c)) rs)"
  let ?d = "js_sum (map (weight 0) rs)"
  have "\<forall>a. ?n \<noteq> Num a"
    unfolding js_sum_def using False weighted_term_zero by (intro sum_not_finite) auto
  moreover have "?d = PInf \<or> ?d = NaN"
    using sum_not_negative [of "map (weight 0) rs" "Num 0"] weight_zero False
    by (auto simp: js_sum_def)
  ultimately have "js_div ?n ?d = NaN" by (cases ?n; cases ?d) auto
  then show ?thesis by (simp add: weighted_confidence_def)
qed

text \<open>
  C4. The aggregate confidence (\<^verbatim>\<open>finalConfidence\<close>, reported as \<open>raw_confidence\<close>) is the
  sum over the chunks of confidence times weight, the weight of a chunk being its size
  divided by the total file size, divided by the sum of the weights; the sums and quotients
  are those of JavaScript, which computes in doubles, so that they are NaN when the total
  file size is zero. The aggregate prediction is fake when this number exceeds 0.5, and the
  reported confidence is this number rounded to four decimals. For two chunks of 1 MiB and
  3 MiB with confidences 0.2 and 0.8 in a file of 4 MiB, the sum is the double
  0.6500000000000001 (the product 0.8 * 0.75 is rounded up), the reported confidence is
  0.65, and the prediction is fake.
\<close>

theorem aggregate_confidence_weighted:
  "raw_confidence (confidence_breakdown (analysis (aggregateChunkResults now rs T f))) =
     weighted_confidence T rs
   \<and> final_confidence (aggregateChunkResults now rs T f) =
       js_div (js_round (js_mul (weighted_confidence T rs) (Num 10000))) (Num 10000)
   \<and> final_prediction (aggregateChunkResults now rs T f) =
       (if js_gt (weighted_confidence T rs) (Num (1 / 2)) then ''fake'' else ''real'')
   \<and> weighted_confidence 0 rs = NaN
   \<and> (chunkSize r1 = MiB \<and> confidence r1 = dbl (2 / 10)
        \<and> chunkSize r2 = 3 * MiB \<and> confidence r2 = dbl (8 / 10) \<longrightarrow>
      weighted_confidence (int (4 * MiB)) [r1, r2] = Num (2927339757790823 / 4503599627370496)
      \<and> final_confidence (aggregateChunkResults now [r1, r2] (int (4 * MiB)) f) = dbl (65 / 100)
      \<and> final_prediction (aggregateChunkResults now [r1, r2] (int (4 * MiB)) f) = ''fake'')"
proof (intro conjI impI)
  show raw: "raw_confidence (confidence_breakdown (analysis (aggregateChunkResults now rs T f))) =
     weighted_confidence T rs" for now rs T f
    by (rule aggregate_confidence)
  show fin: "final_confidence (aggregateChunkResults now rs T f) =
       js_div (js_round (js_mul (weighted_confidence T rs) (Num 10000))) (Num 10000)" for now rs T f
    by (rule aggregate_confidence)
  show pre: "final_prediction (aggregateChunkResults now rs T f) =
       (if js_gt (weighted_confidence T rs) (Num (1 / 2)) then ''fake'' else ''real'')" for now rs T f
    by (rule aggregate_confidence)
  show "weighted_confidence 0 rs = NaN" by (rule weighted_confidence_zero)
  assume h: "chunkSize r1 = MiB \<and> confidence r1 = dbl (2 / 10)
        \<and> chunkSize r2 = 3 * MiB \<and> confidence r2 = dbl (8 / 10)"
  then have c: "chunkSize r1 = MiB" "confidence r1 = dbl (2 / 10)" "chunkSize r2 = 3 * MiB"
    "confidence r2 = dbl (8 / 10)" by blast+
  show w: "weighted_confidence (int (4 * MiB)) [r1, r2] = Num (2927339757790823 / 4503599627370496)"
    by (simp add: weighted_confidence_def js_sum_def weight_def c MiB_def dbl_eval)
  show "final_confidence (aggregateChunkResults now [r1, r2] (int (4 * MiB)) f) = dbl (65 / 100)"
    unfolding fin w by (simp add: round_rat_def dbl_eval)
  show "final_prediction (aggregateChunkResults now [r1, r2] (int (4 * MiB)) f) = ''fake''"
    unfolding pre w by simp
qed

text \<open>
  The example of the claim, a file size of zero, and two chunks of 1 and 3 bytes with
  confidences 0.353 and 0.549 in a file declared with 6 bytes: there the sum of products
  divided by the sum of weights is the double 0.5000000000000001, and the prediction is
  fake.
\<close>

theorem aggregate_confidence_weighted_witness:
  "final_confidence (aggregateChunkResults 0
       [sample_result 0 MiB (dbl (2 / 10)), sample_result 1 (3 * MiB) (dbl (8 / 10))] (int (4 * MiB)) ''a.mp4'') =
     dbl (65 / 100)
   \<and> final_prediction (aggregateChunkResults 0
       [sample_result 0 MiB (dbl (2 / 10)), sample_result 1 (3 * MiB) (dbl (8 / 10))] (int (4 * MiB)) ''a.mp4'') =
     ''fake''
   \<and> raw_confidence (confidence_breakdown (analysis (aggregateChunkResults 0
       [sample_result 0 MiB (dbl (2 / 10)), sample_result 1 (3 * MiB) (dbl (8 / 10))] (int (4 * MiB)) ''a.mp4''))) =
     Num (2927339757790823 / 4503599627370496)
   \<and> raw_confidence (confidence_breakdown (analysis (aggregateChunkResults 0
       [sample_result 0 MiB (dbl (2 / 10)), sample_result 1 (3 * MiB) (dbl (8 / 10))] 0 ''a.mp4''))) = NaN
   \<and> raw_confidence (confidence_breakdown (analysis (aggregateChunkResults 0
       [sample_result 0 1 (dbl (353 / 1000)), sample_result 1 3 (dbl (549 / 1000))] 6 ''a.mp4''))) =
     Num (4503599627370497 / 9007199254740992)
   \<and> final_prediction (aggregateChunkResults 0
       [sample_result 0 1 (dbl (353 / 1000)), sample_result 1 3 (dbl (549 / 1000))] 6 ''a.mp4'') = ''fake''"
proof -
  let ?r1 = "sample_result 0 MiB (dbl (2 / 10))"
  let ?r2 = "sample_result 1 (3 * MiB) (dbl (8 / 10))"
  let ?q1 = "sample_result 0 1 (dbl (353 / 1000))"
  let ?q2 = "sample_result 1 3 (dbl (549 / 1000))"
  have h: "chunkSize ?r1 = MiB \<and> confidence ?r1 = dbl (2 / 10)
        \<and> chunkSize ?r2 = 3 * MiB \<and> confidence ?r2 = dbl (8 / 10)"
    by (simp add: sample_result_def)
  note t = aggregate_confidence_weighted [where ?r1.0 = ?r1 and ?r2.0 = ?r2 and now = 0
      and f = "''a.mp4''" and rs = "[?r1, ?r2]" and T = "int (4 * MiB)"]
  note z = aggregate_confidence_weighted [where ?r1.0 = ?r1 and ?r2.0 = ?r2 and now = 0
      and f = "''a.mp4''" and rs = "[?r1, ?r2]" and T = 0]
  note q = aggregate_confidence_weighted [where ?r1.0 = ?r1 and ?r2.0 = ?r2 and now = 0
      and f = "''a.mp4''" and rs = "[?q1, ?q2]" and T = 6]
  note e = mp [OF conjunct2 [OF conjunct2 [OF conjunct2 [OF conjunct2 [OF t]]]] h]
  have 1: "final_confidence (aggregateChunkResults 0 [?r1, ?r2] (int (4 * MiB)) ''a.mp4'') = dbl (65 / 100)"
    by (rule conjunct1 [OF conjunct2 [OF e]])
  have 2: "final_prediction (aggregateChunkResults 0 [?r1, ?r2] (int (4 * MiB)) ''a.mp4'') = ''fake''"
    by (rule conjunct2 [OF conjunct2 [OF e]])
  have 3: "raw_confidence (confidence_breakdown (analysis (aggregateChunkResults 0 [?r1, ?r2] (int (4 * MiB)) ''a.mp4''))) =
      Num (2927339757790823 / 4503599627370496)"
    unfolding conjunct1 [OF t] by (rule conjunct1 [OF e])
  have 4: "raw_confidence (confidence_breakdown (analysis (aggregateChunkResults 0 [?r1, ?r2] 0 ''a.mp4''))) = NaN"
    unfolding conjunct1 [OF z] by (rule conjunct1 [OF conjunct2 [OF conjunct2 [OF conjunct2 [OF z]]]])
  have w: "weighted_confidence 6 [?q1, ?q2] = Num (4503599627370497 / 9007199254740992)"
    by (simp add: weighted_confidence_def js_sum_def weight_def sample_result_def dbl_eval)
  have 5: "raw_confidence (confidence_breakdown (analysis (aggregateChunkResults 0 [?q1, ?q2] 6 ''a.mp4''))) =
      Num (4503599627370497 / 9007199254740992)"
    unfolding conjunct1 [OF q] by (rule w)
  have 6: "final_prediction (aggregateChunkResults 0 [?q1, ?q2] 6 ''a.mp4'') = ''fake''"
    unfolding conjunct1 [OF conjunct2 [OF conjunct2 [OF q]]] w by simp
  show ?thesis by (intro conjI 1 2 3 4 5 6)
qed

subsection \<open>The files of a session\<close>

lemma split_slash_nonempty: "split_slash s \<noteq> []"
  by (induction s) (auto split: list.splits)

lemma split_slash_append:
  assumes "CHR ''/'' \<notin> set x"
  shows "split_slash (s @ x) = butlast (split_slash s) @ [last (split_slash s) @ x]"
proof (induction s)
  case Nil
  from assms show ?case by (simp add: split_slash_no_slash)
next
  case (Cons c s)
  from split_slash_nonempty [of s] obtain a as where s: "split_slash s = a # as"
    by (cases "split_slash s") auto
  show ?case
  proof (cases "as = []")
    case True
    with Cons s show ?thesis by simp
  next
    case False
    with Cons s show ?thesis by (cases "butlast as @ [last as @ x]") auto
  qed
qed

lemma resolve_append: "resolve d (xs @ ys) = resolve (resolve d xs) ys"
  by (induction xs arbitrary: d) simp_all

lemma path_join_stem:
  assumes "CHR ''/'' \<notin> set x" "CHR ''-'' \<in> set x"
  shows "path_join d (sid @ x) = resolve d (butlast (split_slash sid)) @ [session_stem sid @ x]"
proof -
  from assms(2) have "session_stem sid @ x \<noteq> []" "session_stem sid @ x \<noteq> ''.''"
    "session_stem sid @ x \<noteq> ''..''"
    by (auto simp: append_eq_Cons_conv)
  then show ?thesis
    by (simp add: path_join_def split_slash_append [OF assms(1)] resolve_append session_stem_def)
qed

lemma session_paths:
  assumes "local_id sid"
  shows "metadataPath sid = UPLOAD_DIR @ [session_stem sid @ ''-metadata.json'']"
    and "chunkPath sid i = UPLOAD_DIR @ [session_stem sid @ ''-chunk-'' @ show_int i]"
    and "resultPath sid i = UPLOAD_DIR @ [session_stem sid @ ''-result-'' @ show_int i @ ''.json'']"
  using assms
  by (simp_all add: local_id_def metadataPath_def chunkPath_def resultPath_def
      path_join_stem show_int_no_slash)

lemma session_paths_distinct:
  assumes "local_id sid"
  shows "chunkPath sid i \<noteq> metadataPath sid"
    and "metadataPath sid \<noteq> chunkPath sid i"
    and "chunkPath sid i \<noteq> resultPath sid j"
    and "resultPath sid j \<noteq> chunkPath sid i"
    and "resultPath sid i \<noteq> metadataPath sid"
    and "metadataPath sid \<noteq> resultPath sid i"
  by (simp_all add: session_paths [OF assms])

lemma resultPath_inj:
  assumes "local_id sid"
  shows "resultPath sid i = resultPath sid j \<longleftrightarrow> i = j"
  using show_int_inj [of i j] by (auto simp: session_paths [OF assms])

lemma chunkPath_inj:
  assumes "local_id sid"
  shows "chunkPath sid i = chunkPath sid j \<longleftrightarrow> i = j"
  using show_int_inj [of i j] by (auto simp: session_paths [OF assms])

lemma session_paths_not_dirs:
  assumes "upload_dir_ready s" "local_id sid"
  shows "metadataPath sid \<notin> dirs s" "chunkPath sid i \<notin> dirs s" "resultPath sid i \<notin> dirs s"
    and "butlast (metadataPath sid) \<in> dirs s" "butlast (chunkPath sid i) \<in> dirs s"
    and "butlast (resultPath sid i) \<in> dirs s"
  using assms(1) by (simp_all add: session_paths [OF assms(2)] upload_dir_ready_def butlast_append)

lemma session_paths_valid:
  assumes "local_id sid" "safe_integer i"
  shows "path_error (metadataPath sid) = None" "path_error (chunkPath sid i) = None"
    "path_error (resultPath sid i) = None"
proof -
  from assms(1) have st: "CHR 0x00 \<notin> set (session_stem sid)" "length (session_stem sid) \<le> 225"
    by (simp_all add: local_id_def)
  note l = show_int_length [OF assms(2)] and z = show_int_no_nul [of i]
  from st show "path_error (metadataPath sid) = None"
    by (simp add: session_paths [OF assms(1)] path_error_def path_length_def UPLOAD_DIR_def
        NAME_MAX_def PATH_MAX_def)
  from st l z show "path_error (chunkPath sid i) = None"
    by (simp add: session_paths [OF assms(1)] path_error_def path_length_def UPLOAD_DIR_def
        NAME_MAX_def PATH_MAX_def)
  from st l z show "path_error (resultPath sid i) = None"
    by (simp add: session_paths [OF assms(1)] path_error_def path_length_def UPLOAD_DIR_def
        NAME_MAX_def PATH_MAX_def)
qed

lemma readMetadata_ok:
  assumes "upload_dir_ready s" "local_id sid" "metadata_ok s sid"
  shows "readMetadata s (metadataPath sid) = Inr (session_metadata s sid)"
  using assms(3) session_paths_not_dirs(1) [OF assms(1,2)]
  by (auto simp: readMetadata_def existsSync_def readFileSync_def metadata_ok_def
      session_metadata_def split: option.splits stored.splits)
subsection \<open>One upload\<close>

lemma is_upload_chunk:
  assumes "is_upload md5 sid req"
  shows "file_chunk req = Some (the_chunk req)" "form_parse req = Inr ()"
    "http_method req = ''POST''" "request_sessionId md5 req = sid"
    "safe_integer (the_index req)" "safe_integer (the_total req)"
    "the_chunk req \<noteq> []" "length (the_chunk req) \<le> MAX_FILE_SIZE"
  using assms
  by (auto simp: is_upload_def the_chunk_def or_default_def form_parse_def parse_file_def
      split: option.splits if_splits)

lemma receiveChunk_ok:
  assumes "upload_dir_ready s" "local_id sid" "is_upload md5 sid req" "metadata_ok s sid"
  shows "receiveChunk md5 req s = Inr (received_store md5 sid req s, received_pending md5 sid req s)"
proof -
  let ?i = "the_index req"
  let ?s1 = "s\<lparr>files := (files s)(chunkPath sid ?i \<mapsto> ChunkFile (the_chunk req))\<rparr>"
  note u = is_upload_chunk [OF assms(3)]
  note sid = u(4)
  note parse = u(2)
  note v = session_paths_valid [OF assms(2) u(5)]
  have w1: "writeFileSync s (chunkPath sid ?i) (ChunkFile (the_chunk req)) = Inr ?s1"
    using session_paths_not_dirs [OF assms(1,2)] by (simp add: writeFileSync_def v)
  have ready1: "upload_dir_ready ?s1"
    using assms(1) by (simp add: upload_dir_ready_def)
  have ok1: "metadata_ok ?s1 sid"
    using assms(4) session_paths_distinct [OF assms(2)] by (simp add: metadata_ok_def)
  have m1: "session_metadata ?s1 sid = session_metadata s sid"
    using session_paths_distinct [OF assms(2)] by (simp add: session_metadata_def)
  have store: "storeChunkMetadata md5 (now_metadata req) ?s1 sid ?i (the_chunk req) =
      Inr (received_store md5 sid req s, fmupd ?i (new_meta md5 req) (session_metadata s sid))"
    using session_paths_not_dirs [OF ready1 assms(2)]
    by (simp add: storeChunkMetadata_def readMetadata_ok [OF ready1 assms(2) ok1] m1 Let_def
        writeFileSync_def v received_store_def new_meta_def)
  show ?thesis
    by (simp add: receiveChunk_def u(1,3) parse sid Let_def w1 store received_pending_def
        the_index_def [symmetric] the_total_def [symmetric])
qed

lemma loadResults_ok:
  assumes "upload_dir_ready s" "local_id sid" "results_ok s sid"
  shows "loadResults s sid is = Inr (stored_results s sid is)"
proof (induction "is")
  case Nil
  show ?case by (simp add: stored_results_def)
next
  case (Cons i "is")
  from assms(3) have "case files s (resultPath sid i) of
      None \<Rightarrow> True | Some (ResultFile _) \<Rightarrow> True | Some _ \<Rightarrow> False"
    unfolding results_ok_def by blast
  with Cons session_paths_not_dirs(3) [OF assms(1,2), of i] show ?case
    by (auto simp: existsSync_def readFileSync_def stored_results_def
        split: option.splits stored.splits)
qed

lemma finished_store_received:
  "finished_store md5 sid req s =
     (received_store md5 sid req s)\<lparr>files := (files (received_store md5 sid req s))
        (resultPath sid (the_index req) \<mapsto> ResultFile (new_result md5 sid req))\<rparr>"
  by (simp add: finished_store_def received_store_def)

lemma finished_store_facts:
  assumes "upload_dir_ready s" "local_id sid" "metadata_ok s sid" "results_ok s sid"
  shows "upload_dir_ready (finished_store md5 sid req s)"
    and "metadata_ok (finished_store md5 sid req s) sid"
    and "results_ok (finished_store md5 sid req s) sid"
    and "session_metadata (finished_store md5 sid req s) sid =
           fmupd (the_index req) (new_meta md5 req) (session_metadata s sid)"
proof -
  note d = session_paths_distinct [OF assms(2)]
  show "upload_dir_ready (finished_store md5 sid req s)"
    using assms(1) by (simp add: finished_store_def upload_dir_ready_def)
  show "metadata_ok (finished_store md5 sid req s) sid"
    using d by (simp add: finished_store_def metadata_ok_def)
  show "session_metadata (finished_store md5 sid req s) sid =
           fmupd (the_index req) (new_meta md5 req) (session_metadata s sid)"
    using d by (simp add: finished_store_def session_metadata_def)
  show "results_ok (finished_store md5 sid req s) sid"
    unfolding results_ok_def
  proof
    fix i
    from assms(4) have "case files s (resultPath sid i) of
        None \<Rightarrow> True | Some (ResultFile _) \<Rightarrow> True | Some _ \<Rightarrow> False"
      unfolding results_ok_def by blast
    then show "case files (finished_store md5 sid req s) (resultPath sid i) of
        None \<Rightarrow> True | Some (ResultFile _) \<Rightarrow> True | Some _ \<Rightarrow> False"
      using d by (simp add: finished_store_def resultPath_inj [OF assms(2)])
  qed
qed

lemma finishChunk_ok:
  assumes "upload_dir_ready s" "local_id (pending_sessionId p)" "results_ok s (pending_sessionId p)"
    and "safe_integer (pending_chunkIndex p)" "safe_integer (pending_totalChunks p)"
  shows "finishChunk p s =
     (let sid = pending_sessionId p; idx = pending_chunkIndex p; total = pending_totalChunks p;
          r = pending_chunkResult p;
          s1 = s\<lparr>files := (files s)(resultPath sid idx \<mapsto> ResultFile r)\<rparr>
      in if idx = total - 1 \<and> int (fcard (fmdom (pending_metadata p))) = total then
           \<lparr>store = s1,
            reply = Completed sid idx total
              (aggregateChunkResults (pending_now p)
                 (sort_key chunkIndex (stored_results s1 sid (map int [0..<nat total])))
                 (pending_fileSize p) (pending_filename p)),
            timer = Some (sid, total)\<rparr>
         else respond s1 (Progress sid idx total (fcard (fmdom (pending_metadata p)))
                (prediction r) (confidence r) (processingTime r)))"
proof -
  let ?sid = "pending_sessionId p"
  let ?s1 = "s\<lparr>files := (files s)(resultPath ?sid (pending_chunkIndex p) \<mapsto> ResultFile (pending_chunkResult p))\<rparr>"
  have w: "writeFileSync s (resultPath ?sid (pending_chunkIndex p)) (ResultFile (pending_chunkResult p)) = Inr ?s1"
    using session_paths_not_dirs [OF assms(1,2)]
    by (simp add: writeFileSync_def session_paths_valid [OF assms(2,4)])
  have ready1: "upload_dir_ready ?s1"
    using assms(1) by (simp add: upload_dir_ready_def)
  have ok1: "results_ok ?s1 ?sid"
    unfolding results_ok_def
  proof
    fix i
    from assms(3) have "case files s (resultPath ?sid i) of
        None \<Rightarrow> True | Some (ResultFile _) \<Rightarrow> True | Some _ \<Rightarrow> False"
      unfolding results_ok_def by blast
    then show "case files ?s1 (resultPath ?sid i) of
        None \<Rightarrow> True | Some (ResultFile _) \<Rightarrow> True | Some _ \<Rightarrow> False"
      by (simp add: resultPath_inj [OF assms(2)])
  qed
  show ?thesis
    unfolding finishChunk_def Let_def w sum.case loadResults_ok [OF ready1 assms(2) ok1]
      js_int_add_safe(2) [OF assms(5)]
    by simp
qed

lemma received_store_facts:
  assumes "upload_dir_ready s" "local_id sid" "results_ok s sid"
  shows "upload_dir_ready (received_store md5 sid req s)"
    and "results_ok (received_store md5 sid req s) sid"
proof -
  note d = session_paths_distinct [OF assms(2)]
  show "upload_dir_ready (received_store md5 sid req s)"
    using assms(1) by (simp add: received_store_def upload_dir_ready_def)
  show "results_ok (received_store md5 sid req s) sid"
    unfolding results_ok_def
  proof
    fix i
    from assms(3) have "case files s (resultPath sid i) of
        None \<Rightarrow> True | Some (ResultFile _) \<Rightarrow> True | Some _ \<Rightarrow> False"
      unfolding results_ok_def by blast
    then show "case files (received_store md5 sid req s) (resultPath sid i) of
        None \<Rightarrow> True | Some (ResultFile _) \<Rightarrow> True | Some _ \<Rightarrow> False"
      using d by (simp add: received_store_def)
  qed
qed

lemma handler_ok:
  assumes "upload_dir_ready s" "local_id sid" "is_upload md5 sid req" "metadata_ok s sid"
    "results_ok s sid"
  shows "handler md5 req s =
     (if completes sid req s then
        \<lparr>store = finished_store md5 sid req s, reply = completed_reply md5 sid req s,
         timer = Some (sid, the_total req)\<rparr>
      else respond (finished_store md5 sid req s) (progress_reply md5 sid req s))"
proof -
  note r = received_store_facts [OF assms(1,2,5), of md5 req]
  have p: "pending_sessionId (received_pending md5 sid req s) = sid"
    by (simp add: received_pending_def)
  note u = is_upload_chunk [OF assms(3)]
  have "handler md5 req s = finishChunk (received_pending md5 sid req s) (received_store md5 sid req s)"
    by (simp add: handler_def receiveChunk_ok [OF assms(1-4)])
  also have "\<dots> = (if completes sid req s then
        \<lparr>store = finished_store md5 sid req s, reply = completed_reply md5 sid req s,
         timer = Some (sid, the_total req)\<rparr>
      else respond (finished_store md5 sid req s) (progress_reply md5 sid req s))"
  proof (subst finishChunk_ok)
    show "upload_dir_ready (received_store md5 sid req s)" by (rule r(1))
    show "local_id (pending_sessionId (received_pending md5 sid req s))"
      using assms(2) by (simp only: p)
    show "results_ok (received_store md5 sid req s) (pending_sessionId (received_pending md5 sid req s))"
      using r(2) by (simp only: p)
    show "safe_integer (pending_chunkIndex (received_pending md5 sid req s))"
      using u(5) by (simp add: received_pending_def)
    show "safe_integer (pending_totalChunks (received_pending md5 sid req s))"
      using u(6) by (simp add: received_pending_def)
    show "(let sid' = pending_sessionId (received_pending md5 sid req s);
          idx = pending_chunkIndex (received_pending md5 sid req s);
          total = pending_totalChunks (received_pending md5 sid req s);
          r = pending_chunkResult (received_pending md5 sid req s);
          s1 = (received_store md5 sid req s)\<lparr>files := (files (received_store md5 sid req s))(resultPath sid' idx \<mapsto> ResultFile r)\<rparr>
      in if idx = total - 1 \<and> int (fcard (fmdom (pending_metadata (received_pending md5 sid req s)))) = total then
           \<lparr>store = s1,
            reply = Completed sid' idx total
              (aggregateChunkResults (pending_now (received_pending md5 sid req s))
                 (sort_key chunkIndex (stored_results s1 sid' (map int [0..<nat total])))
                 (pending_fileSize (received_pending md5 sid req s)) (pending_filename (received_pending md5 sid req s))),
            timer = Some (sid', total)\<rparr>
         else respond s1 (Progress sid' idx total (fcard (fmdom (pending_metadata (received_pending md5 sid req s))))
                (prediction r) (confidence r) (processingTime r))) =
       (if completes sid req s then
        \<lparr>store = finished_store md5 sid req s, reply = completed_reply md5 sid req s,
         timer = Some (sid, the_total req)\<rparr>
      else respond (finished_store md5 sid req s) (progress_reply md5 sid req s))"
      unfolding Let_def completes_def received_after_def completed_reply_def
        progress_reply_def finished_store_received new_result_def received_pending_def
        pending.select_convs fmdom_fmupd
      by (rule refl)
  qed
  finally show ?thesis .
qed

lemma handler_store:
  assumes "upload_dir_ready s" "local_id sid" "is_upload md5 sid req" "metadata_ok s sid"
    "results_ok s sid"
  shows "store (handler md5 req s) = finished_store md5 sid req s"
  by (simp add: handler_ok [OF assms] respond_def)

lemma handler_reply:
  assumes "upload_dir_ready s" "local_id sid" "is_upload md5 sid req" "metadata_ok s sid"
    "results_ok s sid"
  shows "reply (handler md5 req s) =
     (if completes sid req s then completed_reply md5 sid req s else progress_reply md5 sid req s)"
  by (simp add: handler_ok [OF assms] respond_def)

lemma receivedCount_finished:
  assumes "upload_dir_ready s" "local_id sid" "metadata_ok s sid" "results_ok s sid"
  shows "receivedCount (finished_store md5 sid req s) sid = received_after sid req s"
  by (simp add: receivedCount_def received_after_def finished_store_facts(4) [OF assms])

subsection \<open>Evaluating the sample data\<close>

lemma hex_digits_numeral:
  "hex_digits (numeral k) n = hex_digits (pred_numeral k) (n div 16) @ [hex_char (n mod 16)]"
proof -
  have "hex_digits (Suc (pred_numeral k)) n = hex_digits (pred_numeral k) (n div 16) @ [hex_char (n mod 16)]"
    by (rule hex_digits.simps)
  then show ?thesis by (simp only: numeral_eq_Suc [symmetric])
qed

lemma empty_store_ready: "upload_dir_ready empty_store"
  by (simp add: upload_dir_ready_def empty_store_def UPLOAD_DIR_def)

lemma empty_store_ok: "metadata_ok empty_store sid" "results_ok empty_store sid"
  by (simp_all add: metadata_ok_def results_ok_def empty_store_def)

lemma small_safe: "\<bar>i\<bar> \<le> 1000 \<Longrightarrow> safe_integer i"
  by (simp add: safe_integer_def)

lemma upload_is_upload:
  assumes "sid \<noteq> []" "length sid \<le> 225" "b \<noteq> []" "length b \<le> MAX_FILE_SIZE"
    and "safe_integer i" "safe_integer n"
  shows "is_upload md5 sid (upload sid i n b)"
proof -
  have six: "safe_integer 6" by (simp add: safe_integer_def)
  from show_int_length [OF assms(5)] show_int_length [OF assms(6)] show_int_length [OF six] assms(2)
  have "fields_size (upload sid i n b) \<le> MAX_FIELDS_SIZE"
    by (simp add: fields_size_def upload_def number_bytes_def text_bytes_def MAX_FIELDS_SIZE_def)
  with assms six show ?thesis
    by (simp add: is_upload_def upload_def request_sessionId_def form_parse_def parse_file_def
        the_index_def the_total_def or_default_def)
qed

lemma small_upload:
  assumes "sid \<noteq> []" "length sid \<le> 225" "b \<noteq> []" "length b \<le> 100" "\<bar>i\<bar> \<le> 1000" "\<bar>n\<bar> \<le> 1000"
  shows "is_upload md5 sid (upload sid i n b)"
  using assms by (intro upload_is_upload small_safe) (simp_all add: MAX_FILE_SIZE_def)

lemma is_upload_fields:
  assumes "is_upload md5 sid req" "field_sessionId req = Some sid" "sid \<noteq> []"
    and "http_method req' = http_method req" "field_sessionId req' = field_sessionId req"
    and "file_chunk req' = file_chunk req" "fields_size req' = fields_size req"
    and "safe_integer (the_index req')" "safe_integer (the_total req')"
    and "safe_integer (or_default (field_fileSize req') 0)"
  shows "is_upload md5 sid req'"
  using assms by (auto simp: is_upload_def request_sessionId_def form_parse_def split: if_splits)

lemma upload_fields:
  "the_index (upload sid i n b) = i" "the_total (upload sid i n b) = n"
  "the_chunk (upload sid i n b) = b"
  by (simp_all add: the_index_def the_total_def the_chunk_def upload_def or_default_def)

lemma session_metadata_empty: "session_metadata empty_store sid = fmempty"
  by (simp add: session_metadata_def empty_store_def)

lemma local_id_s: "local_id ''s''"
  by (simp add: local_id_def session_stem_def)

text \<open>
  The analysis of the three bytes \<^verbatim>\<open>abc\<close> with the stand-in digest: the leading digits of
  the digest are \<^verbatim>\<open>00000126\<close>, the number 294, and the confidence is the double 0.294.
\<close>

lemma sample_result_abc:
  "processChunk sample_md5 rnd now ''abc'' i sid =
     \<lparr>chunkIndex = i, sessionId = sid, prediction = ''real'', confidence = dbl (294 / 1000),
      modelsUsed = [''BG-Model-N'', ''CM-Model-N'', ''TM-Model-N''], chunkSize = 3, estimatedFrames = 0,
      processingTime = js_add (Num (1 / 2)) (js_mul (Num rnd) (Num 1)), hash = ''00000126'',
      timestamp = now\<rparr>"
proof -
  have h: "md5_hex sample_md5 ''abc'' = ''00000126000000000000000000000000''"
    by (simp add: md5_hex_def sample_md5_def hex_digits_numeral hex_char_def)
  have k: "parseInt16 ''00000126'' = 294"
    by (simp add: parseInt16_def hex_val_def)
  show ?thesis
    unfolding processChunk_def Let_def h
    by (simp add: k dbl_eval js_min_def js_max_def round_rat_def)
qed

lemma quarter_time: "js_add (Num (1 / 2)) (js_mul (Num (1 / 4)) (Num 1)) = Num (3 / 4)"
  "js_add (Num (1 / 2)) (js_mul (Num (3 / 4)) (Num 1)) = Num (5 / 4)"
  "js_add (Num (1 / 2)) (js_mul (Num (1 / 2)) (Num 1)) = Num 1"
  by (simp_all add: dbl_exact)

subsection \<open>What the handler checks\<close>

text \<open>
  A request for chunk 5 of a session of 2 chunks is served like any other: the response is
  the progress response and the bytes are in the store.
\<close>

theorem out_of_range_index_stored:
  "reply (handler sample_md5 (upload ''s'' 5 2 ''abc'') empty_store) =
     Progress ''s'' 5 2 1 ''real'' (dbl (294 / 1000)) (Num (3 / 4))
   \<and> files (store (handler sample_md5 (upload ''s'' 5 2 ''abc'') empty_store)) (chunkPath ''s'' 5) =
       Some (ChunkFile ''abc'')"
proof -
  note p = local_id_s
  have u: "is_upload sample_md5 ''s'' (upload ''s'' 5 2 ''abc'')" by (rule small_upload) simp_all
  note h = handler_ok [OF empty_store_ready p u empty_store_ok]
  have nc: "\<not> completes ''s'' (upload ''s'' 5 2 ''abc'') empty_store"
    by (simp add: completes_def upload_fields)
  have r: "new_result sample_md5 ''s'' (upload ''s'' 5 2 ''abc'') =
      processChunk sample_md5 (1 / 4) 1002 ''abc'' 5 ''s''"
    by (simp add: new_result_def upload_fields) (simp add: upload_def)
  show ?thesis
    by (simp add: h nc respond_def progress_reply_def r sample_result_abc dbl_exact received_after_def
        session_metadata_empty upload_fields finished_store_def session_paths_distinct [OF p]
        fcard_finsert_if)
qed

lemma self_ancestor: "p \<in> set (ancestors p)"
proof -
  have "take (length p) p \<in> set (ancestors p)"
    unfolding ancestors_def by (intro imageI [where f = "\<lambda>k. take k p", THEN subsetD [OF equalityD2 [OF set_map]]]) simp
  then show ?thesis by simp
qed

lemma ancestors_shorter: "q \<in> set (ancestors p) \<Longrightarrow> length q \<le> length p"
  by (auto simp: ancestors_def)

lemma path_join_name:
  assumes "CHR ''/'' \<notin> set name" "name \<noteq> []" "hd name \<noteq> CHR ''.''"
  shows "path_join d name = d @ [name]"
proof -
  from assms(2,3) have "name \<noteq> ''.''" "name \<noteq> ''..''" by auto
  with assms(1,2) show ?thesis by (simp add: path_join_def split_slash_no_slash)
qed

lemma chunk_name_plain: "CHR ''/'' \<notin> set (chunk_name i)" "chunk_name i \<noteq> []"
  "hd (chunk_name i) \<noteq> CHR ''.''"
  by (simp_all add: chunk_name_def pad_start_def show_int_no_slash)

lemma chunk_name_not_metadata: "chunk_name i \<noteq> ''metadata.json''"
  by (simp add: chunk_name_def)

lemma store_part_ok:
  assumes "upload_area_ready s uid idx" "safe_integer idx"
  shows "files (fst (store_part s idx n uid fname fsize now b))
      (path_join TEMP_DIR uid @ [chunk_name idx]) = Some (ChunkFile b)"
    and "snd (store_part s idx n uid fname fsize now b) =
      Uploaded idx uid (''Chunk '' @ show_int (idx + 1) @ ''/'' @ show_int n @ '' uploaded successfully'')"
proof -
  let ?d = "path_join TEMP_DIR uid"
  let ?c = "chunk_name idx"
  from assms(1) have nofile: "\<And>q. q \<in> set (ancestors ?d) \<Longrightarrow> files s q = None"
    and nodir: "\<And>name. ?d @ [name] \<notin> dirs s"
    and valid: "path_error ?d = None" "path_error (?d @ [?c]) = None"
      "path_error (?d @ [''metadata.json'']) = None"
    by (simp_all add: upload_area_ready_def list_all_iff)
  have pc: "path_join ?d ?c = ?d @ [?c]"
    by (rule path_join_name [OF chunk_name_plain])
  have pm: "path_join ?d ''metadata.json'' = ?d @ [''metadata.json'']"
    by (rule path_join_name) simp_all
  define s1 where "s1 = (if ?d \<in> dirs s then s else s\<lparr>dirs := dirs s \<union> set (ancestors ?d)\<rparr>)"
  have above: "\<not> list_ex (\<lambda>q. files s q \<noteq> None) (butlast (ancestors ?d))"
    using nofile by (auto simp: list_ex_iff dest: in_set_butlastD)
  have mk: "(if existsSync s ?d then Inr s else mkdirSync s ?d) = Inr s1"
    using nofile [OF self_ancestor] above
    by (simp add: existsSync_def mkdirSync_def valid s1_def)
  have d1: "?d \<in> dirs s1" using self_ancestor [of ?d] by (simp add: s1_def)
  have nd1: "?d @ [name] \<notin> dirs s1" for name
    using nodir [of name] ancestors_shorter [of "?d @ [name]" ?d] by (auto simp: s1_def)
  have f1: "files s1 = files s" by (simp add: s1_def)
  show "files (fst (store_part s idx n uid fname fsize now b)) (?d @ [?c]) = Some (ChunkFile b)"
    using d1 nd1 unfolding store_part_def Let_def mk pc pm
    by (simp add: writeFileSync_def valid chunk_name_not_metadata)
  show "snd (store_part s idx n uid fname fsize now b) =
      Uploaded idx uid (''Chunk '' @ show_int (idx + 1) @ ''/'' @ show_int n @ '' uploaded successfully'')"
    using d1 nd1 unfolding store_part_def Let_def mk pc pm js_int_add_safe(1) [OF assms(2)]
    by (simp add: writeFileSync_def valid)
qed

lemma show_int_small: "show_int 0 = ''0''" "show_int 1 = ''1''" "show_int 2 = ''2''"
  "show_int 6 = ''6''" "show_int 7 = ''7''" "show_int 8 = ''8''"
  by (simp_all add: show_int_def show_nat.simps digit_char_def)

lemma empty_area_ready: "upload_area_ready empty_store ''u1'' 7"
  by (simp add: upload_area_ready_def empty_store_def list_all_iff path_join_def TEMP_DIR_def
      UPLOAD_DIR_def ancestors_def path_error_def path_length_def NAME_MAX_def PATH_MAX_def
      chunk_name_def pad_start_def show_int_small)

lemma fields_size_upload:
  assumes "length sid \<le> 225" "safe_integer i" "safe_integer n"
  shows "fields_size ((upload sid i n b)\<lparr>file_chunk := c\<rparr>) \<le> MAX_FIELDS_SIZE"
proof -
  have six: "safe_integer 6" by (simp add: safe_integer_def)
  from show_int_length [OF assms(2)] show_int_length [OF assms(3)] show_int_length [OF six] assms(1)
  show ?thesis
    by (simp add: fields_size_def upload_def number_bytes_def text_bytes_def MAX_FIELDS_SIZE_def)
qed

lemma form_parse_upload:
  assumes "length sid \<le> 225" "safe_integer i" "safe_integer n"
  shows "form_parse ((upload sid i n b)\<lparr>file_chunk := c\<rparr>) = parse_file MAX_FILE_SIZE c"
  using fields_size_upload [OF assms, where b = b and c = c] by (simp add: form_parse_def)

lemma part_parse_upload:
  assumes "length uid \<le> 225" "safe_integer i" "safe_integer n"
  shows "part_parse ((part_upload uid i n b)\<lparr>part_chunk := c\<rparr>) = parse_file (5 * 1024 * 1024) c"
proof -
  have six: "safe_integer 6" by (simp add: safe_integer_def)
  from show_int_length [OF assms(2)] show_int_length [OF assms(3)] show_int_length [OF six] assms(1)
  have "part_fields_size ((part_upload uid i n b)\<lparr>part_chunk := c\<rparr>) \<le> MAX_FIELDS_SIZE"
    by (simp add: part_fields_size_def part_upload_def number_bytes_def text_bytes_def MAX_FIELDS_SIZE_def)
  then show ?thesis by (simp add: part_parse_def)
qed

text \<open>
  The handler of \<^verbatim>\<open>api/upload-chunked.js\<close> declares \<^verbatim>\<open>CHUNK_SIZE\<close> and never uses it: a
  chunk of more than 5 MiB, up to the 100 MiB of the parser, is stored and answered like a
  smaller one.
\<close>

lemma oversized_chunk_stored:
  assumes "upload_dir_ready s" "local_id sid" "is_upload md5 sid req" "metadata_ok s sid"
    "results_ok s sid" "CHUNK_SIZE < length (the_chunk req)"
  shows "files (store (handler md5 req s)) (chunkPath sid (the_index req)) = Some (ChunkFile (the_chunk req))"
    and "reply (handler md5 req s) =
      (if completes sid req s then completed_reply md5 sid req s else progress_reply md5 sid req s)"
  using session_paths_distinct [OF assms(2)]
  by (simp_all add: handler_store [OF assms(1-5)] handler_reply [OF assms(1-5)] finished_store_def)

text \<open>
  C5, as the two handlers have it. Neither handler compares the chunk index with anything.
  The handler of \<^verbatim>\<open>api/upload-chunked.js\<close> answers 400, the store untouched, when the
  form has no chunk file, and 500, the store untouched, when the form parser refuses the
  form (an empty chunk, a chunk above the limit of the parser); an upload of a chunk of
  5 MiB at most for a session with a local id, whose files are readable in a store with the
  upload directory, is stored (chunk bytes, metadata and result) and answered with status
  200, whatever its chunk index and chunk count are. The handler of
  \<^verbatim>\<open>api/upload-chunk.js\<close> answers 500, the store untouched, when the parser refuses the
  form, which it does for a chunk of more than 5 MiB, and 400, the store untouched, when the
  chunk or the upload id is missing; a request that the parser accepts, with a chunk, an
  upload id and safe integers, whose upload directory can be made and can hold the files,
  is stored and answered with status 200, whatever its chunk index is.
\<close>

theorem upload_not_validated:
  "(http_method req = ''POST'' \<and> form_parse req = Inr () \<and> file_chunk req = None \<longrightarrow>
      handler md5 req s = respond s (ErrorJson 400 ''No chunk uploaded''))
   \<and> (http_method req = ''POST'' \<and> form_parse req = Inl e \<longrightarrow>
      handler md5 req s = respond s (Failure e))
   \<and> (upload_dir_ready s \<and> local_id sid \<and> is_upload md5 sid req \<and> metadata_ok s sid \<and> results_ok s sid
        \<and> length (the_chunk req) \<le> CHUNK_SIZE \<longrightarrow>
      store (handler md5 req s) = finished_store md5 sid req s
      \<and> files (store (handler md5 req s)) (chunkPath sid (the_index req)) = Some (ChunkFile (the_chunk req))
      \<and> reply (handler md5 req s) =
          (if completes sid req s then completed_reply md5 sid req s else progress_reply md5 sid req s))
   \<and> (part_method preq = ''POST'' \<and> part_parse preq = Inl e \<longrightarrow>
      handler_upload_chunk preq s = (s, Failure e))
   \<and> (part_fields_size preq \<le> MAX_FIELDS_SIZE \<and> part_chunk preq = Some b \<and> 5 * 1024 * 1024 < length b \<longrightarrow>
      part_parse preq = Inl FileTooLarge)
   \<and> (part_method preq = ''POST'' \<and> part_parse preq = Inr ()
        \<and> (part_chunk preq = None \<or> part_uploadId preq = None \<or> part_uploadId preq = Some []) \<longrightarrow>
      handler_upload_chunk preq s = (s, ErrorJson 400 ''Missing required fields''))
   \<and> (part_accepted preq uid b \<and> upload_area_ready s uid (or_default (part_chunkIndex preq) 0) \<longrightarrow>
      files (fst (handler_upload_chunk preq s))
        (path_join TEMP_DIR uid @ [chunk_name (or_default (part_chunkIndex preq) 0)]) = Some (ChunkFile b)
      \<and> snd (handler_upload_chunk preq s) =
          Uploaded (or_default (part_chunkIndex preq) 0) uid
            (''Chunk '' @ show_int (or_default (part_chunkIndex preq) 0 + 1) @ ''/''
             @ show_int (or_default (part_totalChunks preq) 0) @ '' uploaded successfully''))"
proof (intro conjI impI)
  assume "http_method req = ''POST'' \<and> form_parse req = Inr () \<and> file_chunk req = None"
  then show "handler md5 req s = respond s (ErrorJson 400 ''No chunk uploaded'')"
    by (simp add: handler_def receiveChunk_def Let_def)
next
  assume "http_method req = ''POST'' \<and> form_parse req = Inl e"
  then show "handler md5 req s = respond s (Failure e)"
    by (simp add: handler_def receiveChunk_def)
next
  assume a: "upload_dir_ready s \<and> local_id sid \<and> is_upload md5 sid req \<and> metadata_ok s sid \<and> results_ok s sid
        \<and> length (the_chunk req) \<le> CHUNK_SIZE"
  then have h: "upload_dir_ready s" "local_id sid" "is_upload md5 sid req" "metadata_ok s sid" "results_ok s sid"
    by blast+
  show "store (handler md5 req s) = finished_store md5 sid req s"
    by (rule handler_store [OF h])
  show "files (store (handler md5 req s)) (chunkPath sid (the_index req)) = Some (ChunkFile (the_chunk req))"
    using session_paths_distinct [OF h(2)]
    by (simp add: handler_store [OF h] finished_store_def)
  show "reply (handler md5 req s) =
          (if completes sid req s then completed_reply md5 sid req s else progress_reply md5 sid req s)"
    by (rule handler_reply [OF h])
next
  assume "part_method preq = ''POST'' \<and> part_parse preq = Inl e"
  then show "handler_upload_chunk preq s = (s, Failure e)"
    by (simp add: handler_upload_chunk_def)
next
  assume "part_fields_size preq \<le> MAX_FIELDS_SIZE \<and> part_chunk preq = Some b \<and> 5 * 1024 * 1024 < length b"
  then show "part_parse preq = Inl FileTooLarge"
    by (auto simp: part_parse_def parse_file_def)
next
  assume "part_method preq = ''POST'' \<and> part_parse preq = Inr ()
        \<and> (part_chunk preq = None \<or> part_uploadId preq = None \<or> part_uploadId preq = Some [])"
  then show "handler_upload_chunk preq s = (s, ErrorJson 400 ''Missing required fields'')"
    by (auto simp: handler_upload_chunk_def Let_def split: option.splits)
next
  assume a: "part_accepted preq uid b \<and> upload_area_ready s uid (or_default (part_chunkIndex preq) 0)"
  then have h: "handler_upload_chunk preq s =
      store_part s (or_default (part_chunkIndex preq) 0) (or_default (part_totalChunks preq) 0) uid
        (part_fileName preq) (or_default (part_fileSize preq) 0) (part_now preq) b"
    by (simp add: handler_upload_chunk_def part_accepted_def Let_def)
  from a have r: "upload_area_ready s uid (or_default (part_chunkIndex preq) 0)"
    "safe_integer (or_default (part_chunkIndex preq) 0)"
    by (simp_all add: part_accepted_def)
  show "files (fst (handler_upload_chunk preq s))
        (path_join TEMP_DIR uid @ [chunk_name (or_default (part_chunkIndex preq) 0)]) = Some (ChunkFile b)"
    unfolding h by (rule store_part_ok(1) [OF r])
  show "snd (handler_upload_chunk preq s) =
          Uploaded (or_default (part_chunkIndex preq) 0) uid
            (''Chunk '' @ show_int (or_default (part_chunkIndex preq) 0 + 1) @ ''/''
             @ show_int (or_default (part_totalChunks preq) 0) @ '' uploaded successfully'')"
    unfolding h by (rule store_part_ok(2) [OF r])
qed

text \<open>
  A form without a chunk file, an empty chunk, a chunk of more than 100 MiB, and chunk 5 of a
  session of 2 chunks, sent to the first handler; a chunk of more than 5 MiB, an empty
  chunk, a form without upload id, and chunk 7 of an upload of 2 chunks, sent to the second.
\<close>

theorem upload_not_validated_witness:
  "handler sample_md5 ((upload ''s'' 0 1 ''abc'')\<lparr>file_chunk := None\<rparr>) empty_store =
     respond empty_store (ErrorJson 400 ''No chunk uploaded'')
   \<and> handler sample_md5 ((upload ''s'' 0 1 ''abc'')\<lparr>file_chunk := Some []\<rparr>) empty_store =
     respond empty_store (Failure FileEmpty)
   \<and> handler sample_md5 ((upload ''s'' 0 1 ''abc'')\<lparr>file_chunk := Some (replicate (Suc MAX_FILE_SIZE) CHR ''a'')\<rparr>)
        empty_store =
     respond empty_store (Failure FileTooLarge)
   \<and> \<not> (0 \<le> (5::int) \<and> (5::int) < 2)
   \<and> is_upload sample_md5 ''s'' (upload ''s'' 5 2 ''abc'')
   \<and> files (store (handler sample_md5 (upload ''s'' 5 2 ''abc'') empty_store)) (chunkPath ''s'' 5) =
       Some (ChunkFile ''abc'')
   \<and> reply (handler sample_md5 (upload ''s'' 5 2 ''abc'') empty_store) =
       progress_reply sample_md5 ''s'' (upload ''s'' 5 2 ''abc'') empty_store
   \<and> handler_upload_chunk
        ((part_upload ''u1'' 0 1 ''abc'')\<lparr>part_chunk := Some (replicate (Suc (5 * 1024 * 1024)) CHR ''a'')\<rparr>)
        empty_store =
       (empty_store, Failure FileTooLarge)
   \<and> handler_upload_chunk ((part_upload ''u1'' 0 1 ''abc'')\<lparr>part_chunk := Some []\<rparr>) empty_store =
       (empty_store, Failure FileEmpty)
   \<and> handler_upload_chunk ((part_upload ''u1'' 0 1 ''abc'')\<lparr>part_uploadId := None\<rparr>) empty_store =
       (empty_store, ErrorJson 400 ''Missing required fields'')
   \<and> files (fst (handler_upload_chunk (part_upload ''u1'' 7 2 ''abc'') empty_store))
        [''tmp'', ''uploads'', ''u1'', ''chunk_0007''] = Some (ChunkFile ''abc'')
   \<and> snd (handler_upload_chunk (part_upload ''u1'' 7 2 ''abc'') empty_store) =
        Uploaded 7 ''u1'' ''Chunk 8/2 uploaded successfully''"
proof -
  let ?u = "upload ''s'' 0 1 ''abc''"
  let ?p = "part_upload ''u1'' 0 1 ''abc''"
  let ?huge = "replicate (Suc MAX_FILE_SIZE) CHR ''a''"
  let ?over = "replicate (Suc (5 * 1024 * 1024)) CHR ''a''"
  let ?nochunk = "?u\<lparr>file_chunk := None\<rparr>"
  let ?empty = "?u\<lparr>file_chunk := Some []\<rparr>"
  let ?big = "?u\<lparr>file_chunk := Some ?huge\<rparr>"
  let ?pover = "?p\<lparr>part_chunk := Some ?over\<rparr>"
  let ?pempty = "?p\<lparr>part_chunk := Some []\<rparr>"
  let ?noid = "?p\<lparr>part_uploadId := None\<rparr>"
  let ?seven = "part_upload ''u1'' 7 2 ''abc''"
  note p = local_id_s
  have s0: "safe_integer 0" "safe_integer 1" "safe_integer 7" "safe_integer 2" "safe_integer 6"
    by (simp_all add: safe_integer_def)
  have l: "length ''s'' \<le> 225" "length ''u1'' \<le> 225" by simp_all
  note fp = form_parse_upload [OF l(1) s0(1,2), where b = "''abc''"]
  note pp = part_parse_upload [OF l(2) s0(1,2), where b = "''abc''"]
  have u: "is_upload sample_md5 ''s'' (upload ''s'' 5 2 ''abc'')" by (rule small_upload) simp_all
  have nc: "\<not> completes ''s'' (upload ''s'' 5 2 ''abc'') empty_store"
    by (simp add: completes_def upload_fields)
  have a: "http_method ?nochunk = ''POST'' \<and> form_parse ?nochunk = Inr () \<and> file_chunk ?nochunk = None"
    by (simp add: fp parse_file_def) (simp add: upload_def)
  have b1: "http_method ?empty = ''POST'' \<and> form_parse ?empty = Inl FileEmpty"
    by (simp add: fp parse_file_def) (simp add: upload_def)
  have b2: "http_method ?big = ''POST'' \<and> form_parse ?big = Inl FileTooLarge"
    by (simp add: fp parse_file_def) (simp add: upload_def)
  have c: "upload_dir_ready empty_store \<and> local_id ''s'' \<and> is_upload sample_md5 ''s'' (upload ''s'' 5 2 ''abc'')
      \<and> metadata_ok empty_store ''s'' \<and> results_ok empty_store ''s''
      \<and> length (the_chunk (upload ''s'' 5 2 ''abc'')) \<le> CHUNK_SIZE"
    by (intro conjI empty_store_ready p u empty_store_ok) (simp add: upload_fields CHUNK_SIZE_def)
  have d1: "part_method ?pover = ''POST'' \<and> part_parse ?pover = Inl FileTooLarge"
    by (simp add: pp parse_file_def) (simp add: part_upload_def)
  have d2: "part_method ?pempty = ''POST'' \<and> part_parse ?pempty = Inl FileEmpty"
    by (simp add: pp parse_file_def) (simp add: part_upload_def)
  have pn: "part_parse ?noid = Inr ()"
    using s0 by (simp add: part_parse_def part_fields_size_def part_upload_def number_bytes_def
        text_bytes_def show_int_small MAX_FIELDS_SIZE_def parse_file_def)
  have e: "part_method ?noid = ''POST'' \<and> part_parse ?noid = Inr ()
      \<and> (part_chunk ?noid = None \<or> part_uploadId ?noid = None \<or> part_uploadId ?noid = Some [])"
    using pn by (simp add: part_upload_def)
  have ps: "part_parse ?seven = Inr ()"
    using part_parse_upload [OF l(2) s0(3,4), where b = "''abc''" and c = "Some ''abc''"]
    by (simp add: parse_file_def part_upload_def)
  have f: "part_accepted ?seven ''u1'' ''abc'' \<and> upload_area_ready empty_store ''u1'' (or_default (part_chunkIndex ?seven) 0)"
    using empty_area_ready ps s0 by (simp add: part_accepted_def part_upload_def or_default_def)
  note t1 = upload_not_validated [where req = ?nochunk and ?md5.0 = sample_md5 and s = empty_store]
  note t2 = upload_not_validated [where req = ?empty and ?md5.0 = sample_md5 and s = empty_store
      and e = FileEmpty]
  note t2' = upload_not_validated [where req = ?big and ?md5.0 = sample_md5 and s = empty_store
      and e = FileTooLarge]
  note t3 = upload_not_validated [where req = "upload ''s'' 5 2 ''abc''" and ?md5.0 = sample_md5
      and s = empty_store and sid = "''s''"]
  note t4 = upload_not_validated [where preq = ?pover and s = empty_store and e = FileTooLarge]
  note t4' = upload_not_validated [where preq = ?pempty and s = empty_store and e = FileEmpty]
  note t5 = upload_not_validated [where preq = ?noid and s = empty_store]
  note t6 = upload_not_validated [where preq = ?seven and s = empty_store
      and b = "''abc''" and uid = "''u1''"]
  from mp [OF conjunct1 [OF t1] a]
  have 1: "handler sample_md5 ?nochunk empty_store = respond empty_store (ErrorJson 400 ''No chunk uploaded'')" .
  from mp [OF conjunct1 [OF conjunct2 [OF t2]] b1]
  have 2: "handler sample_md5 ?empty empty_store = respond empty_store (Failure FileEmpty)" .
  from mp [OF conjunct1 [OF conjunct2 [OF t2']] b2]
  have 3: "handler sample_md5 ?big empty_store = respond empty_store (Failure FileTooLarge)" .
  note r3 = mp [OF conjunct1 [OF conjunct2 [OF conjunct2 [OF t3]]] c]
  note 5 = conjunct1 [OF conjunct2 [OF r3], unfolded upload_fields]
  note 6 = conjunct2 [OF conjunct2 [OF r3], unfolded if_not_P [OF nc]]
  from mp [OF conjunct1 [OF conjunct2 [OF conjunct2 [OF conjunct2 [OF t4]]]] d1]
  have 7: "handler_upload_chunk ?pover empty_store = (empty_store, Failure FileTooLarge)" .
  from mp [OF conjunct1 [OF conjunct2 [OF conjunct2 [OF conjunct2 [OF t4']]]] d2]
  have 8: "handler_upload_chunk ?pempty empty_store = (empty_store, Failure FileEmpty)" .
  from mp [OF conjunct1 [OF conjunct2 [OF conjunct2 [OF conjunct2 [OF conjunct2 [OF conjunct2 [OF t5]]]]]] e]
  have 9: "handler_upload_chunk ?noid empty_store = (empty_store, ErrorJson 400 ''Missing required fields'')" .
  note r7 = mp [OF conjunct2 [OF conjunct2 [OF conjunct2 [OF conjunct2 [OF conjunct2 [OF conjunct2 [OF t6]]]]]] f]
  from r7 have 10: "files (fst (handler_upload_chunk ?seven empty_store))
        [''tmp'', ''uploads'', ''u1'', ''chunk_0007''] = Some (ChunkFile ''abc'')"
    by (simp add: part_upload_def or_default_def show_int_small chunk_name_def pad_start_def
        path_join_def TEMP_DIR_def numeral_3_eq_3)
  from r7 have 11: "snd (handler_upload_chunk ?seven empty_store) =
        Uploaded 7 ''u1'' ''Chunk 8/2 uploaded successfully''"
    by (simp add: part_upload_def or_default_def show_int_small)
  have 4: "\<not> (0 \<le> (5::int) \<and> (5::int) < 2)" by simp
  show ?thesis by (intro conjI 1 2 3 4 u 5 6 7 8 9 10 11)
qed

subsection \<open>The chunk count and file size a request declares\<close>

lemma aggregate_fields:
  "file_size (aggregateChunkResults now rs T f) = T"
  "filename (aggregateChunkResults now rs T f) = f"
  "breakdown_indices (aggregateChunkResults now rs T f) = map chunkIndex rs"
  "total_chunks (chunked_analysis (aggregateChunkResults now rs T f)) = length rs"
  by (simp_all add: aggregateChunkResults_def Let_def breakdown_indices_def breakdown_def comp_def)

lemma first_chunk_store:
  assumes "local_id sid" "is_upload md5 sid (upload sid i n b)"
  shows "store (handler md5 (upload sid i n b) empty_store) = finished_store md5 sid (upload sid i n b) empty_store"
    and "upload_dir_ready (finished_store md5 sid (upload sid i n b) empty_store)"
    and "metadata_ok (finished_store md5 sid (upload sid i n b) empty_store) sid"
    and "results_ok (finished_store md5 sid (upload sid i n b) empty_store) sid"
    and "session_metadata (finished_store md5 sid (upload sid i n b) empty_store) sid =
          fmupd i (new_meta md5 (upload sid i n b)) fmempty"
proof -
  show "store (handler md5 (upload sid i n b) empty_store) = finished_store md5 sid (upload sid i n b) empty_store"
    by (rule handler_store [OF empty_store_ready assms empty_store_ok])
  note f = finished_store_facts [OF empty_store_ready assms(1) empty_store_ok, of md5 "upload sid i n b"]
  from f show "upload_dir_ready (finished_store md5 sid (upload sid i n b) empty_store)"
    and "metadata_ok (finished_store md5 sid (upload sid i n b) empty_store) sid"
    and "results_ok (finished_store md5 sid (upload sid i n b) empty_store) sid"
    by blast+
  from f(4) show "session_metadata (finished_store md5 sid (upload sid i n b) empty_store) sid =
          fmupd i (new_meta md5 (upload sid i n b)) fmempty"
    by (simp add: session_metadata_empty upload_fields)
qed

text \<open>The facts that decide whether a sample request is an upload.\<close>

lemma show_int_more: "show_int 3 = ''3''" "show_int 5 = ''5''" "show_int 99 = ''99''"
  by (simp_all add: show_int_def show_nat.simps digit_char_def)

lemmas upload_eval = is_upload_def upload_def request_sessionId_def form_parse_def parse_file_def
  fields_size_def number_bytes_def text_bytes_def show_int_small show_int_more MAX_FIELDS_SIZE_def
  MAX_FILE_SIZE_def the_index_def the_total_def or_default_def safe_integer_def

lemma sample_uploads:
  "is_upload md5 ''s'' (upload ''s'' 0 1 ''abc'')" "is_upload md5 ''s'' (upload ''s'' 0 2 ''abc'')"
  "is_upload md5 ''s'' (upload ''s'' 0 3 ''abc'')" "is_upload md5 ''s'' (upload ''s'' 1 2 ''xyz'')"
  "is_upload md5 ''s'' (upload ''s'' 1 3 ''xyz'')" "is_upload md5 ''s'' (upload ''s'' 1 2 ''abc'')"
  "is_upload md5 ''s'' (upload ''s'' 0 2 ''xyz'')"
  by (rule small_upload; simp)+

lemma finished_store_redeclared:
  "finished_store md5 sid (req\<lparr>field_totalChunks := n, field_fileSize := f\<rparr>) s = finished_store md5 sid req s"
  by (simp add: finished_store_def the_index_def the_chunk_def new_meta_def new_result_def)

text \<open>
  A session begun with 3 chunks declared receives chunk 1 of a request that declares 2
  chunks and another file size: the request is served, completes the session and is answered
  with the aggregate, and the received count goes from 1 to 2.
\<close>

theorem redeclared_session_accepted:
  "receivedCount (store (handler sample_md5 (upload ''s'' 0 3 ''abc'') empty_store)) ''s'' = 1
   \<and> completed (reply (handler sample_md5 ((upload ''s'' 1 2 ''xyz'')\<lparr>field_fileSize := Some 5\<rparr>)
         (store (handler sample_md5 (upload ''s'' 0 3 ''abc'') empty_store))))
   \<and> map_option file_size (reply_result (reply (handler sample_md5 ((upload ''s'' 1 2 ''xyz'')\<lparr>field_fileSize := Some 5\<rparr>)
         (store (handler sample_md5 (upload ''s'' 0 3 ''abc'') empty_store))))) = Some 5
   \<and> receivedCount (store (handler sample_md5 ((upload ''s'' 1 2 ''xyz'')\<lparr>field_fileSize := Some 5\<rparr>)
         (store (handler sample_md5 (upload ''s'' 0 3 ''abc'') empty_store)))) ''s'' = 2"
proof -
  let ?r1 = "upload ''s'' 0 3 ''abc''"
  let ?r2 = "(upload ''s'' 1 2 ''xyz'')\<lparr>field_fileSize := Some 5\<rparr>"
  let ?s1 = "finished_store sample_md5 ''s'' ?r1 empty_store"
  note p = local_id_s
  note f = first_chunk_store [OF p sample_uploads(3) [where ?md5.0 = sample_md5]]
  have u: "is_upload sample_md5 ''s'' ?r2"
    by (simp add: upload_eval)
  have i: "the_index ?r2 = 1" "the_total ?r2 = 2" "or_default (field_fileSize ?r2) 0 = 5"
    by (simp_all add: the_index_def the_total_def upload_def or_default_def)
  have ra: "received_after ''s'' ?r2 ?s1 = 2"
    by (simp add: received_after_def f(5) i fcard_finsert_if)
  have c: "completes ''s'' ?r2 ?s1"
    by (simp add: completes_def i ra)
  have rc1: "receivedCount ?s1 ''s'' = 1"
    by (simp add: receivedCount_def f(5) fcard_finsert_if)
  have rc2: "receivedCount (finished_store sample_md5 ''s'' ?r2 ?s1) ''s'' = 2"
    by (simp only: receivedCount_finished [OF f(2) p f(3,4)] ra)
  show ?thesis
    by (simp only: f(1) handler_store [OF f(2) p u f(3,4)] handler_reply [OF f(2) p u f(3,4)]
        c if_True rc1 rc2 completed_reply_def completed.simps reply_result.simps
        option.map aggregate_fields i simp_thms)
qed

text \<open>
  C6, as the handler has it. The store holds neither the chunk count nor the file size of a
  session, and no request is refused for the values it declares. When an upload is sent with
  another chunk count and file size (and is an upload with these values too), the store at
  the time of the response is the same; the response is the aggregate or the progress
  response, by the test the handler makes with the chunk count of this request alone, and
  the clean-up timer, which is set with the aggregate, runs with that chunk count.
\<close>

theorem declared_totals_not_stored:
  "upload_dir_ready s \<and> local_id sid \<and> metadata_ok s sid \<and> results_ok s sid
     \<and> is_upload md5 sid req \<and> is_upload md5 sid (req\<lparr>field_totalChunks := n, field_fileSize := f\<rparr>) \<longrightarrow>
   (let req' = req\<lparr>field_totalChunks := n, field_fileSize := f\<rparr>;
        out = handler md5 req' s;
        last_and_full = (the_index req = or_default n 1 - 1 \<and> int (received_after sid req s) = or_default n 1)
    in store out = store (handler md5 req s)
       \<and> reply out = (if last_and_full then completed_reply md5 sid req' s else progress_reply md5 sid req' s)
       \<and> timer out = (if last_and_full then Some (sid, or_default n 1) else None))"
proof
  assume a: "upload_dir_ready s \<and> local_id sid \<and> metadata_ok s sid \<and> results_ok s sid
     \<and> is_upload md5 sid req \<and> is_upload md5 sid (req\<lparr>field_totalChunks := n, field_fileSize := f\<rparr>)"
  let ?req = "req\<lparr>field_totalChunks := n, field_fileSize := f\<rparr>"
  from a have h: "upload_dir_ready s" "local_id sid" "is_upload md5 sid req" "metadata_ok s sid"
    "results_ok s sid" and u: "is_upload md5 sid ?req"
    by blast+
  have c: "completes sid ?req s \<longleftrightarrow>
      the_index req = or_default n 1 - 1 \<and> int (received_after sid req s) = or_default n 1"
    by (simp add: completes_def received_after_def the_index_def the_total_def)
  have t: "the_total ?req = or_default n 1" by (simp add: the_total_def)
  note ok = handler_ok [OF h(1,2) u h(4,5)]
  have st: "store (handler md5 ?req s) = store (handler md5 req s)"
    using handler_store [OF h(1,2) u h(4,5)] handler_store [OF h]
    by (simp add: finished_store_redeclared)
  have rp: "reply (handler md5 ?req s) =
           (if the_index req = or_default n 1 - 1 \<and> int (received_after sid req s) = or_default n 1
            then completed_reply md5 sid ?req s else progress_reply md5 sid ?req s)"
    by (simp only: handler_reply [OF h(1,2) u h(4,5)] c)
  have tm: "timer (handler md5 ?req s) =
           (if the_index req = or_default n 1 - 1 \<and> int (received_after sid req s) = or_default n 1
            then Some (sid, or_default n 1) else None)"
  proof -
    have "timer (handler md5 ?req s) = (if completes sid ?req s then Some (sid, the_total ?req) else None)"
      by (simp add: ok respond_def)
    then show ?thesis by (simp only: c t)
  qed
  from st rp tm show "let req' = ?req; out = handler md5 req' s;
        last_and_full = (the_index req = or_default n 1 - 1 \<and> int (received_after sid req s) = or_default n 1)
    in store out = store (handler md5 req s)
       \<and> reply out = (if last_and_full then completed_reply md5 sid req' s else progress_reply md5 sid req' s)
       \<and> timer out = (if last_and_full then Some (sid, or_default n 1) else None)"
    unfolding Let_def by (intro conjI)
qed

text \<open>
  Chunk 0 of a session is in the store, declared with 3 chunks. Chunk 1 sent with 3 chunks
  declared is answered with the progress response; sent with 2 chunks and another file size
  declared it is answered with the aggregate and sets the timer for 2 chunks; the store is
  the same in both cases.
\<close>

theorem declared_totals_not_stored_witness:
  "is_upload sample_md5 ''s'' (upload ''s'' 1 3 ''xyz'')
   \<and> is_upload sample_md5 ''s'' ((upload ''s'' 1 3 ''xyz'')\<lparr>field_totalChunks := Some 2, field_fileSize := Some 99\<rparr>)
   \<and> receivedCount (store (handler sample_md5 (upload ''s'' 0 3 ''abc'') empty_store)) ''s'' = 1
   \<and> store (handler sample_md5 ((upload ''s'' 1 3 ''xyz'')\<lparr>field_totalChunks := Some 2, field_fileSize := Some 99\<rparr>)
         (store (handler sample_md5 (upload ''s'' 0 3 ''abc'') empty_store))) =
       store (handler sample_md5 (upload ''s'' 1 3 ''xyz'')
         (store (handler sample_md5 (upload ''s'' 0 3 ''abc'') empty_store)))
   \<and> completed (reply (handler sample_md5 ((upload ''s'' 1 3 ''xyz'')\<lparr>field_totalChunks := Some 2, field_fileSize := Some 99\<rparr>)
         (store (handler sample_md5 (upload ''s'' 0 3 ''abc'') empty_store))))
   \<and> timer (handler sample_md5 ((upload ''s'' 1 3 ''xyz'')\<lparr>field_totalChunks := Some 2, field_fileSize := Some 99\<rparr>)
         (store (handler sample_md5 (upload ''s'' 0 3 ''abc'') empty_store))) = Some (''s'', 2)
   \<and> \<not> completed (reply (handler sample_md5 (upload ''s'' 1 3 ''xyz'')
         (store (handler sample_md5 (upload ''s'' 0 3 ''abc'') empty_store))))"
proof -
  let ?first = "upload ''s'' 0 3 ''abc''"
  let ?r = "upload ''s'' 1 3 ''xyz''"
  let ?r' = "?r\<lparr>field_totalChunks := Some 2, field_fileSize := Some 99\<rparr>"
  let ?s1 = "finished_store sample_md5 ''s'' ?first empty_store"
  note p = local_id_s
  note f = first_chunk_store [OF p sample_uploads(3) [where ?md5.0 = sample_md5]]
  note u = sample_uploads(5) [where ?md5.0 = sample_md5]
  have u': "is_upload sample_md5 ''s'' ?r'" by (simp add: upload_eval)
  have ra: "received_after ''s'' ?r ?s1 = 2"
    by (simp add: received_after_def f(5) upload_fields fcard_finsert_if)
  have nc: "\<not> completes ''s'' ?r ?s1"
    by (simp add: completes_def upload_fields ra)
  have rc: "receivedCount ?s1 ''s'' = 1"
    by (simp add: receivedCount_def f(5) fcard_finsert_if)
  have hyps: "upload_dir_ready ?s1 \<and> local_id ''s'' \<and> metadata_ok ?s1 ''s'' \<and> results_ok ?s1 ''s''
     \<and> is_upload sample_md5 ''s'' ?r \<and> is_upload sample_md5 ''s'' ?r'"
    by (intro conjI f(2,3,4) p u u')
  note t = mp [OF declared_totals_not_stored [where s = ?s1 and sid = "''s''" and ?md5.0 = sample_md5
      and req = ?r and n = "Some 2" and f = "Some 99"] hyps, unfolded Let_def]
  have lf: "the_index ?r = or_default (Some 2) 1 - 1 \<and> int (received_after ''s'' ?r ?s1) = or_default (Some 2) 1"
    by (simp add: upload_fields ra or_default_def)
  note 1 = conjunct1 [OF t]
  note 2 = conjunct1 [OF conjunct2 [OF t], unfolded if_P [OF lf]]
  note 3 = conjunct2 [OF conjunct2 [OF t], unfolded if_P [OF lf]]
  have 4: "completed (reply (handler sample_md5 ?r' ?s1))"
    unfolding 2 by (simp add: completed_reply_def)
  have 5: "timer (handler sample_md5 ?r' ?s1) = Some (''s'', 2)"
    unfolding 3 by (simp add: or_default_def)
  have 6: "\<not> completed (reply (handler sample_md5 ?r ?s1))"
    using handler_reply [OF f(2) p u f(3,4)] nc by (simp add: progress_reply_def)
  show ?thesis
    unfolding f(1) by (intro conjI u u' rc 1 4 5 6)
qed

subsection \<open>The age of a session\<close>

lemma session_result_finished:
  assumes "local_id sid"
  shows "session_result (finished_store md5 sid req s) sid i =
     (if i = the_index req then Some (new_result md5 sid req) else session_result s sid i)"
  using session_paths_distinct [OF assms]
  by (simp add: session_result_def finished_store_def resultPath_inj [OF assms])

lemma stored_results_alt:
  "stored_results s sid is =
     concat (map (\<lambda>i. case session_result s sid i of Some r \<Rightarrow> [r] | None \<Rightarrow> []) is)"
proof -
  have "(\<lambda>i. case files s (resultPath sid i) of Some (ResultFile r) \<Rightarrow> [r] | _ \<Rightarrow> []) =
      (\<lambda>i. case session_result s sid i of Some r \<Rightarrow> [r] | None \<Rightarrow> [])"
    by (rule ext) (simp add: session_result_def split: option.splits stored.splits)
  then show ?thesis by (simp add: stored_results_def)
qed

lemma new_result_fields:
  "chunkIndex (new_result md5 sid req) = the_index req"
  "sessionId (new_result md5 sid req) = sid"
  "processingTime (new_result md5 sid req) = js_add (Num (1 / 2)) (js_mul (Num (math_random req)) (Num 1))"
  "timestamp (new_result md5 sid req) = now_result req"
  "chunkSize (new_result md5 sid req) = length (the_chunk req)"
  by (simp_all add: new_result_def processChunk_def Let_def)

lemma session_result_empty: "session_result empty_store sid i = None"
  by (simp add: session_result_def empty_store_def)

lemma is_upload_clock:
  assumes "is_upload md5 sid req" "field_sessionId req = Some sid" "sid \<noteq> []"
  shows "is_upload md5 sid (req\<lparr>now_session := t1, now_metadata := t2, now_result := t3, now_aggregate := t4\<rparr>)"
  using assms
  by (auto simp: is_upload_def request_sessionId_def form_parse_def fields_size_def the_index_def
      the_total_def split: if_splits)

lemma indices_2: "map int [0..<nat 2] = [0, 1]"
  by (simp add: numeral_2_eq_2)

text \<open>
  Chunk 0 of 2 is uploaded, and chunk 1 more than two hours later by the clock. The second
  request completes the session: the aggregate has both chunks, and the metadata entry of
  chunk 0 is the one written two hours before.
\<close>

theorem stale_session_resumed:
  "completed (reply (handler sample_md5
      ((upload ''s'' 1 2 ''xyz'')\<lparr>now_session := 7201000, now_metadata := 7201001,
         now_result := 7201002, now_aggregate := 7201003\<rparr>)
      (store (handler sample_md5 (upload ''s'' 0 2 ''abc'') empty_store))))
   \<and> map_option breakdown_indices (reply_result (reply (handler sample_md5
      ((upload ''s'' 1 2 ''xyz'')\<lparr>now_session := 7201000, now_metadata := 7201001,
         now_result := 7201002, now_aggregate := 7201003\<rparr>)
      (store (handler sample_md5 (upload ''s'' 0 2 ''abc'') empty_store))))) = Some [0, 1]
   \<and> map_option meta_timestamp (fmlookup (session_metadata (store (handler sample_md5
      ((upload ''s'' 1 2 ''xyz'')\<lparr>now_session := 7201000, now_metadata := 7201001,
         now_result := 7201002, now_aggregate := 7201003\<rparr>)
      (store (handler sample_md5 (upload ''s'' 0 2 ''abc'') empty_store)))) ''s'') 0) = Some 1001"
proof -
  let ?r1 = "upload ''s'' 0 2 ''abc''"
  let ?r2 = "(upload ''s'' 1 2 ''xyz'')\<lparr>now_session := 7201000, now_metadata := 7201001,
         now_result := 7201002, now_aggregate := 7201003\<rparr>"
  let ?s1 = "finished_store sample_md5 ''s'' ?r1 empty_store"
  let ?s2 = "finished_store sample_md5 ''s'' ?r2 ?s1"
  note p = local_id_s
  note f = first_chunk_store [OF p sample_uploads(2) [where ?md5.0 = sample_md5]]
  have u: "is_upload sample_md5 ''s'' ?r2"
    by (rule is_upload_clock [OF sample_uploads(4)]) (simp_all add: upload_def)
  have i: "the_index ?r2 = 1" "the_total ?r2 = 2"
    by (simp_all add: the_index_def the_total_def upload_def or_default_def)
  have ra: "received_after ''s'' ?r2 ?s1 = 2"
    by (simp add: received_after_def f(5) i fcard_finsert_if)
  have c: "completes ''s'' ?r2 ?s1"
    by (simp add: completes_def i ra)
  have sr: "stored_results ?s2 ''s'' [0, 1] =
      [new_result sample_md5 ''s'' ?r1, new_result sample_md5 ''s'' ?r2]"
    by (simp add: stored_results_alt session_result_finished [OF p] i upload_fields
        session_result_empty)
  have bi: "breakdown_indices (aggregateChunkResults t
      (sort_key chunkIndex [new_result sample_md5 ''s'' ?r1, new_result sample_md5 ''s'' ?r2]) T fn) = [0, 1]"
    for t T fn
    by (simp add: aggregate_fields new_result_fields i upload_fields)
  have m: "session_metadata ?s2 ''s'' = fmupd 1 (new_meta sample_md5 ?r2) (fmupd 0 (new_meta sample_md5 ?r1) fmempty)"
    using finished_store_facts(4) [OF f(2) p f(3,4), of sample_md5 ?r2] by (simp add: f(5) i)
  have ts: "map_option meta_timestamp (fmlookup (session_metadata ?s2 ''s'') 0) = Some 1001"
    unfolding m by (simp add: new_meta_def upload_def)
  show ?thesis
    by (simp only: f(1) handler_store [OF f(2) p u f(3,4)] handler_reply [OF f(2) p u f(3,4)]
        c if_True completed_reply_def completed.simps reply_result.simps
        option.map i indices_2 sr bi ts simp_thms)
qed

text \<open>
  C7, as the handler has it. No session that is incomplete expires. Whatever the clock shows
  when a chunk arrives, the chunk is added to what the store holds for its session: the
  indices recorded before stay recorded, with their metadata entries and results, and the
  request completes the session by the same test as at any other time. The handler sets its
  one clean-up timer when it produces the aggregate, and at no other time.
\<close>

theorem incomplete_session_never_expires:
  "upload_dir_ready s \<and> local_id sid \<and> is_upload md5 sid req \<and> field_sessionId req = Some sid
     \<and> metadata_ok s sid \<and> results_ok s sid \<longrightarrow>
   (let out = handler md5 (req\<lparr>now_session := t1, now_metadata := t2, now_result := t3, now_aggregate := t4\<rparr>) s
    in fmdom (session_metadata (store out) sid) = finsert (the_index req) (fmdom (session_metadata s sid))
       \<and> (\<forall>i. i \<noteq> the_index req \<longrightarrow>
             fmlookup (session_metadata (store out) sid) i = fmlookup (session_metadata s sid) i
             \<and> session_result (store out) sid i = session_result s sid i)
       \<and> completed (reply out) = completes sid req s
       \<and> timer out = (if completes sid req s then Some (sid, the_total req) else None))"
proof
  assume a: "upload_dir_ready s \<and> local_id sid \<and> is_upload md5 sid req \<and> field_sessionId req = Some sid
     \<and> metadata_ok s sid \<and> results_ok s sid"
  then have h: "upload_dir_ready s" "local_id sid" "is_upload md5 sid req" "metadata_ok s sid"
    "results_ok s sid" and g: "field_sessionId req = Some sid"
    by blast+
  from h(2) have ne: "sid \<noteq> []" by (simp add: local_id_def)
  let ?req = "req\<lparr>now_session := t1, now_metadata := t2, now_result := t3, now_aggregate := t4\<rparr>"
  note u = is_upload_clock [OF h(3) g ne, where ?t1.0 = t1 and ?t2.0 = t2 and ?t3.0 = t3 and ?t4.0 = t4]
  have i: "the_index ?req = the_index req" "the_total ?req = the_total req"
    by (simp_all add: the_index_def the_total_def)
  have c: "completes sid ?req s = completes sid req s"
    by (simp add: completes_def received_after_def i)
  note ok = handler_ok [OF h(1,2) u h(4,5)]
  have st: "store (handler md5 ?req s) = finished_store md5 sid ?req s"
    by (rule handler_store [OF h(1,2) u h(4,5)])
  have m: "session_metadata (finished_store md5 sid ?req s) sid =
      fmupd (the_index req) (new_meta md5 ?req) (session_metadata s sid)"
    using finished_store_facts(4) [OF h(1,2,4,5), of md5 ?req] by (simp only: i)
  have 1: "fmdom (session_metadata (store (handler md5 ?req s)) sid) =
      finsert (the_index req) (fmdom (session_metadata s sid))"
    by (simp add: st m)
  have 2: "\<forall>i. i \<noteq> the_index req \<longrightarrow>
             fmlookup (session_metadata (store (handler md5 ?req s)) sid) i = fmlookup (session_metadata s sid) i
             \<and> session_result (store (handler md5 ?req s)) sid i = session_result s sid i"
    by (simp add: st m session_result_finished [OF h(2)] i)
  have 3: "completed (reply (handler md5 ?req s)) = completes sid req s"
    by (simp add: ok c respond_def completed_reply_def progress_reply_def)
  have 4: "timer (handler md5 ?req s) = (if completes sid req s then Some (sid, the_total req) else None)"
    by (simp add: ok c respond_def i)
  from 1 2 3 4 show "let out = handler md5 ?req s
    in fmdom (session_metadata (store out) sid) = finsert (the_index req) (fmdom (session_metadata s sid))
       \<and> (\<forall>i. i \<noteq> the_index req \<longrightarrow>
             fmlookup (session_metadata (store out) sid) i = fmlookup (session_metadata s sid) i
             \<and> session_result (store out) sid i = session_result s sid i)
       \<and> completed (reply out) = completes sid req s
       \<and> timer out = (if completes sid req s then Some (sid, the_total req) else None)"
    unfolding Let_def by blast
qed

theorem incomplete_session_never_expires_witness:
  "is_upload sample_md5 ''s'' (upload ''s'' 1 2 ''xyz'')
   \<and> now_metadata (upload ''s'' 0 2 ''abc'') + 3600000 < 7201001
   \<and> fmdom (session_metadata (store (handler sample_md5
        ((upload ''s'' 1 2 ''xyz'')\<lparr>now_session := 7201000, now_metadata := 7201001,
           now_result := 7201002, now_aggregate := 7201003\<rparr>)
        (store (handler sample_md5 (upload ''s'' 0 2 ''abc'') empty_store)))) ''s'') = {|0, 1|}
   \<and> timer (handler sample_md5
        ((upload ''s'' 1 2 ''xyz'')\<lparr>now_session := 7201000, now_metadata := 7201001,
           now_result := 7201002, now_aggregate := 7201003\<rparr>)
        (store (handler sample_md5 (upload ''s'' 0 2 ''abc'') empty_store))) = Some (''s'', 2)"
proof -
  let ?r1 = "upload ''s'' 0 2 ''abc''"
  let ?r = "upload ''s'' 1 2 ''xyz''"
  let ?s1 = "finished_store sample_md5 ''s'' ?r1 empty_store"
  note p = local_id_s
  note f = first_chunk_store [OF p sample_uploads(2) [where ?md5.0 = sample_md5]]
  note u = sample_uploads(4) [where ?md5.0 = sample_md5]
  have g: "field_sessionId ?r = Some ''s''" by (simp add: upload_def)
  have ra: "received_after ''s'' ?r ?s1 = 2"
    by (simp add: received_after_def f(5) upload_fields fcard_finsert_if)
  have c: "completes ''s'' ?r ?s1"
    by (simp add: completes_def upload_fields ra)
  from incomplete_session_never_expires [where s = ?s1 and sid = "''s''" and ?md5.0 = sample_md5
      and req = ?r and ?t1.0 = 7201000 and ?t2.0 = 7201001 and ?t3.0 = 7201002 and ?t4.0 = 7201003]
    f(2) p u g f(3,4)
  have "fmdom (session_metadata (store (handler sample_md5
        (?r\<lparr>now_session := 7201000, now_metadata := 7201001, now_result := 7201002, now_aggregate := 7201003\<rparr>)
        ?s1)) ''s'') = finsert (the_index ?r) (fmdom (session_metadata ?s1 ''s''))"
    and "timer (handler sample_md5
        (?r\<lparr>now_session := 7201000, now_metadata := 7201001, now_result := 7201002, now_aggregate := 7201003\<rparr>)
        ?s1) = (if completes ''s'' ?r ?s1 then Some (''s'', the_total ?r) else None)"
    unfolding Let_def by blast+
  then show ?thesis
    using u c by (simp add: f(1) f(5) upload_fields) (simp add: upload_def finsert_commute)
qed

subsection \<open>The generated session id\<close>

lemma hex_char_in: "d < 16 \<Longrightarrow> hex_char d \<in> set ''0123456789abcdef''"
  unfolding hex_char_def by (intro nth_mem) simp

lemma hex_digits_chars: "set (hex_digits k n) \<subseteq> set ''0123456789abcdef''"
proof (induction k arbitrary: n)
  case 0
  show ?case by simp
next
  case (Suc k)
  have "n mod 16 < 16" by simp
  from hex_char_in [OF this] Suc [of "n div 16"] show ?case by simp
qed

lemma length_hex_digits: "length (hex_digits k n) = k"
  by (induction k arbitrary: n) simp_all

lemma hex_char_inj:
  assumes "a < 16" "b < 16" "hex_char a = hex_char b"
  shows "a = b"
proof -
  have "distinct ''0123456789abcdef''" by simp
  from nth_eq_iff_index_eq [OF this, of a b] assms show ?thesis
    by (simp add: hex_char_def)
qed

lemma hex_digits_eq: "hex_digits k n = hex_digits k m \<longleftrightarrow> n mod 16 ^ k = m mod 16 ^ k"
proof (induction k arbitrary: n m)
  case 0
  show ?case by simp
next
  case (Suc k)
  have split: "x mod 16 ^ Suc k = 16 * (x div 16 mod 16 ^ k) + x mod 16" for x :: nat
    by (simp add: mod_mult2_eq)
  have "hex_char (n mod 16) = hex_char (m mod 16) \<longleftrightarrow> n mod 16 = m mod 16"
    using hex_char_inj [of "n mod 16" "m mod 16"] by auto
  then have "hex_digits (Suc k) n = hex_digits (Suc k) m \<longleftrightarrow>
      n div 16 mod 16 ^ k = m div 16 mod 16 ^ k \<and> n mod 16 = m mod 16"
    by (simp add: Suc.IH)
  also have "\<dots> \<longleftrightarrow> n mod 16 ^ Suc k = m mod 16 ^ Suc k"
  proof
    assume "n div 16 mod 16 ^ k = m div 16 mod 16 ^ k \<and> n mod 16 = m mod 16"
    then show "n mod 16 ^ Suc k = m mod 16 ^ Suc k" by (simp only: split)
  next
    assume e: "n mod 16 ^ Suc k = m mod 16 ^ Suc k"
    then have "16 * (n div 16 mod 16 ^ k) + n mod 16 = 16 * (m div 16 mod 16 ^ k) + m mod 16"
      by (simp only: split)
    moreover have "n mod 16 < 16" "m mod 16 < 16" by simp_all
    moreover have "\<And>a b c d :: nat. 16 * a + c = 16 * b + d \<Longrightarrow> c < 16 \<Longrightarrow> d < 16 \<Longrightarrow> a = b \<and> c = d"
      by presburger
    ultimately show "n div 16 mod 16 ^ k = m div 16 mod 16 ^ k \<and> n mod 16 = m mod 16"
      by blast
  qed
  finally show ?case .
qed

lemma md5_hex_eq: "md5_hex md5 a = md5_hex md5 b \<longleftrightarrow> md5 a mod 2 ^ 128 = md5 b mod 2 ^ 128"
proof -
  have "(2::nat) ^ 128 = 16 ^ 32" by simp
  then show ?thesis by (simp add: md5_hex_def hex_digits_eq)
qed

lemma md5_hex_plain: "local_id (md5_hex md5 data)"
proof -
  have len: "length (md5_hex md5 data) = 32" by (simp add: md5_hex_def length_hex_digits)
  then have ne: "md5_hex md5 data \<noteq> []" by auto
  have "CHR ''/'' \<notin> set ''0123456789abcdef''" "CHR 0x00 \<notin> set ''0123456789abcdef''" by simp_all
  with hex_digits_chars [of 32 "md5 data mod 2 ^ 128"]
  have no: "CHR ''/'' \<notin> set (md5_hex md5 data)" "CHR 0x00 \<notin> set (md5_hex md5 data)"
    unfolding md5_hex_def by blast+
  from ne no len show ?thesis
    by (simp add: local_id_def session_stem_def split_slash_no_slash)
qed

lemma progress_reply_sessionId:
  "reply_sessionId (if c then completed_reply md5 sid req s else progress_reply md5 sid req s) = Some sid"
  by (simp add: completed_reply_def progress_reply_def)

lemma show_int_1000: "show_int 1000 = ''1000''" "show_int 1001 = ''1001''" "show_int 6 = ''6''"
  "show_int 1 = ''1''"
  by (simp_all add: show_int_def show_nat.simps digit_char_def)

lemma generated_id:
  assumes "field_sessionId r = None"
  shows "request_sessionId md5 r = md5_hex md5 (hashed_text r)"
  using assms by (simp add: request_sessionId_def generateSessionId_def hashed_text_def)

text \<open>
  Two requests without a session id, with the same file name, file size and chunk count,
  one millisecond apart: the ids differ (with the stand-in digest, which separates the two
  hashed strings).
\<close>

theorem session_id_changes_with_clock:
  "request_sessionId sample_md5 ((upload [] 0 1 ''abc'')\<lparr>field_sessionId := None, now_session := 1000\<rparr>) =
     ''00000496000000000000000000000000''
   \<and> request_sessionId sample_md5 ((upload [] 0 1 ''abc'')\<lparr>field_sessionId := None, now_session := 1001\<rparr>) =
     ''00000497000000000000000000000000''
   \<and> request_sessionId sample_md5 ((upload [] 0 1 ''abc'')\<lparr>field_sessionId := None, now_session := 1000\<rparr>) \<noteq>
      request_sessionId sample_md5 ((upload [] 0 1 ''abc'')\<lparr>field_sessionId := None, now_session := 1001\<rparr>)"
  by (simp add: request_sessionId_def upload_def generateSessionId_def or_default_def show_int_1000
      md5_hex_def sample_md5_def hex_digits_numeral hex_char_def)

text \<open>
  C8, as the handler has it. When the request has no session id, the id is the md5 digest,
  in hexadecimal, of file name, file size, chunk count and the clock reading, joined by
  dashes. For two requests without a session id that agree on file name, file size and chunk
  count, the hashed texts are the same exactly when the clock readings are the same, and the
  ids are the same exactly when the digests of the two texts are: with different clock
  readings the ids differ unless md5 collides on the two texts. The response to an upload
  carries the id.
\<close>

theorem generated_session_id:
  "(field_sessionId r1 = None \<longrightarrow> request_sessionId md5 r1 = md5_hex md5 (hashed_text r1))
   \<and> (field_sessionId r1 = None \<and> field_sessionId r2 = None \<and> field_filename r1 = field_filename r2
        \<and> field_fileSize r1 = field_fileSize r2 \<and> field_totalChunks r1 = field_totalChunks r2 \<longrightarrow>
      (hashed_text r1 = hashed_text r2 \<longleftrightarrow> now_session r1 = now_session r2)
      \<and> (request_sessionId md5 r1 = request_sessionId md5 r2 \<longleftrightarrow>
           md5 (hashed_text r1) mod 2 ^ 128 = md5 (hashed_text r2) mod 2 ^ 128))
   \<and> (field_sessionId r1 = None \<and> upload_dir_ready s \<and> is_upload md5 sid r1
        \<and> metadata_ok s sid \<and> results_ok s sid \<longrightarrow>
      sid = md5_hex md5 (hashed_text r1)
      \<and> reply_sessionId (reply (handler md5 r1 s)) = Some sid)"
proof (intro conjI impI)
  assume "field_sessionId r1 = None"
  then show "request_sessionId md5 r1 = md5_hex md5 (hashed_text r1)" by (rule generated_id)
next
  assume a: "field_sessionId r1 = None \<and> field_sessionId r2 = None \<and> field_filename r1 = field_filename r2
        \<and> field_fileSize r1 = field_fileSize r2 \<and> field_totalChunks r1 = field_totalChunks r2"
  then show "hashed_text r1 = hashed_text r2 \<longleftrightarrow> now_session r1 = now_session r2"
    using show_int_inj [of "now_session r1" "now_session r2"] by (auto simp: hashed_text_def)
  from a show "request_sessionId md5 r1 = request_sessionId md5 r2 \<longleftrightarrow>
           md5 (hashed_text r1) mod 2 ^ 128 = md5 (hashed_text r2) mod 2 ^ 128"
    by (simp add: generated_id md5_hex_eq)
next
  assume a: "field_sessionId r1 = None \<and> upload_dir_ready s \<and> is_upload md5 sid r1
        \<and> metadata_ok s sid \<and> results_ok s sid"
  then have h: "upload_dir_ready s" "is_upload md5 sid r1" "metadata_ok s sid" "results_ok s sid"
    and n: "field_sessionId r1 = None"
    by blast+
  from is_upload_chunk(4) [OF h(2)] generated_id [OF n, of md5]
  show sid: "sid = md5_hex md5 (hashed_text r1)" by simp
  then have p: "local_id sid" by (simp only: md5_hex_plain)
  show "reply_sessionId (reply (handler md5 r1 s)) = Some sid"
    by (simp only: handler_reply [OF h(1) p h(2,3,4)] progress_reply_sessionId)
qed

text \<open>
  Two requests without a session id that read the same clock value obtain the same id, and
  the response carries it; one millisecond later the id is another.
\<close>

theorem generated_session_id_witness:
  "request_sessionId sample_md5 ((upload [] 0 1 ''abc'')\<lparr>field_sessionId := None\<rparr>) =
     ''00000496000000000000000000000000''
   \<and> request_sessionId sample_md5 ((upload [] 0 1 ''abc'')\<lparr>field_sessionId := None\<rparr>) =
     request_sessionId sample_md5 ((upload [] 3 1 ''xyz'')\<lparr>field_sessionId := None\<rparr>)
   \<and> hashed_text ((upload [] 0 1 ''abc'')\<lparr>field_sessionId := None\<rparr>) \<noteq>
     hashed_text ((upload [] 0 1 ''abc'')\<lparr>field_sessionId := None, now_session := 1001\<rparr>)
   \<and> is_upload sample_md5 ''00000496000000000000000000000000'' ((upload [] 0 1 ''abc'')\<lparr>field_sessionId := None\<rparr>)
   \<and> reply_sessionId (reply (handler sample_md5 ((upload [] 0 1 ''abc'')\<lparr>field_sessionId := None\<rparr>) empty_store)) =
       Some ''00000496000000000000000000000000''"
proof -
  let ?a = "(upload [] 0 1 ''abc'')\<lparr>field_sessionId := None\<rparr>"
  let ?b = "(upload [] 3 1 ''xyz'')\<lparr>field_sessionId := None\<rparr>"
  let ?c = "(upload [] 0 1 ''abc'')\<lparr>field_sessionId := None, now_session := 1001\<rparr>"
  let ?id = "''00000496000000000000000000000000''"
  have n: "field_sessionId ?a = None" by (simp add: upload_def)
  have ht: "hashed_text ?a = ''clip.mp4-6-1-1000''"
    by (simp add: hashed_text_def upload_def or_default_def show_int_1000)
  have hx: "md5_hex sample_md5 ''clip.mp4-6-1-1000'' = ?id"
    by (simp add: md5_hex_def sample_md5_def hex_digits_numeral hex_char_def)
  have ab: "field_sessionId ?a = None \<and> field_sessionId ?b = None \<and> field_filename ?a = field_filename ?b
        \<and> field_fileSize ?a = field_fileSize ?b \<and> field_totalChunks ?a = field_totalChunks ?b"
    by (simp add: upload_def)
  have ac: "field_sessionId ?a = None \<and> field_sessionId ?c = None \<and> field_filename ?a = field_filename ?c
        \<and> field_fileSize ?a = field_fileSize ?c \<and> field_totalChunks ?a = field_totalChunks ?c"
    by (simp add: upload_def)
  note t1 = generated_session_id [where ?r1.0 = ?a and ?r2.0 = ?b and ?md5.0 = sample_md5
      and s = empty_store and sid = ?id]
  note t2 = generated_session_id [where ?r1.0 = ?a and ?r2.0 = ?c and ?md5.0 = sample_md5
      and s = empty_store and sid = ?id]
  from mp [OF conjunct1 [OF t1] n] have 1: "request_sessionId sample_md5 ?a = ?id"
    by (simp only: ht hx)
  note e = mp [OF conjunct1 [OF conjunct2 [OF t1]] ab]
  have "now_session ?a = now_session ?b" by (simp add: upload_def)
  with conjunct1 [OF e] have "hashed_text ?a = hashed_text ?b" by (rule iffD2)
  with conjunct2 [OF e] have 2: "request_sessionId sample_md5 ?a = request_sessionId sample_md5 ?b"
    by simp
  have "now_session ?a \<noteq> now_session ?c" by (simp add: upload_def)
  with conjunct1 [OF mp [OF conjunct1 [OF conjunct2 [OF t2]] ac]]
  have 3: "hashed_text ?a \<noteq> hashed_text ?c" by simp
  have 4: "is_upload sample_md5 ?id ?a"
    using 1 by (simp add: is_upload_def) (simp add: upload_eval)
  have hyps: "field_sessionId ?a = None \<and> upload_dir_ready empty_store \<and> is_upload sample_md5 ?id ?a
        \<and> metadata_ok empty_store ?id \<and> results_ok empty_store ?id"
    by (intro conjI n empty_store_ready 4 empty_store_ok)
  note 5 = conjunct2 [OF mp [OF conjunct2 [OF conjunct2 [OF t1]] hyps]]
  show ?thesis by (intro conjI 1 2 3 4 5)
qed

subsection \<open>The range of the confidence\<close>

lemma indices_1: "map int [0..<nat 1] = [0]"
  by simp

text \<open>
  C10, at the input where the handler departs from it. A single-chunk upload that gives no
  file size (the field defaults to 0) is answered with the aggregate; the weight of the
  chunk is 3 / 0, and the aggregate confidence is not a number.
\<close>

theorem aggregate_confidence_undefined:
  "completed (reply (handler sample_md5 ((upload ''s'' 0 1 ''abc'')\<lparr>field_fileSize := None\<rparr>) empty_store))
   \<and> map_option final_confidence (reply_result (reply (handler sample_md5
        ((upload ''s'' 0 1 ''abc'')\<lparr>field_fileSize := None\<rparr>) empty_store))) = Some NaN
   \<and> map_option (\<lambda>a. raw_confidence (confidence_breakdown (analysis a))) (reply_result (reply
        (handler sample_md5 ((upload ''s'' 0 1 ''abc'')\<lparr>field_fileSize := None\<rparr>) empty_store))) = Some NaN"
proof -
  let ?r = "(upload ''s'' 0 1 ''abc'')\<lparr>field_fileSize := None\<rparr>"
  let ?s1 = "finished_store sample_md5 ''s'' ?r empty_store"
  note p = local_id_s
  have u: "is_upload sample_md5 ''s'' ?r"
    by (simp add: upload_eval)
  have i: "the_index ?r = 0" "the_total ?r = 1" "or_default (field_fileSize ?r) 0 = 0"
    "the_chunk ?r = ''abc''"
    by (simp_all add: the_index_def the_total_def the_chunk_def upload_def or_default_def)
  have c: "completes ''s'' ?r empty_store"
    by (simp add: completes_def i received_after_def session_metadata_empty fcard_finsert_if)
  have sr: "stored_results ?s1 ''s'' [0] = [new_result sample_md5 ''s'' ?r]"
    by (simp add: stored_results_alt session_result_finished [OF p] i)
  have raw: "raw_confidence (confidence_breakdown (analysis
      (aggregateChunkResults t [new_result sample_md5 ''s'' ?r] 0 fn))) = NaN" for t fn
    by (simp add: aggregate_confidence weighted_confidence_zero)
  have fin: "final_confidence (aggregateChunkResults t [new_result sample_md5 ''s'' ?r] 0 fn) = NaN" for t fn
    by (simp add: aggregate_confidence weighted_confidence_zero)
  show ?thesis
    by (simp only: handler_reply [OF empty_store_ready p u empty_store_ok]
        c if_True completed_reply_def completed.simps reply_result.simps
        option.map i indices_1 sr sort_key_simps insort_key.simps raw fin simp_thms)
qed

subsection \<open>Two ids for one session\<close>

text \<open>
  The handler puts the session id, as the client sent it, in front of every file name and
  leaves the rest to \<^verbatim>\<open>path.join\<close>, which normalises the path. Two local ids with the same
  stem name the same files.
\<close>

lemma same_stem_paths:
  assumes "local_id a" "local_id b" "session_stem a = session_stem b"
  shows "metadataPath a = metadataPath b" "chunkPath a i = chunkPath b i"
    "resultPath a i = resultPath b i"
  by (simp_all add: session_paths [OF assms(1)] session_paths [OF assms(2)] assms(3))

lemma same_stem_view:
  assumes "local_id a" "local_id b" "session_stem a = session_stem b"
  shows "session_metadata s a = session_metadata s b"
    "session_result s a i = session_result s b i"
    "metadata_ok s a = metadata_ok s b"
    "results_ok s a = results_ok s b"
    "receivedCount s a = receivedCount s b"
  by (simp_all add: session_metadata_def session_result_def metadata_ok_def results_ok_def
      receivedCount_def same_stem_paths [OF assms])

text \<open>
  C9, at the input where the handler departs from it. The ids \<^verbatim>\<open>b\<close> and \<^verbatim>\<open>./b\<close> are
  different, and their metadata files are the same file. After chunk 0 of session \<^verbatim>\<open>b\<close>, a
  request that uploads chunk 1 under the id \<^verbatim>\<open>./b\<close> raises the received count of
  session \<^verbatim>\<open>b\<close> from 1 to 2, stores a result record for chunk 1 of session \<^verbatim>\<open>b\<close>, and is
  answered with an aggregate that includes the chunk of session \<^verbatim>\<open>b\<close>.
\<close>

theorem session_alias_shares_state:
  "''./b'' \<noteq> ''b''
   \<and> metadataPath ''./b'' = metadataPath ''b''
   \<and> receivedCount (store (handler sample_md5 (upload ''b'' 0 2 ''abc'') empty_store)) ''b'' = 1
   \<and> session_result (store (handler sample_md5 (upload ''b'' 0 2 ''abc'') empty_store)) ''b'' 1 = None
   \<and> receivedCount (store (handler sample_md5 (upload ''./b'' 1 2 ''xyz'')
        (store (handler sample_md5 (upload ''b'' 0 2 ''abc'') empty_store)))) ''b'' = 2
   \<and> map_option sessionId (session_result (store (handler sample_md5 (upload ''./b'' 1 2 ''xyz'')
        (store (handler sample_md5 (upload ''b'' 0 2 ''abc'') empty_store)))) ''b'' 1) = Some ''./b''
   \<and> completed (reply (handler sample_md5 (upload ''./b'' 1 2 ''xyz'')
        (store (handler sample_md5 (upload ''b'' 0 2 ''abc'') empty_store))))"
proof -
  let ?r1 = "upload ''b'' 0 2 ''abc''"
  let ?r2 = "upload ''./b'' 1 2 ''xyz''"
  let ?s1 = "finished_store sample_md5 ''b'' ?r1 empty_store"
  let ?s2 = "finished_store sample_md5 ''./b'' ?r2 ?s1"
  have p: "local_id ''b''" and q: "local_id ''./b''"
    and st: "session_stem ''./b'' = session_stem ''b''"
    by (simp_all add: local_id_def session_stem_def)
  have u1: "is_upload sample_md5 ''b'' ?r1" by (rule small_upload) simp_all
  note v = same_stem_view [OF q p st]
  note f = first_chunk_store [OF p u1]
  have u: "is_upload sample_md5 ''./b'' ?r2"
    by (rule small_upload) simp_all
  have ok: "metadata_ok ?s1 ''./b''" "results_ok ?s1 ''./b''"
    using f(3,4) by (simp_all only: v)
  have ra: "received_after ''./b'' ?r2 ?s1 = 2"
    by (simp add: received_after_def v f(5) upload_fields fcard_finsert_if)
  have c: "completes ''./b'' ?r2 ?s1"
    by (simp add: completes_def upload_fields ra)
  have 1: "receivedCount ?s1 ''b'' = 1"
    by (simp add: receivedCount_def f(5) fcard_finsert_if)
  have 2: "session_result ?s1 ''b'' 1 = None"
    by (simp add: session_result_finished [OF p] upload_fields session_result_empty)
  have 3: "receivedCount ?s2 ''b'' = 2"
    using receivedCount_finished [OF f(2) q ok, of sample_md5 ?r2] by (simp only: v ra)
  have "session_result ?s2 ''./b'' 1 = Some (new_result sample_md5 ''./b'' ?r2)"
    by (simp add: session_result_finished [OF q] upload_fields)
  then have 4: "map_option sessionId (session_result ?s2 ''b'' 1) = Some ''./b''"
    by (simp only: v option.map new_result_fields)
  have 5: "metadataPath ''./b'' = metadataPath ''b''"
    by (rule same_stem_paths [OF q p st])
  have 6: "''./b'' \<noteq> ''b''" by simp
  show ?thesis
    by (simp only: f(1) handler_store [OF f(2) q u ok] handler_reply [OF f(2) q u ok]
        c if_True completed_reply_def completed.simps 1 2 3 4 5 6 simp_thms not_False_eq_True)
qed

subsection \<open>Uploading a chunk again\<close>

lemma run_Post:
  "fst (run md5 (Post r # es) (s, ts)) =
     fst (run md5 es (store (handler md5 r s),
       ts @ (case timer (handler md5 r s) of None \<Rightarrow> [] | Some t \<Rightarrow> [t])))"
  "snd (run md5 (Post r # es) (s, ts)) =
     reply (handler md5 r s)
     # snd (run md5 es (store (handler md5 r s),
         ts @ (case timer (handler md5 r s) of None \<Rightarrow> [] | Some t \<Rightarrow> [t])))"
  by (simp_all add: Let_def)

lemma run_Expire:
  "run md5 (Expire # es) (s, (sid, n) # ts) = run md5 es (cleanup sid n s, ts)"
  by simp

lemma new_result_bytes:
  assumes "the_chunk r = the_chunk r'"
  shows "prediction (new_result md5 sid r) = prediction (new_result md5 sid' r')"
    and "confidence (new_result md5 sid r) = confidence (new_result md5 sid' r')"
    and "modelsUsed (new_result md5 sid r) = modelsUsed (new_result md5 sid' r')"
    and "hash (new_result md5 sid r) = hash (new_result md5 sid' r')"
  using assms by (simp_all add: new_result_def processChunk_def Let_def)

lemma received_after_known:
  assumes "the_index r |\<in>| fmdom (session_metadata s sid)"
  shows "received_after sid r s = receivedCount s sid"
  using assms by (simp add: received_after_def receivedCount_def finsert_absorb)

lemma progress_reply_count:
  assumes "received_after sid r s = received_after sid r s'"
  shows "progress_reply md5 sid r s = progress_reply md5 sid r s'"
  using assms by (simp add: progress_reply_def)

lemma run_reuploads:
  assumes "local_id sid"
    and "\<forall>r\<in>set reqs. is_upload md5 sid r \<and> the_index r = i"
    and "upload_dir_ready s" "metadata_ok s sid" "results_ok s sid"
    and "i |\<in>| fmdom (session_metadata s sid)"
  shows "fmdom (session_metadata (fst (fst (run md5 (map Post reqs) (s, ts)))) sid) =
      fmdom (session_metadata s sid)
    \<and> session_result (fst (fst (run md5 (map Post reqs) (s, ts)))) sid i =
      (if reqs = [] then session_result s sid i else Some (new_result md5 sid (last reqs)))
    \<and> list_all2 (\<lambda>r rp. if completes sid r s then completed rp else rp = progress_reply md5 sid r s)
        reqs (snd (run md5 (map Post reqs) (s, ts)))"
  using assms(2-)
proof (induction reqs arbitrary: s ts)
  case Nil
  show ?case by simp
next
  case (Cons r reqs)
  let ?s1 = "finished_store md5 sid r s"
  let ?ts1 = "ts @ (case timer (handler md5 r s) of None \<Rightarrow> [] | Some t \<Rightarrow> [t])"
  from Cons.prems have h: "is_upload md5 sid r" "the_index r = i"
    "upload_dir_ready s" "metadata_ok s sid" "results_ok s sid" "i |\<in>| fmdom (session_metadata s sid)"
    and rest: "\<forall>r\<in>set reqs. is_upload md5 sid r \<and> the_index r = i"
    by simp_all
  note f = finished_store_facts [OF h(3) assms(1) h(4,5), of md5 r]
  have st: "store (handler md5 r s) = ?s1"
    by (rule handler_store [OF h(3) assms(1) h(1,4,5)])
  have d: "fmdom (session_metadata ?s1 sid) = fmdom (session_metadata s sid)"
    using h(2,6) by (simp add: f(4) finsert_absorb)
  from d h(6) have i1: "i |\<in>| fmdom (session_metadata ?s1 sid)" by simp
  have same: "completes sid x ?s1 = completes sid x s" "progress_reply md5 sid x ?s1 = progress_reply md5 sid x s"
    for x
    by (simp_all add: completes_def progress_reply_def received_after_def d)
  have rp: "if completes sid r s then completed (reply (handler md5 r s))
      else reply (handler md5 r s) = progress_reply md5 sid r s"
    by (simp add: handler_reply [OF h(3) assms(1) h(1,4,5)] completed_reply_def)
  have sr: "session_result ?s1 sid i = Some (new_result md5 sid r)"
    using h(2) by (simp add: session_result_finished [OF assms(1)])
  note IH = Cons.IH [OF rest f(1,2,3) i1, of ?ts1]
  have 1: "fmdom (session_metadata (fst (fst (run md5 (map Post (r # reqs)) (s, ts)))) sid) =
      fmdom (session_metadata s sid)"
    using IH by (simp only: list.map run_Post st d)
  have 2: "session_result (fst (fst (run md5 (map Post (r # reqs)) (s, ts)))) sid i =
      (if r # reqs = [] then session_result s sid i else Some (new_result md5 sid (last (r # reqs))))"
    using IH sr by (simp add: run_Post st del: run.simps)
  have 3: "list_all2 (\<lambda>r rp. if completes sid r s then completed rp else rp = progress_reply md5 sid r s)
        (r # reqs) (snd (run md5 (map Post (r # reqs)) (s, ts)))"
  proof -
    have e: "snd (run md5 (map Post (r # reqs)) (s, ts)) =
        reply (handler md5 r s) # snd (run md5 (map Post reqs) (?s1, ?ts1))"
      by (simp only: list.map run_Post st)
    from IH have "list_all2 (\<lambda>r rp. if completes sid r ?s1 then completed rp else rp = progress_reply md5 sid r ?s1)
        reqs (snd (run md5 (map Post reqs) (?s1, ?ts1)))"
      by (rule conjunct2 [OF conjunct2])
    then have l: "list_all2 (\<lambda>r rp. if completes sid r s then completed rp else rp = progress_reply md5 sid r s)
        reqs (snd (run md5 (map Post reqs) (?s1, ?ts1)))"
      unfolding same .
    from rp l show ?thesis
      unfolding e by (simp split del: if_split del: run.simps)
  qed
  from 1 2 3 show ?case by (intro conjI)
qed

text \<open>What the clean-up timer leaves of a session with a local id.\<close>

lemma unlink_existing_files:
  assumes "\<forall>p\<in>set ps. p \<notin> dirs s"
  shows "unlink_existing ps s = s\<lparr>files := (\<lambda>q. if q \<in> set ps then None else files s q)\<rparr>"
  using assms
proof (induction ps arbitrary: s)
  case Nil
  show ?case by simp
next
  case (Cons p ps)
  from Cons.prems have nd: "p \<notin> dirs s" and rest: "\<forall>p\<in>set ps. p \<notin> dirs s" by simp_all
  show ?case
  proof (cases "files s p")
    case None
    with nd have "unlink_existing (p # ps) s = unlink_existing ps s"
      by (simp add: existsSync_def)
    also have "\<dots> = s\<lparr>files := (\<lambda>q. if q \<in> set ps then None else files s q)\<rparr>"
      by (rule Cons.IH [OF rest])
    also have "(\<lambda>q. if q \<in> set ps then None else files s q) =
        (\<lambda>q. if q \<in> set (p # ps) then None else files s q)"
      using None by auto
    finally show ?thesis .
  next
    case (Some x)
    let ?s' = "s\<lparr>files := (files s)(p := None)\<rparr>"
    from Some nd have "unlink_existing (p # ps) s = unlink_existing ps ?s'"
      by (simp add: existsSync_def unlinkSync_def)
    also have "\<dots> = ?s'\<lparr>files := (\<lambda>q. if q \<in> set ps then None else files ?s' q)\<rparr>"
      using rest by (intro Cons.IH) simp
    also have "\<dots> = s\<lparr>files := (\<lambda>q. if q \<in> set (p # ps) then None else files s q)\<rparr>"
      by (auto intro!: arg_cong [where f = "\<lambda>f. s\<lparr>files := f\<rparr>"])
    finally show ?thesis .
  qed
qed

lemma cleanup_files:
  assumes "upload_dir_ready s" "local_id sid"
  shows "dirs (cleanup sid n s) = dirs s"
    and "files (cleanup sid n s) (metadataPath sid) = None"
    and "files (cleanup sid n s) q = None \<or> files (cleanup sid n s) q = files s q"
proof -
  let ?ps = "concat (map (\<lambda>i. [chunkPath sid i, resultPath sid i]) (map int [0..<nat n])) @ [metadataPath sid]"
  have "\<forall>p\<in>set ?ps. p \<notin> dirs s"
    using session_paths_not_dirs(1-3) [OF assms] by auto
  then have c: "cleanup sid n s = s\<lparr>files := (\<lambda>q. if q \<in> set ?ps then None else files s q)\<rparr>"
    unfolding cleanup_def by (rule unlink_existing_files)
  show "dirs (cleanup sid n s) = dirs s" by (simp add: c)
  show "files (cleanup sid n s) (metadataPath sid) = None" by (simp add: c)
  show "files (cleanup sid n s) q = None \<or> files (cleanup sid n s) q = files s q" by (simp add: c)
qed

lemma cleanup_session:
  assumes "upload_dir_ready s" "local_id sid" "results_ok s sid"
  shows "upload_dir_ready (cleanup sid n s)" "metadata_ok (cleanup sid n s) sid"
    "results_ok (cleanup sid n s) sid" "session_metadata (cleanup sid n s) sid = fmempty"
proof -
  note c = cleanup_files [OF assms(1,2), of n]
  show "upload_dir_ready (cleanup sid n s)"
    using assms(1) by (simp add: upload_dir_ready_def c(1))
  show "metadata_ok (cleanup sid n s) sid" by (simp add: metadata_ok_def c(2))
  show "session_metadata (cleanup sid n s) sid = fmempty" by (simp add: session_metadata_def c(2))
  show "results_ok (cleanup sid n s) sid"
    unfolding results_ok_def
  proof
    fix i
    from assms(3) have "case files s (resultPath sid i) of
        None \<Rightarrow> True | Some (ResultFile _) \<Rightarrow> True | Some _ \<Rightarrow> False"
      unfolding results_ok_def by blast
    with c(3) [of "resultPath sid i"]
    show "case files (cleanup sid n s) (resultPath sid i) of
        None \<Rightarrow> True | Some (ResultFile _) \<Rightarrow> True | Some _ \<Rightarrow> False"
      by auto
  qed
qed

text \<open>
  Chunk 0 is uploaded twice with the same bytes. The second response does not carry the
  result of the first analysis: its processing time is the one drawn while the second
  request was served, and the stored result has the timestamp of the second analysis.
\<close>

theorem reupload_analysed_again:
  "reply (handler sample_md5 (upload ''s'' 0 2 ''abc'') empty_store) =
     Progress ''s'' 0 2 1 ''real'' (dbl (294 / 1000)) (Num (3 / 4))
   \<and> reply (handler sample_md5 ((upload ''s'' 0 2 ''abc'')\<lparr>now_result := 2002, math_random := 3 / 4\<rparr>)
        (store (handler sample_md5 (upload ''s'' 0 2 ''abc'') empty_store))) =
     Progress ''s'' 0 2 1 ''real'' (dbl (294 / 1000)) (Num (5 / 4))
   \<and> map_option timestamp (session_result
        (store (handler sample_md5 (upload ''s'' 0 2 ''abc'') empty_store)) ''s'' 0) = Some 1002
   \<and> map_option timestamp (session_result
        (store (handler sample_md5 ((upload ''s'' 0 2 ''abc'')\<lparr>now_result := 2002, math_random := 3 / 4\<rparr>)
           (store (handler sample_md5 (upload ''s'' 0 2 ''abc'') empty_store)))) ''s'' 0) = Some 2002"
proof -
  let ?r1 = "upload ''s'' 0 2 ''abc''"
  let ?r2 = "(upload ''s'' 0 2 ''abc'')\<lparr>now_result := 2002, math_random := 3 / 4\<rparr>"
  let ?s1 = "finished_store sample_md5 ''s'' ?r1 empty_store"
  let ?s2 = "finished_store sample_md5 ''s'' ?r2 ?s1"
  note p = local_id_s
  note u1 = sample_uploads(2) [where ?md5.0 = sample_md5]
  note f = first_chunk_store [OF p u1]
  have u2: "is_upload sample_md5 ''s'' ?r2"
    by (simp add: upload_eval)
  have i: "the_index ?r2 = 0" "the_total ?r2 = 2" "the_chunk ?r2 = ''abc''"
    by (simp_all add: the_index_def the_total_def the_chunk_def upload_def or_default_def)
  have nc1: "\<not> completes ''s'' ?r1 empty_store" by (simp add: completes_def upload_fields)
  have nc2: "\<not> completes ''s'' ?r2 ?s1" by (simp add: completes_def i)
  have n1: "new_result sample_md5 ''s'' ?r1 = processChunk sample_md5 (1 / 4) 1002 ''abc'' 0 ''s''"
    by (simp add: new_result_def upload_fields) (simp add: upload_def)
  have n2: "new_result sample_md5 ''s'' ?r2 = processChunk sample_md5 (3 / 4) 2002 ''abc'' 0 ''s''"
    by (simp add: new_result_def i)
  have 1: "progress_reply sample_md5 ''s'' ?r1 empty_store =
      Progress ''s'' 0 2 1 ''real'' (dbl (294 / 1000)) (Num (3 / 4))"
    by (simp add: progress_reply_def n1 sample_result_abc dbl_exact upload_fields received_after_def
        session_metadata_empty fcard_finsert_if)
  have 2: "progress_reply sample_md5 ''s'' ?r2 ?s1 =
      Progress ''s'' 0 2 1 ''real'' (dbl (294 / 1000)) (Num (5 / 4))"
    by (simp add: progress_reply_def n2 sample_result_abc dbl_exact i received_after_def f(5)
        fcard_finsert_if)
  have 3: "map_option timestamp (session_result ?s1 ''s'' 0) = Some 1002"
    by (simp add: session_result_finished [OF p] upload_fields n1 sample_result_abc)
  have 4: "map_option timestamp (session_result ?s2 ''s'' 0) = Some 2002"
    by (simp add: session_result_finished [OF p] i n2 sample_result_abc)
  show ?thesis
    by (simp only: f(1) handler_reply [OF empty_store_ready p u1 empty_store_ok]
        handler_store [OF f(2) p u2 f(3,4)] handler_reply [OF f(2) p u2 f(3,4)]
        nc1 nc2 if_False 1 2 3 4 simp_thms)
qed

text \<open>
  C3, as the handler has it. When a chunk has been uploaded and is uploaded again, any number
  of times, with the same session, index and bytes, and no clean-up timer fires meanwhile,
  the received count stays what it was after the first upload, and every response that
  reports progress reports that count. The handler keeps no cache: each upload runs the
  analysis again, its response carries the result of this analysis, and the stored result is
  overwritten, so that it is the result of the last analysis; prediction and confidence are
  those of the first, being computed from the bytes alone. When the first upload has
  completed the session and the timer it has set has fired, the files of the session are
  gone, and a chunk uploaded again is the first of a new count.
\<close>

theorem reupload_keeps_count:
  "upload_dir_ready s \<and> local_id sid \<and> is_upload md5 sid req \<and> metadata_ok s sid \<and> results_ok s sid
     \<and> (\<forall>r\<in>set reqs. is_upload md5 sid r \<and> the_index r = the_index req \<and> the_chunk r = the_chunk req) \<longrightarrow>
   (let s1 = store (handler md5 req s);
        again = run md5 (map Post reqs) (s1, ts);
        s2 = fst (fst again)
    in receivedCount s2 sid = receivedCount s1 sid
       \<and> list_all2 (\<lambda>r rp. if completes sid r s1 then completed rp else rp = progress_reply md5 sid r s1)
            reqs (snd again)
       \<and> (\<forall>r\<in>set reqs. received_after sid r s1 = receivedCount s1 sid)
       \<and> session_result s2 sid (the_index req) = Some (new_result md5 sid (last (req # reqs)))
       \<and> map_option prediction (session_result s2 sid (the_index req)) = Some (prediction (new_result md5 sid req))
       \<and> map_option confidence (session_result s2 sid (the_index req)) = Some (confidence (new_result md5 sid req))
       \<and> (completes sid req s \<longrightarrow>
            (\<forall>r\<in>set reqs.
               receivedCount (fst (fst (run md5 [Post req, Expire, Post r] (s, [])))) sid = 1)))"
proof
  assume a: "upload_dir_ready s \<and> local_id sid \<and> is_upload md5 sid req \<and> metadata_ok s sid \<and> results_ok s sid
     \<and> (\<forall>r\<in>set reqs. is_upload md5 sid r \<and> the_index r = the_index req \<and> the_chunk r = the_chunk req)"
  then have h: "upload_dir_ready s" "local_id sid" "is_upload md5 sid req" "metadata_ok s sid" "results_ok s sid"
    and rs: "\<forall>r\<in>set reqs. is_upload md5 sid r \<and> the_index r = the_index req"
    and bs: "\<forall>r\<in>set reqs. the_chunk r = the_chunk req"
    by blast+
  let ?s1 = "finished_store md5 sid req s"
  let ?again = "run md5 (map Post reqs) (?s1, ts)"
  let ?s2 = "fst (fst ?again)"
  note f = finished_store_facts [OF h(1,2,4,5), of md5 req]
  have st: "store (handler md5 req s) = ?s1" by (rule handler_store [OF h])
  have i1: "the_index req |\<in>| fmdom (session_metadata ?s1 sid)" by (simp add: f(4))
  note r = run_reuploads [OF h(2) rs f(1,2,3) i1, of ts]
  from r have 1: "receivedCount ?s2 sid = receivedCount ?s1 sid"
    by (simp add: receivedCount_def)
  from r have 2: "list_all2 (\<lambda>r rp. if completes sid r ?s1 then completed rp else rp = progress_reply md5 sid r ?s1)
            reqs (snd ?again)"
    by (rule conjunct2 [OF conjunct2])
  have 3: "\<forall>r\<in>set reqs. received_after sid r ?s1 = receivedCount ?s1 sid"
    using rs i1 by (simp add: received_after_known)
  have sr: "session_result ?s1 sid (the_index req) = Some (new_result md5 sid req)"
    by (simp add: session_result_finished [OF h(2)])
  from r sr have 4: "session_result ?s2 sid (the_index req) = Some (new_result md5 sid (last (req # reqs)))"
    by simp
  have "the_chunk (last (req # reqs)) = the_chunk req"
    using bs by (cases "reqs = []") simp_all
  note nb = new_result_bytes [OF this, of md5 sid sid]
  from 4 nb have 5: "map_option prediction (session_result ?s2 sid (the_index req)) = Some (prediction (new_result md5 sid req))"
    and 6: "map_option confidence (session_result ?s2 sid (the_index req)) = Some (confidence (new_result md5 sid req))"
    by simp_all
  have 7: "completes sid req s \<longrightarrow>
      (\<forall>r\<in>set reqs. receivedCount (fst (fst (run md5 [Post req, Expire, Post r] (s, [])))) sid = 1)"
  proof (intro impI ballI)
    fix r
    assume c: "completes sid req s" and "r \<in> set reqs"
    with rs have u: "is_upload md5 sid r" by blast
    let ?s3 = "cleanup sid (the_total req) ?s1"
    note cl = cleanup_session [OF f(1) h(2) f(3), of "the_total req"]
    from c have tm: "timer (handler md5 req s) = Some (sid, the_total req)"
      by (simp add: handler_ok [OF h])
    have "fst (fst (run md5 [Post req, Expire, Post r] (s, []))) = store (handler md5 r ?s3)"
      by (simp add: Let_def tm st)
    also have "\<dots> = finished_store md5 sid r ?s3"
      by (rule handler_store [OF cl(1) h(2) u cl(2,3)])
    finally have "receivedCount (fst (fst (run md5 [Post req, Expire, Post r] (s, [])))) sid =
        received_after sid r ?s3"
      by (simp only: receivedCount_finished [OF cl(1) h(2) cl(2,3)])
    also have "\<dots> = 1"
      by (simp add: received_after_def cl(4) fcard_finsert_if)
    finally show "receivedCount (fst (fst (run md5 [Post req, Expire, Post r] (s, [])))) sid = 1" .
  qed
  from 1 2 3 4 5 6 7 show "let s1 = store (handler md5 req s);
        again = run md5 (map Post reqs) (s1, ts);
        s2 = fst (fst again)
    in receivedCount s2 sid = receivedCount s1 sid
       \<and> list_all2 (\<lambda>r rp. if completes sid r s1 then completed rp else rp = progress_reply md5 sid r s1)
            reqs (snd again)
       \<and> (\<forall>r\<in>set reqs. received_after sid r s1 = receivedCount s1 sid)
       \<and> session_result s2 sid (the_index req) = Some (new_result md5 sid (last (req # reqs)))
       \<and> map_option prediction (session_result s2 sid (the_index req)) = Some (prediction (new_result md5 sid req))
       \<and> map_option confidence (session_result s2 sid (the_index req)) = Some (confidence (new_result md5 sid req))
       \<and> (completes sid req s \<longrightarrow>
            (\<forall>r\<in>set reqs.
               receivedCount (fst (fst (run md5 [Post req, Expire, Post r] (s, [])))) sid = 1))"
    unfolding Let_def st by (intro conjI)
qed

text \<open>
  Chunk 0 of 2 is uploaded three times: the count stays 1, and each response carries the
  processing time of its own analysis. Chunk 1 of 2 completes the session (the count is 2);
  when the timer has fired, the same chunk uploaded again is the only one recorded.
\<close>

theorem reupload_keeps_count_witness:
  "list_all (\<lambda>r. is_upload sample_md5 ''s'' r \<and> the_index r = the_index (upload ''s'' 0 2 ''abc'')
        \<and> the_chunk r = the_chunk (upload ''s'' 0 2 ''abc''))
     [(upload ''s'' 0 2 ''abc'')\<lparr>now_result := 2002, math_random := 3 / 4\<rparr>,
      (upload ''s'' 0 2 ''abc'')\<lparr>now_result := 3002, math_random := 1 / 2\<rparr>]
   \<and> receivedCount (store (handler sample_md5 (upload ''s'' 0 2 ''abc'') empty_store)) ''s'' = 1
   \<and> receivedCount (fst (fst (run sample_md5
        [Post ((upload ''s'' 0 2 ''abc'')\<lparr>now_result := 2002, math_random := 3 / 4\<rparr>),
         Post ((upload ''s'' 0 2 ''abc'')\<lparr>now_result := 3002, math_random := 1 / 2\<rparr>)]
        (store (handler sample_md5 (upload ''s'' 0 2 ''abc'') empty_store), [])))) ''s'' = 1
   \<and> snd (run sample_md5
        [Post ((upload ''s'' 0 2 ''abc'')\<lparr>now_result := 2002, math_random := 3 / 4\<rparr>),
         Post ((upload ''s'' 0 2 ''abc'')\<lparr>now_result := 3002, math_random := 1 / 2\<rparr>)]
        (store (handler sample_md5 (upload ''s'' 0 2 ''abc'') empty_store), [])) =
       [Progress ''s'' 0 2 1 ''real'' (dbl (294 / 1000)) (Num (5 / 4)),
        Progress ''s'' 0 2 1 ''real'' (dbl (294 / 1000)) (Num 1)]
   \<and> map_option processingTime (session_result (fst (fst (run sample_md5
        [Post ((upload ''s'' 0 2 ''abc'')\<lparr>now_result := 2002, math_random := 3 / 4\<rparr>),
         Post ((upload ''s'' 0 2 ''abc'')\<lparr>now_result := 3002, math_random := 1 / 2\<rparr>)]
        (store (handler sample_md5 (upload ''s'' 0 2 ''abc'') empty_store), [])))) ''s'' 0) = Some (Num 1)
   \<and> completes ''s'' (upload ''s'' 1 2 ''xyz'') (store (handler sample_md5 (upload ''s'' 0 2 ''abc'') empty_store))
   \<and> receivedCount (store (handler sample_md5 (upload ''s'' 1 2 ''xyz'')
        (store (handler sample_md5 (upload ''s'' 0 2 ''abc'') empty_store)))) ''s'' = 2
   \<and> receivedCount (fst (fst (run sample_md5
        [Post (upload ''s'' 1 2 ''xyz''), Expire, Post (upload ''s'' 1 2 ''xyz'')]
        (store (handler sample_md5 (upload ''s'' 0 2 ''abc'') empty_store), [])))) ''s'' = 1"
proof -
  let ?r = "upload ''s'' 0 2 ''abc''"
  let ?a = "(upload ''s'' 0 2 ''abc'')\<lparr>now_result := 2002, math_random := 3 / 4\<rparr>"
  let ?b = "(upload ''s'' 0 2 ''abc'')\<lparr>now_result := 3002, math_random := 1 / 2\<rparr>"
  let ?x = "upload ''s'' 1 2 ''xyz''"
  let ?s1 = "finished_store sample_md5 ''s'' ?r empty_store"
  note p = local_id_s
  note u = sample_uploads(2) [where ?md5.0 = sample_md5]
  note ux = sample_uploads(4) [where ?md5.0 = sample_md5]
  note f = first_chunk_store [OF p u]
  have ua: "is_upload sample_md5 ''s'' ?a" and ub: "is_upload sample_md5 ''s'' ?b"
    by (simp_all add: upload_eval)
  have ia: "the_index ?a = 0" "the_total ?a = 2" "the_chunk ?a = ''abc''"
    and ib: "the_index ?b = 0" "the_total ?b = 2" "the_chunk ?b = ''abc''"
    by (simp_all add: the_index_def the_total_def the_chunk_def upload_def or_default_def)
  have rs: "\<forall>r\<in>set [?a, ?b]. is_upload sample_md5 ''s'' r \<and> the_index r = the_index ?r
      \<and> the_chunk r = the_chunk ?r"
    using ua ub by (simp add: ia ib upload_fields)
  have hyps: "upload_dir_ready empty_store \<and> local_id ''s'' \<and> is_upload sample_md5 ''s'' ?r
      \<and> metadata_ok empty_store ''s'' \<and> results_ok empty_store ''s''
      \<and> (\<forall>r\<in>set [?a, ?b]. is_upload sample_md5 ''s'' r \<and> the_index r = the_index ?r
            \<and> the_chunk r = the_chunk ?r)"
    by (intro conjI empty_store_ready p u empty_store_ok rs)
  note t = mp [OF reupload_keeps_count [where s = empty_store and sid = "''s''" and ?md5.0 = sample_md5
      and req = ?r and reqs = "[?a, ?b]" and ts = "[]"] hyps, unfolded Let_def f(1)]
  have c1: "receivedCount ?s1 ''s'' = 1"
    by (simp add: receivedCount_def f(5) fcard_finsert_if)
  have 0: "list_all (\<lambda>r. is_upload sample_md5 ''s'' r \<and> the_index r = the_index ?r
        \<and> the_chunk r = the_chunk ?r) [?a, ?b]"
    using rs unfolding list_all_iff .
  have 2: "receivedCount (fst (fst (run sample_md5 [Post ?a, Post ?b] (?s1, [])))) ''s'' = 1"
    using conjunct1 [OF t] by (simp only: list.map c1)
  have nc: "\<not> completes ''s'' ?a ?s1" "\<not> completes ''s'' ?b ?s1"
    by (simp_all add: completes_def ia ib)
  have na: "new_result sample_md5 ''s'' ?a = processChunk sample_md5 (3 / 4) 2002 ''abc'' 0 ''s''"
    and nb: "new_result sample_md5 ''s'' ?b = processChunk sample_md5 (1 / 2) 3002 ''abc'' 0 ''s''"
    by (simp_all add: new_result_def ia ib)
  have pa: "progress_reply sample_md5 ''s'' ?a ?s1 =
      Progress ''s'' 0 2 1 ''real'' (dbl (294 / 1000)) (Num (5 / 4))"
    by (simp add: progress_reply_def na sample_result_abc dbl_exact ia received_after_def f(5)
        fcard_finsert_if)
  have pb: "progress_reply sample_md5 ''s'' ?b ?s1 =
      Progress ''s'' 0 2 1 ''real'' (dbl (294 / 1000)) (Num 1)"
    by (simp add: progress_reply_def nb sample_result_abc dbl_exact ib received_after_def f(5)
        fcard_finsert_if)
  from conjunct1 [OF conjunct2 [OF t]]
  have 3: "snd (run sample_md5 [Post ?a, Post ?b] (?s1, [])) =
       [Progress ''s'' 0 2 1 ''real'' (dbl (294 / 1000)) (Num (5 / 4)),
        Progress ''s'' 0 2 1 ''real'' (dbl (294 / 1000)) (Num 1)]"
    by (simp add: list_all2_Cons1 nc pa pb del: run.simps)
  from conjunct1 [OF conjunct2 [OF conjunct2 [OF conjunct2 [OF t]]]]
  have "session_result (fst (fst (run sample_md5 [Post ?a, Post ?b] (?s1, [])))) ''s'' 0 =
      Some (new_result sample_md5 ''s'' ?b)"
    by (simp add: upload_fields del: run.simps)
  then have 4: "map_option processingTime (session_result
      (fst (fst (run sample_md5 [Post ?a, Post ?b] (?s1, [])))) ''s'' 0) = Some (Num 1)"
    by (simp add: nb sample_result_abc dbl_exact del: run.simps)
  have ra: "received_after ''s'' ?x ?s1 = 2"
    by (simp add: received_after_def f(5) upload_fields fcard_finsert_if)
  have 5: "completes ''s'' ?x ?s1"
    by (simp add: completes_def upload_fields ra)
  have 6: "receivedCount (store (handler sample_md5 ?x ?s1)) ''s'' = 2"
    by (simp only: handler_store [OF f(2) p ux f(3,4)] receivedCount_finished [OF f(2) p f(3,4)] ra)
  have hx: "upload_dir_ready ?s1 \<and> local_id ''s'' \<and> is_upload sample_md5 ''s'' ?x
      \<and> metadata_ok ?s1 ''s'' \<and> results_ok ?s1 ''s''
      \<and> (\<forall>r\<in>set [?x]. is_upload sample_md5 ''s'' r \<and> the_index r = the_index ?x
            \<and> the_chunk r = the_chunk ?x)"
    using ux by (intro conjI f(2,3,4) p) simp_all
  note tx = mp [OF reupload_keeps_count [where s = ?s1 and sid = "''s''" and ?md5.0 = sample_md5
      and req = ?x and reqs = "[?x]" and ts = "[]"] hx, unfolded Let_def]
  note last = conjunct2 [OF conjunct2 [OF conjunct2 [OF conjunct2 [OF conjunct2 [OF conjunct2 [OF tx]]]]]]
  from mp [OF last 5]
  have 7: "receivedCount (fst (fst (run sample_md5 [Post ?x, Expire, Post ?x] (?s1, [])))) ''s'' = 1"
    by (simp del: run.simps)
  show ?thesis
    unfolding f(1) by (intro conjI 0 c1 2 3 4 5 6 7)
qed

subsection \<open>Uploading every chunk once\<close>

lemma session_state_fresh:
  assumes "upload_dir_ready s" "files s (metadataPath sid) = None" "\<forall>i. files s (resultPath sid i) = None"
  shows "session_state s sid {||}"
  using assms
  by (simp add: session_state_def metadata_ok_def results_ok_def session_metadata_def
      session_result_def)

lemma session_state_step:
  assumes "local_id sid" "session_state s sid K"
  shows "session_state (finished_store md5 sid r s) sid (finsert (the_index r) K)"
proof -
  from assms(2) have h: "upload_dir_ready s" "metadata_ok s sid" "results_ok s sid"
    and K: "fmdom (session_metadata s sid) = K"
    and R: "\<And>i. case session_result s sid i of None \<Rightarrow> i |\<notin>| K
              | Some r \<Rightarrow> i |\<in>| K \<and> chunkIndex r = i"
    by (simp_all add: session_state_def)
  note f = finished_store_facts [OF h(1) assms(1) h(2,3), of md5 r]
  have "case session_result (finished_store md5 sid r s) sid i of
      None \<Rightarrow> i |\<notin>| finsert (the_index r) K
    | Some x \<Rightarrow> i |\<in>| finsert (the_index r) K \<and> chunkIndex x = i" for i
    using R [of i]
    by (simp add: session_result_finished [OF assms(1)] new_result_fields split: option.splits)
  with f K show ?thesis
    by (simp add: session_state_def)
qed

lemma stored_indices:
  assumes "session_state s sid K"
  shows "map chunkIndex (stored_results s sid is) = filter (\<lambda>i. i |\<in>| K) is"
proof -
  from assms have R: "\<And>i. case session_result s sid i of None \<Rightarrow> i |\<notin>| K
              | Some r \<Rightarrow> i |\<in>| K \<and> chunkIndex r = i"
    by (simp add: session_state_def)
  show ?thesis
  proof (induction "is")
    case Nil
    show ?case by (simp add: stored_results_alt)
  next
    case (Cons i "is")
    from Cons R [of i] show ?case
      by (simp add: stored_results_alt split: option.splits)
  qed
qed

lemma sorted_indices: "sorted (map int [0..<n])"
  by (simp add: sorted_map sorted_wrt_map)

lemma completed_breakdown:
  assumes "session_state s sid K"
  shows "breakdown_indices (aggregateChunkResults t
      (sort_key chunkIndex (stored_results s sid (map int [0..<n]))) T fn) =
    filter (\<lambda>i. i |\<in>| K) (map int [0..<n])"
proof -
  have "sorted (filter (\<lambda>i. i |\<in>| K) (map int [0..<n]))"
    by (rule sorted_filter [where f = "\<lambda>x. x", simplified, OF sorted_indices])
  then have "sorted (map chunkIndex (stored_results s sid (map int [0..<n])))"
    by (simp only: stored_indices [OF assms])
  then have "sort_key chunkIndex (stored_results s sid (map int [0..<n])) = stored_results s sid (map int [0..<n])"
    by (rule sort_key_id_if_sorted)
  then show ?thesis
    by (simp add: aggregate_fields stored_indices [OF assms])
qed


lemma card_indices: "card (int ` {..<n}) = n"
  by (simp add: card_image)

lemma filter_all_indices:
  assumes "fset K = int ` {..<n}"
  shows "filter (\<lambda>i. i |\<in>| K) (map int [0..<n]) = map int [0..<n]"
proof -
  have "\<forall>i\<in>set (map int [0..<n]). i |\<in>| K"
    using assms by auto
  then show ?thesis by (simp only: filter_True)
qed

lemma run_fills_session:
  assumes "local_id sid"
    and "\<forall>r\<in>set reqs. is_upload md5 sid r \<and> the_total r = int n"
    and "distinct (map the_index reqs)"
    and "session_state s sid K"
    and "fset K \<inter> set (map the_index reqs) = {}"
    and "fset K \<union> set (map the_index reqs) = int ` {..<n}"
  shows "map completed (snd (run md5 (map Post reqs) (s, ts))) =
      (if reqs = [] then [] else replicate (length reqs - 1) False @ [the_index (last reqs) = int n - 1])
    \<and> (\<forall>rp\<in>set (snd (run md5 (map Post reqs) (s, ts))). \<forall>a. reply_result rp = Some a \<longrightarrow>
          breakdown_indices a = map int [0..<n])"
  using assms(2-)
proof (induction reqs arbitrary: s K ts)
  case Nil
  show ?case by simp
next
  case (Cons r reqs)
  let ?i = "the_index r"
  let ?K = "finsert ?i K"
  let ?s1 = "finished_store md5 sid r s"
  from Cons.prems have u: "is_upload md5 sid r" and tot: "the_total r = int n"
    and rest: "\<forall>r\<in>set reqs. is_upload md5 sid r \<and> the_total r = int n"
    and dist: "?i \<notin> set (map the_index reqs)" "distinct (map the_index reqs)"
    and st: "session_state s sid K"
    and disj: "fset K \<inter> set (map the_index reqs) = {}" "?i \<notin> fset K"
    and full: "fset ?K \<union> set (map the_index reqs) = int ` {..<n}"
    by auto
  from st have h: "upload_dir_ready s" "metadata_ok s sid" "results_ok s sid"
    and K: "fmdom (session_metadata s sid) = K"
    by (simp_all add: session_state_def)
  note st1 = session_state_step [OF assms(1) st, of md5 r]
  have store: "store (handler md5 r s) = ?s1"
    by (rule handler_store [OF h(1) assms(1) u h(2,3)])
  have rep: "reply (handler md5 r s) =
      (if completes sid r s then completed_reply md5 sid r s else progress_reply md5 sid r s)"
    by (rule handler_reply [OF h(1) assms(1) u h(2,3)])
  have comp: "completes sid r s \<longleftrightarrow> ?i = int n - 1 \<and> card (fset ?K) = n"
    by (simp add: completes_def received_after_def K tot fcard.rep_eq)
  have disj1: "fset ?K \<inter> set (map the_index reqs) = {}"
    using disj(1) dist(1) by auto
  show ?case
  proof (cases "reqs = []")
    case True
    with full have all: "fset ?K = int ` {..<n}" by simp
    then have "card (fset ?K) = n" by (simp only: card_indices)
    with comp have c: "completes sid r s \<longleftrightarrow> ?i = int n - 1" by simp
    have b: "breakdown_indices a = map int [0..<n]"
      if "reply_result (completed_reply md5 sid r s) = Some a" for a
    proof -
      from that have "a = aggregateChunkResults (now_aggregate r)
          (sort_key chunkIndex (stored_results ?s1 sid (map int [0..<nat (the_total r)])))
          (or_default (field_fileSize r) 0) (or_default (field_filename r) ''video.mp4'')"
        by (simp add: completed_reply_def)
      then have "breakdown_indices a = filter (\<lambda>i. i |\<in>| ?K) (map int [0..<n])"
        by (simp only: tot nat_int completed_breakdown [OF st1])
      then show ?thesis by (simp only: filter_all_indices [OF all])
    qed
    from True c b show ?thesis
      by (simp add: rep completed_reply_def progress_reply_def Let_def)
  next
    case False
    then obtain j where j: "j \<in> set (map the_index reqs)" by (cases reqs) auto
    from j disj1 have "j \<notin> fset ?K" by blast
    moreover from j full have "j \<in> int ` {..<n}" by blast
    moreover from full have "fset ?K \<subseteq> int ` {..<n}" by blast
    ultimately have "fset ?K \<subset> int ` {..<n}" by blast
    then have "card (fset ?K) < card (int ` {..<n})"
      by (intro psubset_card_mono) simp_all
    then have "card (fset ?K) \<noteq> n" by (simp add: card_indices)
    with comp have nc: "\<not> completes sid r s" by simp
    note IH = Cons.IH [OF rest dist(2) st1 disj1 full,
        of "ts @ (case timer (handler md5 r s) of None \<Rightarrow> [] | Some t \<Rightarrow> [t])"]
    from False IH nc show ?thesis
      by (simp add: rep store progress_reply_def Let_def Suc_diff_Suc replicate_app_Cons_same
          del: run.simps replicate.simps add: run_Post)
        (cases reqs; simp)
  qed
qed


lemma count_flags:
  "length (filter (\<lambda>b. b) (replicate k False @ [c])) = (if c then 1 else 0)"
  by (induction k) simp_all

lemma empty_store_state: "session_state empty_store sid {||}"
  by (rule session_state_fresh [OF empty_store_ready]) (simp_all add: empty_store_def)

lemma indices_below_2: "int ` {..<2} = {0, 1}"
  by (auto simp: lessThan_def)

text \<open>
  Two chunks, the one with index 1 first: neither request is answered with the aggregate.
\<close>

theorem last_index_first_no_aggregate:
  "map completed (snd (run sample_md5 [Post (upload ''s'' 1 2 ''abc''), Post (upload ''s'' 0 2 ''xyz'')]
      (empty_store, []))) = [False, False]
   \<and> length (filter completed
        (snd (run sample_md5 [Post (upload ''s'' 1 2 ''abc''), Post (upload ''s'' 0 2 ''xyz'')]
           (empty_store, [])))) = 0"
proof -
  let ?reqs = "[upload ''s'' 1 2 ''abc'', upload ''s'' 0 2 ''xyz'']"
  note p = local_id_s
  have rs: "\<forall>r\<in>set ?reqs. is_upload sample_md5 ''s'' r \<and> the_total r = int 2"
    using sample_uploads(6,7) [where ?md5.0 = sample_md5]
    by (simp add: upload_fields)
  have d: "distinct (map the_index ?reqs)" by (simp add: upload_fields)
  have e: "fset {||} \<inter> set (map the_index ?reqs) = {}" by simp
  have f: "fset {||} \<union> set (map the_index ?reqs) = int ` {..<2}"
    by (simp add: upload_fields indices_below_2 insert_commute)
  from run_fills_session [OF p rs d empty_store_state e f, of "[]"]
  have flags: "map completed (snd (run sample_md5 (map Post ?reqs) (empty_store, []))) = [False, False]"
    by (simp add: upload_fields del: run.simps)
  have "length (filter completed (snd (run sample_md5 (map Post ?reqs) (empty_store, [])))) =
      length (filter (\<lambda>b. b) (map completed (snd (run sample_md5 (map Post ?reqs) (empty_store, [])))))"
    by (simp add: filter_map comp_def del: run.simps)
  with flags have "map completed (snd (run sample_md5 (map Post ?reqs) (empty_store, []))) = [False, False]
      \<and> length (filter completed (snd (run sample_md5 (map Post ?reqs) (empty_store, [])))) = 0"
    by (simp del: run.simps)
  then show ?thesis by (simp only: list.map)
qed

text \<open>
  C1, as the handler has it. The \<open>n\<close> chunks of a session that has nothing in the store
  are uploaded once each, in any order, one request after the other with no clean-up timer
  firing in between, every request declaring \<open>n\<close> chunks. No request but the last is
  answered with the aggregate, and the last one is if and only if it carries the index
  \<open>n - 1\<close>: the aggregate is produced once when the chunk with the last index arrives last,
  and never otherwise. The chunk breakdown of the aggregate has the indices \<open>0, \<dots>, n - 1\<close>
  in ascending order.
\<close>

theorem aggregate_iff_last_index_last:
  "0 < n \<and> upload_dir_ready s \<and> local_id sid
     \<and> files s (metadataPath sid) = None \<and> (\<forall>i. files s (resultPath sid i) = None)
     \<and> (\<forall>r\<in>set reqs. is_upload md5 sid r \<and> the_total r = int n)
     \<and> distinct (map the_index reqs) \<and> set (map the_index reqs) = int ` {..<n} \<longrightarrow>
   (let replies = snd (run md5 (map Post reqs) (s, ts))
    in map completed replies = replicate (n - 1) False @ [the_index (last reqs) = int n - 1]
       \<and> length (filter completed replies) = (if the_index (last reqs) = int n - 1 then 1 else 0)
       \<and> (\<forall>rp\<in>set replies. \<forall>a. reply_result rp = Some a \<longrightarrow>
             breakdown_indices a = map int [0..<n] \<and> sorted (breakdown_indices a)
             \<and> length (chunk_breakdown (chunked_analysis a)) = n))"
proof
  assume a: "0 < n \<and> upload_dir_ready s \<and> local_id sid
     \<and> files s (metadataPath sid) = None \<and> (\<forall>i. files s (resultPath sid i) = None)
     \<and> (\<forall>r\<in>set reqs. is_upload md5 sid r \<and> the_total r = int n)
     \<and> distinct (map the_index reqs) \<and> set (map the_index reqs) = int ` {..<n}"
  then have n: "0 < n" and h: "upload_dir_ready s" "local_id sid"
    and fresh: "files s (metadataPath sid) = None" "\<forall>i. files s (resultPath sid i) = None"
    and rs: "\<forall>r\<in>set reqs. is_upload md5 sid r \<and> the_total r = int n"
    and d: "distinct (map the_index reqs)" and full: "set (map the_index reqs) = int ` {..<n}"
    by blast+
  let ?replies = "snd (run md5 (map Post reqs) (s, ts))"
  from distinct_card [OF d] have "length reqs = card (set (map the_index reqs))"
    by simp
  with full have len: "length reqs = n" by (simp only: card_indices)
  with n have ne: "reqs \<noteq> []" by auto
  note st = session_state_fresh [OF h(1) fresh]
  have e: "fset {||} \<inter> set (map the_index reqs) = {}" by simp
  from full have u: "fset {||} \<union> set (map the_index reqs) = int ` {..<n}" by simp
  from run_fills_session [OF h(2) rs d st e u, of ts] ne len
  have flags: "map completed ?replies = replicate (n - 1) False @ [the_index (last reqs) = int n - 1]"
    and bd: "\<forall>rp\<in>set ?replies. \<forall>a. reply_result rp = Some a \<longrightarrow> breakdown_indices a = map int [0..<n]"
    by simp_all
  have "length (filter completed ?replies) = length (filter (\<lambda>b. b) (map completed ?replies))"
    by (simp add: filter_map comp_def)
  then have cnt: "length (filter completed ?replies) = (if the_index (last reqs) = int n - 1 then 1 else 0)"
    by (simp only: flags count_flags)
  have "breakdown_indices a = map int [0..<n] \<and> sorted (breakdown_indices a)
      \<and> length (chunk_breakdown (chunked_analysis a)) = n"
    if "rp \<in> set ?replies" "reply_result rp = Some a" for rp a
  proof -
    from bd that have b: "breakdown_indices a = map int [0..<n]" by blast
    then have "length (breakdown_indices a) = n" by simp
    then have "length (chunk_breakdown (chunked_analysis a)) = n"
      by (simp add: breakdown_indices_def)
    with b sorted_indices [of n] show ?thesis by simp
  qed
  with flags cnt show "let replies = snd (run md5 (map Post reqs) (s, ts))
    in map completed replies = replicate (n - 1) False @ [the_index (last reqs) = int n - 1]
       \<and> length (filter completed replies) = (if the_index (last reqs) = int n - 1 then 1 else 0)
       \<and> (\<forall>rp\<in>set replies. \<forall>a. reply_result rp = Some a \<longrightarrow>
             breakdown_indices a = map int [0..<n] \<and> sorted (breakdown_indices a)
             \<and> length (chunk_breakdown (chunked_analysis a)) = n)"
    unfolding Let_def by blast
qed

theorem aggregate_iff_last_index_last_witness:
  "list_all (\<lambda>r. is_upload sample_md5 ''s'' r \<and> the_total r = int 2)
     [upload ''s'' 0 2 ''abc'', upload ''s'' 1 2 ''xyz'']
   \<and> set (map the_index [upload ''s'' 0 2 ''abc'', upload ''s'' 1 2 ''xyz'']) = int ` {..<2}
   \<and> map completed (snd (run sample_md5 [Post (upload ''s'' 0 2 ''abc''), Post (upload ''s'' 1 2 ''xyz'')]
         (empty_store, []))) = [False, True]
   \<and> length (filter completed
        (snd (run sample_md5 [Post (upload ''s'' 0 2 ''abc''), Post (upload ''s'' 1 2 ''xyz'')]
           (empty_store, [])))) = 1
   \<and> list_all (\<lambda>rp. reply_result rp = None \<or>
          map_option breakdown_indices (reply_result rp) = Some [0, 1])
        (snd (run sample_md5 [Post (upload ''s'' 0 2 ''abc''), Post (upload ''s'' 1 2 ''xyz'')]
           (empty_store, [])))"
proof -
  let ?reqs = "[upload ''s'' 0 2 ''abc'', upload ''s'' 1 2 ''xyz'']"
  let ?replies = "snd (run sample_md5 (map Post ?reqs) (empty_store, []))"
  note p = local_id_s
  have rs: "\<forall>r\<in>set ?reqs. is_upload sample_md5 ''s'' r \<and> the_total r = int 2"
    using sample_uploads(2,4) [where ?md5.0 = sample_md5]
    by (simp add: upload_fields)
  have d: "distinct (map the_index ?reqs)" by (simp add: upload_fields)
  have f: "set (map the_index ?reqs) = int ` {..<2}"
    by (simp add: upload_fields indices_below_2)
  have fr: "files empty_store (metadataPath ''s'') = None" "\<forall>i. files empty_store (resultPath ''s'' i) = None"
    by (simp_all add: empty_store_def)
  have two: "(0::nat) < 2" by simp
  have hyps: "0 < (2::nat) \<and> upload_dir_ready empty_store \<and> local_id ''s''
     \<and> files empty_store (metadataPath ''s'') = None \<and> (\<forall>i. files empty_store (resultPath ''s'' i) = None)
     \<and> (\<forall>r\<in>set ?reqs. is_upload sample_md5 ''s'' r \<and> the_total r = int 2)
     \<and> distinct (map the_index ?reqs) \<and> set (map the_index ?reqs) = int ` {..<2}"
    by (intro conjI two empty_store_ready p fr rs d f)
  note t = mp [OF aggregate_iff_last_index_last [where n = 2 and s = empty_store and sid = "''s''"
      and reqs = ?reqs and ?md5.0 = sample_md5 and ts = "[]"] hyps, unfolded Let_def]
  from t have 1: "map completed ?replies = replicate (2 - 1) False @ [the_index (last ?reqs) = int 2 - 1]"
    by (rule conjunct1)
  from t have 2: "length (filter completed ?replies) = (if the_index (last ?reqs) = int 2 - 1 then 1 else 0)"
    by (rule conjunct1 [OF conjunct2])
  from t have 3: "\<forall>rp\<in>set ?replies. \<forall>a. reply_result rp = Some a \<longrightarrow>
      breakdown_indices a = map int [0..<2] \<and> sorted (breakdown_indices a)
      \<and> length (chunk_breakdown (chunked_analysis a)) = 2"
    by (rule conjunct2 [OF conjunct2])
  from 1 have 1: "map completed ?replies = [False, True]"
    by (simp add: upload_fields del: run.simps)
  from 2 have 2: "length (filter completed ?replies) = 1"
    by (simp add: upload_fields del: run.simps)
  have i2: "map int [0..<2] = [0, 1]" by (simp add: numeral_2_eq_2)
  have 3: "list_all (\<lambda>rp. reply_result rp = None \<or>
          map_option breakdown_indices (reply_result rp) = Some [0, 1]) ?replies"
    unfolding list_all_iff
  proof
    fix rp
    assume rp: "rp \<in> set ?replies"
    show "reply_result rp = None \<or> map_option breakdown_indices (reply_result rp) = Some [0, 1]"
    proof (cases "reply_result rp")
      case None
      then show ?thesis by simp
    next
      case (Some a)
      with 3 rp have "breakdown_indices a = map int [0..<2]" by blast
      with Some i2 show ?thesis by simp
    qed
  qed
  from rs have 0: "list_all (\<lambda>r. is_upload sample_md5 ''s'' r \<and> the_total r = int 2) ?reqs"
    unfolding list_all_iff .
  have "list_all (\<lambda>r. is_upload sample_md5 ''s'' r \<and> the_total r = int 2) ?reqs
   \<and> set (map the_index ?reqs) = int ` {..<2}
   \<and> map completed ?replies = [False, True]
   \<and> length (filter completed ?replies) = 1
   \<and> list_all (\<lambda>rp. reply_result rp = None \<or>
          map_option breakdown_indices (reply_result rp) = Some [0, 1]) ?replies"
    by (intro conjI 0 f 1 2 3)
  then show ?thesis by (simp only: list.map)
qed

subsection \<open>Two requests for the last chunk\<close>

text \<open>A request that runs its two parts with nothing in between is the handler.\<close>

lemma handler_in_two_steps:
  "step md5 (fst (step md5 (Arrived req) s)) (snd (step md5 (Arrived req) s)) =
     (Answered (handler md5 req s), store (handler md5 req s))"
  by (simp add: handler_def split: sum.splits prod.splits)

lemma received_store_session:
  assumes "local_id sid"
  shows "session_metadata (received_store md5 sid r s) sid =
      fmupd (the_index r) (new_meta md5 r) (session_metadata s sid)"
    and "metadata_ok (received_store md5 sid r s) sid"
    and "session_result (received_store md5 sid r s) sid i = session_result s sid i"
  using session_paths_distinct [OF assms]
  by (simp_all add: received_store_def session_metadata_def metadata_ok_def session_result_def)

lemma result_written:
  assumes "local_id sid"
  shows "session_metadata (s\<lparr>files := (files s)(resultPath sid i \<mapsto> ResultFile r)\<rparr>) sid = session_metadata s sid"
    and "metadata_ok (s\<lparr>files := (files s)(resultPath sid i \<mapsto> ResultFile r)\<rparr>) sid = metadata_ok s sid"
    and "session_result (s\<lparr>files := (files s)(resultPath sid i \<mapsto> ResultFile r)\<rparr>) sid j =
      (if j = i then Some r else session_result s sid j)"
    and "upload_dir_ready (s\<lparr>files := (files s)(resultPath sid i \<mapsto> ResultFile r)\<rparr>) = upload_dir_ready s"
    and "results_ok s sid \<Longrightarrow> results_ok (s\<lparr>files := (files s)(resultPath sid i \<mapsto> ResultFile r)\<rparr>) sid"
  using session_paths_distinct [OF assms]
  by (simp_all add: session_metadata_def metadata_ok_def session_result_def upload_dir_ready_def
      results_ok_def resultPath_inj [OF assms])

lemma full_card:
  assumes "\<forall>i. i |\<in>| F \<longleftrightarrow> 0 \<le> i \<and> i < int n"
  shows "fcard F = n"
proof -
  have "fset F = {0..<int n}"
  proof (rule set_eqI)
    fix i
    from assms have "i |\<in>| F \<longleftrightarrow> 0 \<le> i \<and> i < int n" by (rule spec)
    then show "i \<in> fset F \<longleftrightarrow> i \<in> {0..<int n}" by simp
  qed
  then show ?thesis by (simp add: fcard.rep_eq)
qed

lemma stored_all:
  assumes "\<forall>i\<in>set is. \<exists>r. session_result s sid i = Some r \<and> chunkIndex r = i"
  shows "map chunkIndex (stored_results s sid is) = is"
  using assms by (induction "is") (auto simp: stored_results_alt)


lemma step_arrived:
  assumes "0 < n" "local_id sid" "last_missing s sid n" "final_upload md5 sid n r"
  shows "last_missing (snd (step md5 (Arrived r) s)) sid n"
    and "on_track md5 sid n (fst (step md5 (Arrived r) s))"
    and "stops_left (fst (step md5 (Arrived r) s)) = 1"
proof -
  from assms(3) have h: "upload_dir_ready s" "metadata_ok s sid" "results_ok s sid"
    and lo: "\<And>i. i |\<in>| fmdom (session_metadata s sid) \<Longrightarrow> 0 \<le> i \<and> i < int n"
    and hi: "\<And>i. 0 \<le> i \<and> i < int n - 1 \<Longrightarrow> i |\<in>| fmdom (session_metadata s sid)"
    and rs: "\<And>i. case session_result s sid i of
                None \<Rightarrow> \<not> (0 \<le> i \<and> i < int n - 1)
              | Some r \<Rightarrow> chunkIndex r = i \<and> 0 \<le> i \<and> i < int n"
    by (simp_all add: last_missing_def)
  from assms(4) have u: "is_upload md5 sid r" and i: "the_index r = int n - 1"
    and t: "the_total r = int n"
    by (simp_all add: final_upload_def)
  let ?s1 = "received_store md5 sid r s"
  let ?p = "received_pending md5 sid r s"
  have st: "step md5 (Arrived r) s = (Awaiting ?p, ?s1)"
    by (simp add: receiveChunk_ok [OF h(1) assms(2) u h(2)])
  note f = received_store_facts [OF h(1) assms(2) h(3), of md5 r]
  note m = received_store_session [OF assms(2), of md5 r s]
  have dom: "i |\<in>| fmdom (session_metadata ?s1 sid) \<longleftrightarrow> 0 \<le> i \<and> i < int n" for i
  proof (cases "i = int n - 1")
    case True
    with assms(1) show ?thesis by (simp add: m(1) i)
  next
    case False
    have "i |\<in>| fmdom (session_metadata s sid) \<longleftrightarrow> 0 \<le> i \<and> i < int n"
    proof
      assume "i |\<in>| fmdom (session_metadata s sid)"
      then show "0 \<le> i \<and> i < int n" by (rule lo)
    next
      assume "0 \<le> i \<and> i < int n"
      with False have "0 \<le> i \<and> i < int n - 1" by linarith
      then show "i |\<in>| fmdom (session_metadata s sid)" by (rule hi)
    qed
    with False show ?thesis by (simp add: m(1) i)
  qed
  have "last_missing ?s1 sid n"
    unfolding last_missing_def using f m(2) dom rs by (simp add: m(3))
  then show "last_missing (snd (step md5 (Arrived r) s)) sid n" by (simp only: st snd_conv)
  from dom have "fcard (fmdom (session_metadata ?s1 sid)) = n"
    by (intro full_card) simp
  then have "on_track md5 sid n (Awaiting ?p)"
    by (simp add: received_pending_def m(1) i t processChunk_def Let_def)
  then show "on_track md5 sid n (fst (step md5 (Arrived r) s))" by (simp only: st fst_conv)
  show "stops_left (fst (step md5 (Arrived r) s)) = 1" by (simp only: st fst_conv stops_left.simps)
qed

lemma step_awaiting:
  assumes "0 < n" "local_id sid" "last_missing s sid n" "on_track md5 sid n (Awaiting p)"
    and "int n < 2 ^ 53"
  shows "last_missing (snd (step md5 (Awaiting p) s)) sid n"
    and "on_track md5 sid n (fst (step md5 (Awaiting p) s))"
    and "stops_left (fst (step md5 (Awaiting p) s)) = 0"
proof -
  from assms(3) have h: "upload_dir_ready s" "metadata_ok s sid" "results_ok s sid"
    and lo: "\<And>i. i |\<in>| fmdom (session_metadata s sid) \<Longrightarrow> 0 \<le> i \<and> i < int n"
    and hi: "\<And>i. 0 \<le> i \<and> i < int n - 1 \<Longrightarrow> i |\<in>| fmdom (session_metadata s sid)"
    and rs: "\<And>i. case session_result s sid i of
                None \<Rightarrow> \<not> (0 \<le> i \<and> i < int n - 1)
              | Some r \<Rightarrow> chunkIndex r = i \<and> 0 \<le> i \<and> i < int n"
    by (simp_all add: last_missing_def)
  from assms(4) have p: "pending_sessionId p = sid" "pending_chunkIndex p = int n - 1"
    "pending_totalChunks p = int n" "fcard (fmdom (pending_metadata p)) = n"
    "chunkIndex (pending_chunkResult p) = int n - 1"
    by simp_all
  let ?s1 = "s\<lparr>files := (files s)(resultPath sid (int n - 1) \<mapsto> ResultFile (pending_chunkResult p))\<rparr>"
  note w = result_written [OF assms(2), of s "int n - 1" "pending_chunkResult p"]
  from assms(2) have lp: "local_id (pending_sessionId p)" by (simp only: p(1))
  from h(3) have rp: "results_ok s (pending_sessionId p)" by (simp only: p(1))
  from assms(1,5) have sf: "safe_integer (pending_chunkIndex p)" "safe_integer (pending_totalChunks p)"
    by (simp_all add: safe_integer_def p(2,3))
  have fin: "finishChunk p s =
      \<lparr>store = ?s1,
       reply = Completed sid (int n - 1) (int n)
         (aggregateChunkResults (pending_now p)
            (sort_key chunkIndex (stored_results ?s1 sid (map int [0..<n])))
            (pending_fileSize p) (pending_filename p)),
       timer = Some (sid, int n)\<rparr>"
    unfolding finishChunk_ok [OF h(1) lp rp sf] Let_def p by simp
  have res: "case session_result ?s1 sid i of
                None \<Rightarrow> \<not> (0 \<le> i \<and> i < int n - 1)
              | Some r \<Rightarrow> chunkIndex r = i \<and> 0 \<le> i \<and> i < int n" for i
    using rs [of i] assms(1) by (simp add: w(3) p(5))
  have lm: "last_missing ?s1 sid n"
    unfolding last_missing_def using h lo hi res by (simp add: w)
  then show "last_missing (snd (step md5 (Awaiting p) s)) sid n" by (simp add: fin)
  have "\<exists>r. session_result ?s1 sid i = Some r \<and> chunkIndex r = i"
    if "i \<in> set (map int [0..<n])" for i
  proof (cases "i = int n - 1")
    case True
    then show ?thesis by (simp add: w(3) p(5))
  next
    case False
    with that have "0 \<le> i \<and> i < int n - 1" by auto
    with res [of i] show ?thesis by (cases "session_result ?s1 sid i") simp_all
  qed
  then have all: "map chunkIndex (stored_results ?s1 sid (map int [0..<n])) = map int [0..<n]"
    by (intro stored_all) blast
  with sorted_indices [of n]
  have "sort_key chunkIndex (stored_results ?s1 sid (map int [0..<n])) = stored_results ?s1 sid (map int [0..<n])"
    by (intro sort_key_id_if_sorted) simp
  with all have "on_track md5 sid n (Answered (finishChunk p s))"
    by (simp add: fin aggregate_fields)
  then show "on_track md5 sid n (fst (step md5 (Awaiting p) s))" by simp
  show "stops_left (fst (step md5 (Awaiting p) s)) = 0" by simp
qed

lemma step_on_track:
  assumes "0 < n" "local_id sid" "last_missing s sid n" "on_track md5 sid n f"
    and "int n < 2 ^ 53"
  shows "last_missing (snd (step md5 f s)) sid n"
    and "on_track md5 sid n (fst (step md5 f s))"
    and "stops_left (fst (step md5 f s)) = stops_left f - 1"
proof -
  have "last_missing (snd (step md5 f s)) sid n \<and> on_track md5 sid n (fst (step md5 f s))
      \<and> stops_left (fst (step md5 f s)) = stops_left f - 1"
  proof (cases f)
    case (Arrived r)
    with assms(4) have "final_upload md5 sid n r" by simp
    from step_arrived [OF assms(1-3) this] Arrived show ?thesis by simp
  next
    case (Awaiting p)
    with assms(4) have "on_track md5 sid n (Awaiting p)" by simp
    from step_awaiting [OF assms(1-3) this assms(5)] Awaiting show ?thesis by simp
  next
    case (Answered out)
    with assms(3,4) show ?thesis by simp
  qed
  then show "last_missing (snd (step md5 f s)) sid n"
    and "on_track md5 sid n (fst (step md5 f s))"
    and "stops_left (fst (step md5 f s)) = stops_left f - 1"
    by blast+
qed

lemma interleave_on_track:
  assumes "0 < n" "local_id sid" "int n < 2 ^ 53"
    and "last_missing s sid n" "on_track md5 sid n x" "on_track md5 sid n y"
  shows "on_track md5 sid n (fst (fst (interleave md5 ts (x, y) s)))
    \<and> on_track md5 sid n (snd (fst (interleave md5 ts (x, y) s)))
    \<and> stops_left (fst (fst (interleave md5 ts (x, y) s))) = stops_left x - count_list ts First
    \<and> stops_left (snd (fst (interleave md5 ts (x, y) s))) = stops_left y - count_list ts Second
    \<and> last_missing (snd (interleave md5 ts (x, y) s)) sid n"
  using assms(4-)
proof (induction ts arbitrary: s x y)
  case Nil
  then show ?case by simp
next
  case (Cons t ts)
  show ?case
  proof (cases t)
    case First
    note st = step_on_track [OF assms(1,2) Cons.prems(1,2) assms(3)]
    from Cons.IH [OF st(1,2) Cons.prems(3)] First st(3) show ?thesis by simp
  next
    case Second
    note st = step_on_track [OF assms(1,2) Cons.prems(1,3) assms(3)]
    from Cons.IH [OF st(1) Cons.prems(2) st(2)] Second st(3) show ?thesis by simp
  qed
qed


lemma answered_flight:
  assumes "stops_left f = 0" "on_track md5 sid n f"
  shows "map_option completed (flight_reply f) = Some True"
    and "Option.bind (flight_reply f) (\<lambda>rp. map_option breakdown_indices (reply_result rp)) =
      Some (map int [0..<n])"
  using assms by (cases f; simp)+

lemma session_state_last_missing:
  assumes "session_state s sid K" "\<forall>i. i |\<in>| K \<longleftrightarrow> 0 \<le> i \<and> i < int n - 1"
  shows "last_missing s sid n"
proof -
  from assms(1) have h: "upload_dir_ready s" "metadata_ok s sid" "results_ok s sid"
    and K: "fmdom (session_metadata s sid) = K"
    and R: "\<And>i. case session_result s sid i of None \<Rightarrow> i |\<notin>| K
              | Some r \<Rightarrow> i |\<in>| K \<and> chunkIndex r = i"
    by (simp_all add: session_state_def)
  have "case session_result s sid i of
                None \<Rightarrow> \<not> (0 \<le> i \<and> i < int n - 1)
              | Some r \<Rightarrow> chunkIndex r = i \<and> 0 \<le> i \<and> i < int n" for i
    using R [of i] assms(2) by (cases "session_result s sid i") auto
  with h K assms(2) show ?thesis
    by (simp add: last_missing_def)
qed

lemma one_chunk_of_two:
  "last_missing (store (handler sample_md5 (upload ''s'' 0 2 ''abc'') empty_store)) ''s'' 2"
proof -
  note p = local_id_s
  note f = first_chunk_store [OF p sample_uploads(2) [where ?md5.0 = sample_md5]]
  from session_state_step [OF p empty_store_state, of sample_md5 "upload ''s'' 0 2 ''abc''"]
  have "session_state (finished_store sample_md5 ''s'' (upload ''s'' 0 2 ''abc'') empty_store) ''s'' {|0|}"
    by (simp add: upload_fields)
  moreover have "\<forall>i. i |\<in>| {|0::int|} \<longleftrightarrow> 0 \<le> i \<and> i < int 2 - 1" by auto
  ultimately show ?thesis
    unfolding f(1) by (rule session_state_last_missing)
qed

lemma final_upload_xyz: "final_upload sample_md5 ''s'' 2 (upload ''s'' 1 2 ''xyz'')"
  using sample_uploads(4) [where ?md5.0 = sample_md5]
  by (simp add: final_upload_def upload_fields)

text \<open>
  Chunk 0 of 2 is in the store; two requests upload chunk 1 at the same time in one Node
  process, and each is suspended at its \<^verbatim>\<open>await processChunk\<close> while the other runs its
  first part. Both are answered with the aggregate.
\<close>

theorem final_chunk_twice_two_aggregates:
  "map_option completed (flight_reply (fst (fst (interleave sample_md5 [First, Second, First, Second]
      (Arrived (upload ''s'' 1 2 ''xyz''), Arrived (upload ''s'' 1 2 ''xyz''))
      (store (handler sample_md5 (upload ''s'' 0 2 ''abc'') empty_store)))))) = Some True
   \<and> map_option completed (flight_reply (snd (fst (interleave sample_md5 [First, Second, First, Second]
      (Arrived (upload ''s'' 1 2 ''xyz''), Arrived (upload ''s'' 1 2 ''xyz''))
      (store (handler sample_md5 (upload ''s'' 0 2 ''abc'') empty_store)))))) = Some True"
proof -
  let ?s1 = "store (handler sample_md5 (upload ''s'' 0 2 ''abc'') empty_store)"
  let ?x = "Arrived (upload ''s'' 1 2 ''xyz'')"
  let ?ts = "[First, Second, First, Second]"
  note p = local_id_s
  have two: "(0::nat) < 2" "int 2 < 2 ^ 53" by simp_all
  have x: "on_track sample_md5 ''s'' 2 ?x" using final_upload_xyz by simp
  note t = interleave_on_track [OF two(1) p two(2) one_chunk_of_two x x, of ?ts]
  from t have a: "on_track sample_md5 ''s'' 2 (fst (fst (interleave sample_md5 ?ts (?x, ?x) ?s1)))"
    by (rule conjunct1)
  from t have b: "on_track sample_md5 ''s'' 2 (snd (fst (interleave sample_md5 ?ts (?x, ?x) ?s1)))"
    by (rule conjunct1 [OF conjunct2])
  from t have c: "stops_left (fst (fst (interleave sample_md5 ?ts (?x, ?x) ?s1))) = 0"
    "stops_left (snd (fst (interleave sample_md5 ?ts (?x, ?x) ?s1))) = 0"
    by (simp_all del: interleave.simps)
  from answered_flight(1) [OF c(1) a] answered_flight(1) [OF c(2) b]
  show ?thesis by (intro conjI)
qed

text \<open>
  C2, as the handler has it. Nothing in the handler claims the completion. The two requests
  are served by one Node process: each runs without interruption from its arrival to
  \<^verbatim>\<open>await processChunk\<close> and from there to its response, and the schedule \<open>ts\<close> says in which
  order these parts of the two requests run (each request gets its two turns; a turn given
  to a request already answered changes nothing). No clean-up timer fires meanwhile. When
  every chunk of a session but the last is recorded and two such requests both upload the
  last chunk, index \<open>n - 1\<close> of \<open>n\<close>, then under every such schedule both requests are answered
  with the aggregate, and the chunk breakdown of each aggregate has all the indices
  \<open>0, \<dots>, n - 1\<close>; neither request is answered with the progress response.
\<close>

theorem both_final_uploads_aggregate:
  "0 < n \<and> local_id sid \<and> last_missing s sid n \<and> final_upload md5 sid n x \<and> final_upload md5 sid n y
     \<and> 2 \<le> count_list ts First \<and> 2 \<le> count_list ts Second \<longrightarrow>
   (let fl = fst (interleave md5 ts (Arrived x, Arrived y) s)
    in map_option completed (flight_reply (fst fl)) = Some True
       \<and> map_option completed (flight_reply (snd fl)) = Some True
       \<and> Option.bind (flight_reply (fst fl)) (\<lambda>rp. map_option breakdown_indices (reply_result rp)) =
           Some (map int [0..<n])
       \<and> Option.bind (flight_reply (snd fl)) (\<lambda>rp. map_option breakdown_indices (reply_result rp)) =
           Some (map int [0..<n]))"
proof
  assume a: "0 < n \<and> local_id sid \<and> last_missing s sid n \<and> final_upload md5 sid n x \<and> final_upload md5 sid n y
     \<and> 2 \<le> count_list ts First \<and> 2 \<le> count_list ts Second"
  then have h: "0 < n" "local_id sid" "last_missing s sid n"
    and x: "on_track md5 sid n (Arrived x)" and y: "on_track md5 sid n (Arrived y)"
    and c: "2 \<le> count_list ts First" "2 \<le> count_list ts Second"
    by simp_all
  from a have "is_upload md5 sid x" "the_total x = int n" by (simp_all add: final_upload_def)
  with is_upload_chunk(6) [of md5 sid x] have b: "int n < 2 ^ 53"
    by (simp add: safe_integer_def)
  let ?fl = "fst (interleave md5 ts (Arrived x, Arrived y) s)"
  from interleave_on_track [OF h(1,2) b h(3) x y, of ts] c
  have fx: "on_track md5 sid n (fst ?fl)" "stops_left (fst ?fl) = 0"
    and fy: "on_track md5 sid n (snd ?fl)" "stops_left (snd ?fl) = 0"
    by simp_all
  from answered_flight [OF fx(2,1)] answered_flight [OF fy(2,1)]
  show "let fl = ?fl
    in map_option completed (flight_reply (fst fl)) = Some True
       \<and> map_option completed (flight_reply (snd fl)) = Some True
       \<and> Option.bind (flight_reply (fst fl)) (\<lambda>rp. map_option breakdown_indices (reply_result rp)) =
           Some (map int [0..<n])
       \<and> Option.bind (flight_reply (snd fl)) (\<lambda>rp. map_option breakdown_indices (reply_result rp)) =
           Some (map int [0..<n])"
    unfolding Let_def by (intro conjI)
qed

theorem both_final_uploads_aggregate_witness:
  "last_missing (store (handler sample_md5 (upload ''s'' 0 2 ''abc'') empty_store)) ''s'' 2
   \<and> final_upload sample_md5 ''s'' 2 (upload ''s'' 1 2 ''xyz'')
   \<and> map_option completed (flight_reply (fst (fst (interleave sample_md5 [Second, First, Second, First]
      (Arrived (upload ''s'' 1 2 ''xyz''), Arrived (upload ''s'' 1 2 ''xyz''))
      (store (handler sample_md5 (upload ''s'' 0 2 ''abc'') empty_store)))))) = Some True
   \<and> Option.bind (flight_reply (snd (fst (interleave sample_md5 [Second, First, Second, First]
      (Arrived (upload ''s'' 1 2 ''xyz''), Arrived (upload ''s'' 1 2 ''xyz''))
      (store (handler sample_md5 (upload ''s'' 0 2 ''abc'') empty_store))))))
      (\<lambda>rp. map_option breakdown_indices (reply_result rp)) = Some [0, 1]"
proof -
  let ?s1 = "store (handler sample_md5 (upload ''s'' 0 2 ''abc'') empty_store)"
  let ?x = "upload ''s'' 1 2 ''xyz''"
  let ?ts = "[Second, First, Second, First]"
  note p = local_id_s
  have two: "(0::nat) < 2" by simp
  have c: "2 \<le> count_list ?ts First" "2 \<le> count_list ?ts Second" by simp_all
  have hyps: "0 < (2::nat) \<and> local_id ''s'' \<and> last_missing ?s1 ''s'' 2
     \<and> final_upload sample_md5 ''s'' 2 ?x \<and> final_upload sample_md5 ''s'' 2 ?x
     \<and> 2 \<le> count_list ?ts First \<and> 2 \<le> count_list ?ts Second"
    by (intro conjI two p one_chunk_of_two final_upload_xyz c)
  note t = mp [OF both_final_uploads_aggregate [where n = 2 and sid = "''s''" and s = ?s1
      and ?md5.0 = sample_md5 and x = ?x and y = ?x and ts = ?ts] hyps, unfolded Let_def]
  from t have 1: "map_option completed (flight_reply (fst (fst (interleave sample_md5 ?ts
      (Arrived ?x, Arrived ?x) ?s1)))) = Some True"
    by (rule conjunct1)
  from t have "Option.bind (flight_reply (snd (fst (interleave sample_md5 ?ts
      (Arrived ?x, Arrived ?x) ?s1)))) (\<lambda>rp. map_option breakdown_indices (reply_result rp)) =
      Some (map int [0..<2])"
    by (rule conjunct2 [OF conjunct2 [OF conjunct2]])
  then have 2: "Option.bind (flight_reply (snd (fst (interleave sample_md5 ?ts
      (Arrived ?x, Arrived ?x) ?s1)))) (\<lambda>rp. map_option breakdown_indices (reply_result rp)) =
      Some [0, 1]"
    by (simp add: numeral_2_eq_2 del: interleave.simps)
  show ?thesis by (intro conjI one_chunk_of_two final_upload_xyz 1 2)
qed

end
